theory Spec2Isabelle
  imports Complex_Main "HOL-Library.Word"
begin

unbundle bit_operations_syntax

section \<open>The renderer of the depth-of-field viewer (src/viewer/renderer.cpp)\<close>

text \<open>
  The class \<open>Renderer\<close> is embedded as a record, its member functions \<open>Resize\<close>,
  \<open>UpdateGUI\<close> and \<open>Paint\<close> as functions that take the record and return the updated
  record together with the list of OpenGL (and ImGui, clock) calls they issue, in program
  order. Everything the C++ leaves undefined or aborts on is a value of \<open>error\<close>.
\<close>

subsection \<open>Errors and the C++ type \<open>int\<close>\<close>

datatype error =
    SignedOverflow        \<comment> \<open>signed \<open>int\<close> arithmetic leaves the 32-bit range (undefined)\<close>
  | DivisionByZero
  | AssertionFailed       \<comment> \<open>\<open>assert\<close> aborts\<close>
  | BadArrayNewLength     \<comment> \<open>\<open>new T[n]\<close> with negative \<open>n\<close> throws\<close>
  | OutOfBounds           \<comment> \<open>array subscript outside the allocation (undefined)\<close>
  | NullDereference       \<comment> \<open>\<open>*p\<close> with \<open>p\<close> null (undefined)\<close>
  | FloatToUintOutOfRange \<comment> \<open>float to unsigned conversion of a value outside the range (undefined)\<close>

definition and_then :: "error + 'a \<Rightarrow> ('a \<Rightarrow> error + 'b) \<Rightarrow> error + 'b" where
  "and_then m f = (case m of Inl e \<Rightarrow> Inl e | Inr v \<Rightarrow> f v)"

definition INT_MIN :: int where
  "INT_MIN = - (2 ^ 31)"

definition INT_MAX :: int where
  "INT_MAX = 2 ^ 31 - 1"

definition checked :: "int \<Rightarrow> error + int" where
  "checked v = (if INT_MIN \<le> v \<and> v \<le> INT_MAX then Inr v else Inl SignedOverflow)"

definition add_int :: "int \<Rightarrow> int \<Rightarrow> error + int" where
  "add_int a b = checked (a + b)"

definition sub_int :: "int \<Rightarrow> int \<Rightarrow> error + int" where
  "sub_int a b = checked (a - b)"

definition mul_int :: "int \<Rightarrow> int \<Rightarrow> error + int" where
  "mul_int a b = checked (a * b)"

definition neg_int :: "int \<Rightarrow> error + int" where
  "neg_int a = checked (- a)"

text \<open>C++ \<open>/\<close> on \<open>int\<close> truncates towards zero.\<close>

definition div_int :: "int \<Rightarrow> int \<Rightarrow> error + int" where
  "div_int a b =
     (if b = 0 then Inl DivisionByZero
      else checked (sgn a * sgn b * (\<bar>a\<bar> div \<bar>b\<bar>)))"

text \<open>
  \<open>new T[n]\<close>: \<open>n\<close> elements whose initial contents the language does not fix; they
  are taken from the function \<open>init\<close>.
\<close>

definition new_array :: "int \<Rightarrow> (nat \<Rightarrow> 'a) \<Rightarrow> error + 'a list" where
  "new_array n init = (if n < 0 then Inl BadArrayNewLength else Inr (map init [0..<nat n]))"

subsection \<open>Pixels and accumulators\<close>

datatype u8vec4 = U8Vec4 (r8: "8 word") (g8: "8 word") (b8: "8 word") (a8: "8 word")

datatype uvec4 = UVec4 (rx: "32 word") (gy: "32 word") (bz: "32 word") (aw: "32 word")

instantiation uvec4 :: comm_monoid_add
begin

definition zero_uvec4 :: uvec4 where
  "zero_uvec4 = UVec4 0 0 0 0"

definition plus_uvec4 :: "uvec4 \<Rightarrow> uvec4 \<Rightarrow> uvec4" where
  "plus_uvec4 p q = UVec4 (rx p + rx q) (gy p + gy q) (bz p + bz q) (aw p + aw q)"

instance
proof
  fix a b c :: uvec4
  show "a + b + c = a + (b + c)"
    by (simp add: plus_uvec4_def add.assoc)
  show "a + b = b + a"
    by (simp add: plus_uvec4_def add.commute)
  show "0 + a = a"
    by (simp add: plus_uvec4_def zero_uvec4_def)
qed

end

subsection \<open>OpenGL names, enumerants and calls\<close>

type_synonym GLuint = nat

datatype GLenum =
    GL_TEXTURE_2D | GL_TEXTURE_2D_MULTISAMPLE
  | GL_SRGB8_ALPHA8 | GL_DEPTH_COMPONENT32F | GL_RGBA32UI
  | GL_FRAMEBUFFER | GL_READ_FRAMEBUFFER | GL_DRAW_FRAMEBUFFER
  | GL_COLOR_ATTACHMENT0 | GL_DEPTH_ATTACHMENT
  | GL_NEAREST | GL_LINEAR
  | GL_RGBA | GL_UNSIGNED_BYTE | GL_RGBA_INTEGER | GL_UNSIGNED_INT
  | GL_WRITE_ONLY | GL_READ_ONLY | GL_READ_WRITE
  | GL_TRIANGLES | GL_FRAMEBUFFER_SRGB | GL_DEPTH_TEST
  | GL_GREATER | GL_LESS | GL_TIMESTAMP | GL_QUERY_RESULT

datatype barrier_bit = GL_SHADER_IMAGE_ACCESS_BARRIER_BIT | GL_TEXTURE_FETCH_BARRIER_BIT

datatype buffer_bit = GL_COLOR_BUFFER_BIT | GL_DEPTH_BUFFER_BIT

text \<open>
  The binding points and uniform locations are macros of \<open>preamble.glsl\<close>, which is not
  part of the sources at hand; they are kept symbolic.
\<close>

datatype binding =
    SAT_INPUT_TEXTURE_BINDING | SAT_UINT_INPUT_TEXTURE_BINDING
  | SAT_OUTPUT_IMAGE_BINDING | SAT_WGSUMS_IMAGE_BINDING
  | TRANSPOSE_SAT_INPUT_IMAGE_BINDING | TRANSPOSE_SAT_OUTPUT_IMAGE_BINDING
  | DOF_SAT_TEXTURE_BINDING | DOF_DEPTH_TEXTURE_BINDING

datatype location =
    SAT_READ_UINT_INPUT_UNIFORM_LOCATION | SAT_READ_WGSUM_UNIFORM_LOCATION
  | SAT_ADD_WGSUM_UNIFORM_LOCATION
  | DOF_ZNEAR_UNIFORM_LOCATION | DOF_FOCUS_UNIFORM_LOCATION

text \<open>
  One constructor per call the renderer makes. Timestamp queries are named by their index
  in \<open>mGPUTimestampQueries\<close>, wall-clock stamps by their index in
  \<open>mCPUTimestampQueryResults\<close>. \<open>SceneDrawCalls\<close> stands for the camera set-up and the
  loop over the scene's instances (lines 343 to 429), whose data belongs to the scene.
  \<open>ImGui_Text_CPU i\<close> is the line of text computed from the wall-clock pair \<open>i\<close>.
\<close>

datatype call =
    glFinish
  | glDeleteTextures GLuint
  | glGenTextures GLuint
  | glBindTexture GLenum GLuint
  | glTexStorage2DMultisample GLenum int GLenum int int bool
  | glTexStorage2D GLenum int GLenum int int
  | glDeleteFramebuffers GLuint
  | glGenFramebuffers GLuint
  | glBindFramebuffer GLenum GLuint
  | glFramebufferTexture2D GLenum GLenum GLenum GLuint int
  | glCheckFramebufferStatus GLenum
  | glGetQueryObjectui64v nat GLenum
  | glQueryCounter nat GLenum
  | glViewport int int int int
  | glClearColor real real real real
  | glClearDepth real
  | glClear "buffer_bit set"
  | SceneDrawCalls
  | glBlitFramebuffer int int int int int int int int "buffer_bit set" GLenum
  | glReadPixels int int int int GLenum GLenum
  | glTexSubImage2D GLenum int int int int int GLenum GLenum "uvec4 list"
  | glMemoryBarrier "barrier_bit set"
  | glUseProgram GLuint
  | glBindTextures binding "GLuint option"
  | glBindImageTexture binding GLuint GLenum GLenum
  | glBindImageTextures binding
  | glUniform1i location int
  | glUniform1f location real
  | glDispatchCompute int int int
  | glBindVertexArray GLuint
  | glEnable GLenum
  | glDisable GLenum
  | glDrawArrays GLenum int int
  | QueryPerformanceCounter nat
  | ImGui_Text_GPU nat
  | ImGui_Text_CPU nat
  | ImGui_Render

subsection \<open>The class \<open>Renderer\<close>\<close>

text \<open>\<open>mSummedAreaTableTO\<close> is a pointer to one of the texture members, or null.\<close>

datatype texture_member = SummedRowsTO | SummedColsTO

record Renderer =
  mFirstFrame :: bool
  mBackbufferWidth :: int
  mBackbufferHeight :: int
  mBackbufferFBOMS :: GLuint
  mBackbufferColorTOMS :: GLuint
  mBackbufferDepthTOMS :: GLuint
  mBackbufferFBOSS :: GLuint
  mBackbufferColorTOSS :: GLuint
  mBackbufferDepthTOSS :: GLuint
  mNullVAO :: GLuint
  mWindowWidth :: int
  mWindowHeight :: int
  mSummedAreaTableWidth :: int
  mSummedAreaTableHeight :: int
  mUseCPUForSAT :: bool
  mCPUBackbufferReadback :: "u8vec4 list"
  mCPUSummedAreaTable :: "uvec4 list"
  mSummedRowsTO :: GLuint
  mSummedAreaTableTO :: "texture_member option"
  mSummedRowsWGSumsTO :: GLuint
  mSummedColsTO :: GLuint
  mSummedColsWGSumsTO :: GLuint
  mEnableDoF :: bool
  mFocusDepth :: real

text \<open>\<open>operator new\<close> clears the object's memory: every member starts as zero.\<close>

definition NewRenderer :: Renderer where
  "NewRenderer = \<lparr>
     mFirstFrame = False,
     mBackbufferWidth = 0, mBackbufferHeight = 0,
     mBackbufferFBOMS = 0, mBackbufferColorTOMS = 0, mBackbufferDepthTOMS = 0,
     mBackbufferFBOSS = 0, mBackbufferColorTOSS = 0, mBackbufferDepthTOSS = 0,
     mNullVAO = 0,
     mWindowWidth = 0, mWindowHeight = 0,
     mSummedAreaTableWidth = 0, mSummedAreaTableHeight = 0,
     mUseCPUForSAT = False,
     mCPUBackbufferReadback = [], mCPUSummedAreaTable = [],
     mSummedRowsTO = 0, mSummedAreaTableTO = None,
     mSummedRowsWGSumsTO = 0, mSummedColsTO = 0, mSummedColsWGSumsTO = 0,
     mEnableDoF = False, mFocusDepth = 0 \<rparr>"

text \<open>
  The names OpenGL hands out: \<open>glGenTextures\<close> and \<open>glGenFramebuffers\<close> return a name
  not in use; the next unused name of each kind is threaded through.
\<close>

record gl_names =
  next_texture :: GLuint
  next_framebuffer :: GLuint

text \<open>
  What \<open>Resize\<close> takes from outside the class: the contents of freshly allocated
  arrays.
\<close>

record heap_contents =
  fresh_u8vec4 :: "nat \<Rightarrow> u8vec4"
  fresh_uvec4 :: "nat \<Rightarrow> uvec4"

subsection \<open>\<open>Resize\<close>\<close>

definition kSampleCount :: int where
  "kSampleCount = 4"

text \<open>Lines 164 to 187: the multisampled colour and depth textures and their framebuffer.\<close>

definition Resize_multisampled_FBO :: "Renderer \<times> gl_names \<Rightarrow> Renderer \<times> gl_names \<times> call list" where
  "Resize_multisampled_FBO = (\<lambda>(s, n).
     let color = next_texture n; depth = color + 1; fbo = next_framebuffer n in
     (s\<lparr>mBackbufferColorTOMS := color, mBackbufferDepthTOMS := depth, mBackbufferFBOMS := fbo\<rparr>,
      n\<lparr>next_texture := depth + 1, next_framebuffer := fbo + 1\<rparr>,
      [glDeleteTextures (mBackbufferColorTOMS s),
       glGenTextures color,
       glBindTexture GL_TEXTURE_2D_MULTISAMPLE color,
       glTexStorage2DMultisample GL_TEXTURE_2D_MULTISAMPLE kSampleCount GL_SRGB8_ALPHA8
         (mBackbufferWidth s) (mBackbufferHeight s) True,
       glBindTexture GL_TEXTURE_2D_MULTISAMPLE 0,
       glDeleteTextures (mBackbufferDepthTOMS s),
       glGenTextures depth,
       glBindTexture GL_TEXTURE_2D_MULTISAMPLE depth,
       glTexStorage2DMultisample GL_TEXTURE_2D_MULTISAMPLE kSampleCount GL_DEPTH_COMPONENT32F
         (mBackbufferWidth s) (mBackbufferHeight s) True,
       glBindTexture GL_TEXTURE_2D_MULTISAMPLE 0,
       glDeleteFramebuffers (mBackbufferFBOMS s),
       glGenFramebuffers fbo,
       glBindFramebuffer GL_FRAMEBUFFER fbo,
       glFramebufferTexture2D GL_FRAMEBUFFER GL_COLOR_ATTACHMENT0 GL_TEXTURE_2D_MULTISAMPLE color 0,
       glFramebufferTexture2D GL_FRAMEBUFFER GL_DEPTH_ATTACHMENT GL_TEXTURE_2D_MULTISAMPLE depth 0,
       glCheckFramebufferStatus GL_FRAMEBUFFER,
       glBindFramebuffer GL_FRAMEBUFFER 0]))"

text \<open>Lines 190 to 213: the single-sampled pair.\<close>

definition Resize_singlesampled_FBO :: "Renderer \<times> gl_names \<Rightarrow> Renderer \<times> gl_names \<times> call list" where
  "Resize_singlesampled_FBO = (\<lambda>(s, n).
     let color = next_texture n; depth = color + 1; fbo = next_framebuffer n in
     (s\<lparr>mBackbufferColorTOSS := color, mBackbufferDepthTOSS := depth, mBackbufferFBOSS := fbo\<rparr>,
      n\<lparr>next_texture := depth + 1, next_framebuffer := fbo + 1\<rparr>,
      [glDeleteTextures (mBackbufferColorTOSS s),
       glGenTextures color,
       glBindTexture GL_TEXTURE_2D color,
       glTexStorage2D GL_TEXTURE_2D 1 GL_SRGB8_ALPHA8 (mBackbufferWidth s) (mBackbufferHeight s),
       glBindTexture GL_TEXTURE_2D 0,
       glDeleteTextures (mBackbufferDepthTOSS s),
       glGenTextures depth,
       glBindTexture GL_TEXTURE_2D depth,
       glTexStorage2D GL_TEXTURE_2D 1 GL_DEPTH_COMPONENT32F (mBackbufferWidth s) (mBackbufferHeight s),
       glBindTexture GL_TEXTURE_2D 0,
       glDeleteFramebuffers (mBackbufferFBOSS s),
       glGenFramebuffers fbo,
       glBindFramebuffer GL_FRAMEBUFFER fbo,
       glFramebufferTexture2D GL_FRAMEBUFFER GL_COLOR_ATTACHMENT0 GL_TEXTURE_2D color 0,
       glFramebufferTexture2D GL_FRAMEBUFFER GL_DEPTH_ATTACHMENT GL_TEXTURE_2D depth 0,
       glCheckFramebufferStatus GL_FRAMEBUFFER,
       glBindFramebuffer GL_FRAMEBUFFER 0]))"

text \<open>
  Lines 217 and 218: \<open>(dim + SAT_WORKGROUP_SIZE_X - 1) & -SAT_WORKGROUP_SIZE_X\<close>. The macro
  \<open>SAT_WORKGROUP_SIZE_X\<close> of \<open>preamble.glsl\<close> is the parameter \<open>tile\<close>.
\<close>

definition round_up_to_workgroup :: "int \<Rightarrow> int \<Rightarrow> error + int" where
  "round_up_to_workgroup tile d =
     and_then (add_int d tile) (\<lambda>a.
     and_then (sub_int a 1) (\<lambda>b.
     and_then (neg_int tile) (\<lambda>m.
     Inr (b AND m))))"

text \<open>\<open>assert(dim / SAT_WORKGROUP_SIZE_X <= SAT_WORKGROUP_SIZE_X)\<close>, lines 222 and 223.\<close>

definition assert_single_workgroup :: "int \<Rightarrow> int \<Rightarrow> error + unit" where
  "assert_single_workgroup tile d =
     and_then (div_int d tile) (\<lambda>q.
     if q \<le> tile then Inr () else Inl AssertionFailed)"

text \<open>Lines 216 to 256: the table's size, the two host arrays and the four table textures.\<close>

definition Resize_summed_area_table ::
  "int \<Rightarrow> heap_contents \<Rightarrow> Renderer \<times> gl_names \<Rightarrow> error + (Renderer \<times> gl_names \<times> call list)" where
  "Resize_summed_area_table tile heap = (\<lambda>(s, n).
     and_then (round_up_to_workgroup tile (mBackbufferWidth s)) (\<lambda>satw.
     and_then (round_up_to_workgroup tile (mBackbufferHeight s)) (\<lambda>sath.
     and_then (assert_single_workgroup tile satw) (\<lambda>_.
     and_then (assert_single_workgroup tile sath) (\<lambda>_.
     and_then (mul_int (mBackbufferWidth s) (mBackbufferHeight s)) (\<lambda>npixels.
     and_then (new_array npixels (fresh_u8vec4 heap)) (\<lambda>readback.
     and_then (mul_int satw sath) (\<lambda>ntexels.
     and_then (new_array ntexels (fresh_uvec4 heap)) (\<lambda>table.
     and_then (div_int satw tile) (\<lambda>rows_wgsums_width.
     and_then (div_int sath tile) (\<lambda>cols_wgsums_width.
     let rows = next_texture n; rows_wgsums = rows + 1; cols = rows + 2; cols_wgsums = rows + 3 in
     Inr (s\<lparr>mSummedAreaTableWidth := satw, mSummedAreaTableHeight := sath,
             mCPUBackbufferReadback := readback, mCPUSummedAreaTable := table,
             mSummedRowsTO := rows, mSummedAreaTableTO := Some SummedRowsTO,
             mSummedRowsWGSumsTO := rows_wgsums, mSummedColsTO := cols,
             mSummedColsWGSumsTO := cols_wgsums\<rparr>,
          n\<lparr>next_texture := rows + 4\<rparr>,
          [glDeleteTextures (mSummedRowsTO s),
           glGenTextures rows,
           glBindTexture GL_TEXTURE_2D rows,
           glTexStorage2D GL_TEXTURE_2D 1 GL_RGBA32UI satw sath,
           glBindTexture GL_TEXTURE_2D 0,
           glDeleteTextures (mSummedRowsWGSumsTO s),
           glGenTextures rows_wgsums,
           glBindTexture GL_TEXTURE_2D rows_wgsums,
           glTexStorage2D GL_TEXTURE_2D 1 GL_RGBA32UI rows_wgsums_width sath,
           glBindTexture GL_TEXTURE_2D 0,
           glDeleteTextures (mSummedColsTO s),
           glGenTextures cols,
           glBindTexture GL_TEXTURE_2D cols,
           glTexStorage2D GL_TEXTURE_2D 1 GL_RGBA32UI sath satw,
           glBindTexture GL_TEXTURE_2D 0,
           glDeleteTextures (mSummedColsWGSumsTO s),
           glGenTextures cols_wgsums,
           glBindTexture GL_TEXTURE_2D cols_wgsums,
           glTexStorage2D GL_TEXTURE_2D 1 GL_RGBA32UI cols_wgsums_width satw,
           glBindTexture GL_TEXTURE_2D 0]))))))))))))"

definition Resize ::
  "int \<Rightarrow> heap_contents \<Rightarrow> int \<Rightarrow> int \<Rightarrow> Renderer \<times> gl_names
     \<Rightarrow> error + (Renderer \<times> gl_names \<times> call list)" where
  "Resize tile heap width height = (\<lambda>(s, n).
     let s0 = s\<lparr>mWindowWidth := width, mWindowHeight := height\<rparr>;
         s1 = s0\<lparr>mBackbufferWidth := mWindowWidth s0, mBackbufferHeight := mWindowHeight s0\<rparr>;
         (s2, n2, ms) = Resize_multisampled_FBO (s1, n);
         (s3, n3, ss) = Resize_singlesampled_FBO (s2, n2)
     in and_then (Resize_summed_area_table tile heap (s3, n3)) (\<lambda>(s4, n4, sat).
          Inr (s4, n4, glFinish # ms @ ss @ sat)))"

subsection \<open>Timestamps\<close>

text \<open>The enumerators of \<open>GPUTimestamps::Enum\<close> and \<open>CPUTimestamps::Enum\<close>, by value.\<close>

named_theorems stamp_defs

definition GPUTimestamps_RenderSceneStart :: nat where
  [stamp_defs]: "GPUTimestamps_RenderSceneStart = 0"

definition GPUTimestamps_RenderSceneEnd :: nat where
  [stamp_defs]: "GPUTimestamps_RenderSceneEnd = 1"

definition GPUTimestamps_MultisampleResolveStart :: nat where
  [stamp_defs]: "GPUTimestamps_MultisampleResolveStart = 2"

definition GPUTimestamps_MultisampleResolveEnd :: nat where
  [stamp_defs]: "GPUTimestamps_MultisampleResolveEnd = 3"

definition GPUTimestamps_ReadbackBackbufferStart :: nat where
  [stamp_defs]: "GPUTimestamps_ReadbackBackbufferStart = 4"

definition GPUTimestamps_ReadbackBackbufferEnd :: nat where
  [stamp_defs]: "GPUTimestamps_ReadbackBackbufferEnd = 5"

definition GPUTimestamps_ComputeSATStart :: nat where
  [stamp_defs]: "GPUTimestamps_ComputeSATStart = 6"

definition GPUTimestamps_ComputeSATEnd :: nat where
  [stamp_defs]: "GPUTimestamps_ComputeSATEnd = 7"

definition GPUTimestamps_SATUploadStart :: nat where
  [stamp_defs]: "GPUTimestamps_SATUploadStart = 8"

definition GPUTimestamps_SATUploadEnd :: nat where
  [stamp_defs]: "GPUTimestamps_SATUploadEnd = 9"

definition GPUTimestamps_DOFBlurStart :: nat where
  [stamp_defs]: "GPUTimestamps_DOFBlurStart = 10"

definition GPUTimestamps_DOFBlurEnd :: nat where
  [stamp_defs]: "GPUTimestamps_DOFBlurEnd = 11"

definition GPUTimestamps_RenderGUIStart :: nat where
  [stamp_defs]: "GPUTimestamps_RenderGUIStart = 12"

definition GPUTimestamps_RenderGUIEnd :: nat where
  [stamp_defs]: "GPUTimestamps_RenderGUIEnd = 13"

definition GPUTimestamps_BlitToWindowStart :: nat where
  [stamp_defs]: "GPUTimestamps_BlitToWindowStart = 14"

definition GPUTimestamps_BlitToWindowEnd :: nat where
  [stamp_defs]: "GPUTimestamps_BlitToWindowEnd = 15"

definition GPUTimestamps_Count :: nat where
  [stamp_defs]: "GPUTimestamps_Count = 16"

definition CPUTimestamps_ReadbackBackbufferStart :: nat where
  [stamp_defs]: "CPUTimestamps_ReadbackBackbufferStart = 0"

definition CPUTimestamps_ReadbackBackbufferEnd :: nat where
  [stamp_defs]: "CPUTimestamps_ReadbackBackbufferEnd = 1"

definition CPUTimestamps_ComputeSATStart :: nat where
  [stamp_defs]: "CPUTimestamps_ComputeSATStart = 2"

definition CPUTimestamps_ComputeSATEnd :: nat where
  [stamp_defs]: "CPUTimestamps_ComputeSATEnd = 3"

definition CPUTimestamps_SATUploadStart :: nat where
  [stamp_defs]: "CPUTimestamps_SATUploadStart = 4"

definition CPUTimestamps_SATUploadEnd :: nat where
  [stamp_defs]: "CPUTimestamps_SATUploadEnd = 5"

definition CPUTimestamps_Count :: nat where
  [stamp_defs]: "CPUTimestamps_Count = 6"

subsection \<open>\<open>UpdateGUI\<close>\<close>

text \<open>
  What the immediate-mode UI reports in one frame: whether each window is open, and the
  values its widgets leave in the three configuration members.
\<close>

record gui_input =
  profiling_window_open :: bool
  renderer_window_open :: bool
  checkbox_EnableDoF :: bool
  checkbox_CPU_SAT :: bool
  slider_FocusDepth :: real

text \<open>Lines 265 to 289: one iteration of the loop over the pairs of device timestamps.\<close>

definition UpdateGUI_GPU_time :: "Renderer \<Rightarrow> nat \<Rightarrow> call list" where
  "UpdateGUI_GPU_time s i =
     (let display = [glGetQueryObjectui64v (i * 2 + 0) GL_QUERY_RESULT,
                     glGetQueryObjectui64v (i * 2 + 1) GL_QUERY_RESULT,
                     ImGui_Text_GPU i]
      in if \<not> mUseCPUForSAT s
         then (if i * 2 = GPUTimestamps_ReadbackBackbufferStart \<or>
                  i * 2 = GPUTimestamps_SATUploadStart
               then [] else display)
         else (if i * 2 = GPUTimestamps_ComputeSATStart
               then [] else display))"

text \<open>Lines 296 to 312: one iteration of the loop over the pairs of wall-clock stamps.\<close>

definition UpdateGUI_CPU_time :: "Renderer \<Rightarrow> nat \<Rightarrow> call list" where
  "UpdateGUI_CPU_time s i =
     (if \<not> mUseCPUForSAT s
      then (if i * 2 = CPUTimestamps_ReadbackBackbufferStart \<or>
               i * 2 = CPUTimestamps_ComputeSATStart \<or>
               i * 2 = CPUTimestamps_SATUploadStart
            then [] else [ImGui_Text_CPU i])
      else [ImGui_Text_CPU i])"

definition UpdateGUI :: "gui_input \<Rightarrow> Renderer \<Rightarrow> Renderer \<times> call list" where
  "UpdateGUI gui s =
     (let profiling =
            (if profiling_window_open gui \<and> \<not> mFirstFrame s
             then concat (map (UpdateGUI_GPU_time s) [0..<GPUTimestamps_Count div 2]) @
                  concat (map (UpdateGUI_CPU_time s) [0..<CPUTimestamps_Count div 2])
             else []);
          s' = (if renderer_window_open gui
                then s\<lparr>mEnableDoF := checkbox_EnableDoF gui,
                       mUseCPUForSAT := checkbox_CPU_SAT gui,
                       mFocusDepth := slider_FocusDepth gui\<rparr>
                else s)
      in (s', profiling))"

subsection \<open>\<open>Paint\<close>: what a frame takes from outside the class\<close>

text \<open>
  The program handles are what the pointers \<open>mSceneSP\<close>, ... point to after
  \<open>mShaders.UpdatePrograms()\<close> (zero: not compiled). \<open>backbuffer_pixels\<close> is what
  \<open>glReadPixels\<close> delivers, in row-major order. \<open>gamma_float c\<close> is the value of the
  float expression \<open>pow(c / 255.0f, 2.2f) * 255.0f\<close> for a channel \<open>c\<close>; floating-point
  arithmetic is not modelled, so the function is a parameter.
\<close>

record frame_input =
  gui :: gui_input
  SceneSP :: GLuint
  SummedAreaTableUpsweepSP :: GLuint
  SummedAreaTableDownsweepSP :: GLuint
  TransposeSummedAreaTableSP :: GLuint
  DepthOfFieldSP :: GLuint
  backbuffer_pixels :: "nat \<Rightarrow> u8vec4"
  gamma_float :: "nat \<Rightarrow> real"
  camera_ZNear :: real

text \<open>The macros of \<open>preamble.glsl\<close> the renderer uses as numbers.\<close>

record preamble =
  SAT_WORKGROUP_SIZE_X :: int
  TRANSPOSE_SAT_WORKGROUP_SIZE_X :: int

subsection \<open>Arrays, loops and the gamma decode of the host path\<close>

definition rd :: "'a list \<Rightarrow> int \<Rightarrow> error + 'a" where
  "rd xs i = (if 0 \<le> i \<and> i < int (length xs) then Inr (xs ! nat i) else Inl OutOfBounds)"

definition wr :: "'a list \<Rightarrow> int \<Rightarrow> 'a \<Rightarrow> error + 'a list" where
  "wr xs i v = (if 0 \<le> i \<and> i < int (length xs) then Inr (xs[nat i := v]) else Inl OutOfBounds)"

text \<open>The subscript \<open>row * stride + col\<close>, computed in \<open>int\<close>.\<close>

definition subscript :: "nat \<Rightarrow> int \<Rightarrow> nat \<Rightarrow> error + int" where
  "subscript row stride col = and_then (mul_int (int row) stride) (\<lambda>p. add_int p (int col))"

text \<open>\<open>for (int i = first; i < bound; i++)\<close> runs its body for the members of a list, in order.\<close>

fun for_loop :: "nat list \<Rightarrow> (nat \<Rightarrow> 's \<Rightarrow> error + 's) \<Rightarrow> 's \<Rightarrow> error + 's" where
  "for_loop [] body s = Inr s"
| "for_loop (i # is) body s = and_then (body i s) (for_loop is body)"

text \<open>Conversion of a float to \<open>unsigned\<close> drops the fraction.\<close>

definition float_to_uint :: "real \<Rightarrow> error + 32 word" where
  "float_to_uint x =
     (let t = (if 0 \<le> x then \<lfloor>x\<rfloor> else \<lceil>x\<rceil>)
      in if 0 \<le> t \<and> t < 2 ^ 32 then Inr (word_of_int t) else Inl FloatToUintOutOfRange)"

text \<open>
  \<open>glm::uvec4(pow(glm::vec4(glm::uvec4(p)) / 255.0f, glm::vec4(2.2f)) * 255.0f)\<close>, lines
  471, 472, 477 and 478.
\<close>

definition gamma_decode :: "(nat \<Rightarrow> real) \<Rightarrow> u8vec4 \<Rightarrow> error + uvec4" where
  "gamma_decode g p =
     and_then (float_to_uint (g (unat (r8 p)))) (\<lambda>x.
     and_then (float_to_uint (g (unat (g8 p)))) (\<lambda>y.
     and_then (float_to_uint (g (unat (b8 p)))) (\<lambda>z.
     and_then (float_to_uint (g (unat (a8 p)))) (\<lambda>w.
     Inr (UVec4 x y z w)))))"

text \<open>
  \<open>glReadPixels\<close> stores \<open>width * height\<close> pixels from the start of the array; a negative
  size is an OpenGL error that stores nothing.
\<close>

definition read_pixels :: "int \<Rightarrow> int \<Rightarrow> (nat \<Rightarrow> u8vec4) \<Rightarrow> u8vec4 list \<Rightarrow> error + u8vec4 list" where
  "read_pixels width height pixels a =
     (if width < 0 \<or> height < 0 then Inr a
      else if nat (width * height) \<le> length a
      then Inr (map pixels [0..<nat (width * height)] @ drop (nat (width * height)) a)
      else Inl OutOfBounds)"

text \<open>The \<open>count\<close> elements \<open>glTexSubImage2D\<close> reads from \<open>&a[first]\<close>.\<close>

definition elements_from :: "'a list \<Rightarrow> int \<Rightarrow> int \<Rightarrow> error + 'a list" where
  "elements_from a first count =
     (if count \<le> 0 then Inr []
      else if 0 \<le> first \<and> first + count \<le> int (length a)
      then Inr (take (nat count) (drop (nat first) a))
      else Inl OutOfBounds)"

subsection \<open>\<open>Paint\<close>: the host path of the summed-area table\<close>

text \<open>Lines 469 to 481: sum the rows.\<close>

definition Paint_CPU_sum_rows :: "(nat \<Rightarrow> real) \<Rightarrow> Renderer \<Rightarrow> error + uvec4 list" where
  "Paint_CPU_sum_rows g s =
     for_loop [0..<nat (mBackbufferHeight s)] (\<lambda>row t.
       and_then (subscript row (mBackbufferWidth s) 0) (\<lambda>i0.
       and_then (rd (mCPUBackbufferReadback s) i0) (\<lambda>p0.
       and_then (gamma_decode g p0) (\<lambda>first.
       and_then (subscript row (mSummedAreaTableWidth s) 0) (\<lambda>j0.
       and_then (wr t j0 first) (\<lambda>t0.
       for_loop [1..<nat (mBackbufferWidth s)] (\<lambda>col t.
         and_then (subscript row (mBackbufferWidth s) col) (\<lambda>i.
         and_then (rd (mCPUBackbufferReadback s) i) (\<lambda>p.
         and_then (gamma_decode g p) (\<lambda>readback.
         and_then (subscript row (mSummedAreaTableWidth s) (col - 1)) (\<lambda>jprev.
         and_then (rd t jprev) (\<lambda>prev.
         and_then (subscript row (mSummedAreaTableWidth s) col) (\<lambda>j.
         wr t j (readback + prev)))))))) t0))))))
     (mCPUSummedAreaTable s)"

text \<open>Lines 484 to 490: sum the columns, in place.\<close>

definition Paint_CPU_sum_cols :: "Renderer \<Rightarrow> uvec4 list \<Rightarrow> error + uvec4 list" where
  "Paint_CPU_sum_cols s =
     for_loop [0..<nat (mBackbufferWidth s)] (\<lambda>col.
       for_loop [1..<nat (mBackbufferHeight s)] (\<lambda>row t.
         and_then (subscript (row - 1) (mSummedAreaTableWidth s) col) (\<lambda>jabove.
         and_then (rd t jabove) (\<lambda>above.
         and_then (subscript row (mSummedAreaTableWidth s) col) (\<lambda>j.
         and_then (rd t j) (\<lambda>here.
         wr t j (here + above)))))))"

text \<open>\<open>*mSummedAreaTableTO\<close>.\<close>

definition deref_mSummedAreaTableTO :: "Renderer \<Rightarrow> error + GLuint" where
  "deref_mSummedAreaTableTO s =
     (case mSummedAreaTableTO s of
        None \<Rightarrow> Inl NullDereference
      | Some SummedRowsTO \<Rightarrow> Inr (mSummedRowsTO s)
      | Some SummedColsTO \<Rightarrow> Inr (mSummedColsTO s))"

text \<open>Lines 498 to 501: one \<open>glTexSubImage2D\<close> per row of the image.\<close>

fun Paint_CPU_upload_rows :: "Renderer \<Rightarrow> nat list \<Rightarrow> error + call list" where
  "Paint_CPU_upload_rows s [] = Inr []"
| "Paint_CPU_upload_rows s (row # rows) =
     and_then (subscript row (mSummedAreaTableWidth s) 0) (\<lambda>j.
     and_then (elements_from (mCPUSummedAreaTable s) j (mBackbufferWidth s)) (\<lambda>texels.
     and_then (Paint_CPU_upload_rows s rows) (\<lambda>calls.
     Inr (glTexSubImage2D GL_TEXTURE_2D 0 0 (int row) (mBackbufferWidth s) 1
            GL_RGBA_INTEGER GL_UNSIGNED_INT texels # calls))))"

text \<open>Lines 453 to 505.\<close>

definition Paint_CPU_SAT :: "frame_input \<Rightarrow> Renderer \<Rightarrow> error + (Renderer \<times> call list)" where
  "Paint_CPU_SAT inp s =
     and_then (read_pixels (mBackbufferWidth s) (mBackbufferHeight s) (backbuffer_pixels inp)
                 (mCPUBackbufferReadback s)) (\<lambda>readback.
     let s1 = s\<lparr>mCPUBackbufferReadback := readback\<rparr> in
     and_then (Paint_CPU_sum_rows (gamma_float inp) s1) (\<lambda>rows.
     and_then (Paint_CPU_sum_cols s1 rows) (\<lambda>table.
     let s2 = s1\<lparr>mCPUSummedAreaTable := table\<rparr> in
     and_then (deref_mSummedAreaTableTO s2) (\<lambda>sat.
     and_then (Paint_CPU_upload_rows s2 [0..<nat (mBackbufferHeight s2)]) (\<lambda>upload.
     Inr (s2,
       [QueryPerformanceCounter CPUTimestamps_ReadbackBackbufferStart,
        glQueryCounter GPUTimestamps_ReadbackBackbufferStart GL_TIMESTAMP,
        glBindFramebuffer GL_READ_FRAMEBUFFER (mBackbufferFBOSS s),
        glReadPixels 0 0 (mBackbufferWidth s) (mBackbufferHeight s) GL_RGBA GL_UNSIGNED_BYTE,
        glBindFramebuffer GL_READ_FRAMEBUFFER 0,
        glQueryCounter GPUTimestamps_ReadbackBackbufferEnd GL_TIMESTAMP,
        QueryPerformanceCounter CPUTimestamps_ReadbackBackbufferEnd,
        QueryPerformanceCounter CPUTimestamps_ComputeSATStart,
        QueryPerformanceCounter CPUTimestamps_ComputeSATEnd,
        QueryPerformanceCounter CPUTimestamps_SATUploadStart,
        glQueryCounter GPUTimestamps_SATUploadStart GL_TIMESTAMP,
        glBindTexture GL_TEXTURE_2D sat] @
       upload @
       [glBindTexture GL_TEXTURE_2D 0,
        glQueryCounter GPUTimestamps_SATUploadEnd GL_TIMESTAMP,
        QueryPerformanceCounter CPUTimestamps_SATUploadEnd]))))))"

subsection \<open>\<open>Paint\<close>: the device path of the summed-area table\<close>

datatype SATPass = SATPass_Rows | SATPass_Cols

text \<open>Lines 522 to 550: up-sweep.\<close>

definition Paint_GPU_upsweep :: "preamble \<Rightarrow> frame_input \<Rightarrow> Renderer \<Rightarrow> SATPass \<Rightarrow> error + call list" where
  "Paint_GPU_upsweep P inp s pass =
     and_then
       (case pass of
          SATPass_Rows \<Rightarrow>
            and_then (div_int (mSummedAreaTableWidth s) (SAT_WORKGROUP_SIZE_X P)) (\<lambda>groups.
            Inr [glDispatchCompute groups (mBackbufferHeight s) 1])
        | SATPass_Cols \<Rightarrow>
            and_then (div_int (mSummedAreaTableHeight s) (SAT_WORKGROUP_SIZE_X P)) (\<lambda>groups.
            Inr [glDispatchCompute groups (mBackbufferWidth s) 1]))
       (\<lambda>dispatch.
     Inr ([glUseProgram (SummedAreaTableUpsweepSP inp),
           glMemoryBarrier {GL_SHADER_IMAGE_ACCESS_BARRIER_BIT, GL_TEXTURE_FETCH_BARRIER_BIT}] @
          (case pass of
             SATPass_Rows \<Rightarrow>
               [glBindTextures SAT_INPUT_TEXTURE_BINDING (Some (mBackbufferColorTOSS s)),
                glBindImageTexture SAT_OUTPUT_IMAGE_BINDING (mSummedRowsTO s) GL_WRITE_ONLY GL_RGBA32UI,
                glUniform1i SAT_READ_UINT_INPUT_UNIFORM_LOCATION 0]
           | SATPass_Cols \<Rightarrow>
               [glBindTextures SAT_UINT_INPUT_TEXTURE_BINDING (Some (mSummedColsTO s)),
                glBindImageTexture SAT_OUTPUT_IMAGE_BINDING (mSummedColsTO s) GL_WRITE_ONLY GL_RGBA32UI,
                glUniform1i SAT_READ_UINT_INPUT_UNIFORM_LOCATION 1]) @
          [glUniform1i SAT_READ_WGSUM_UNIFORM_LOCATION 0] @
          dispatch @
          [glBindTextures SAT_INPUT_TEXTURE_BINDING None,
           glBindImageTextures SAT_OUTPUT_IMAGE_BINDING,
           glUseProgram 0]))"

text \<open>Lines 553 to 580: up-sweep of the workgroup sums.\<close>

definition Paint_GPU_upsweep_wgsums :: "frame_input \<Rightarrow> Renderer \<Rightarrow> SATPass \<Rightarrow> call list" where
  "Paint_GPU_upsweep_wgsums inp s pass =
     [glUseProgram (SummedAreaTableUpsweepSP inp),
      glMemoryBarrier {GL_SHADER_IMAGE_ACCESS_BARRIER_BIT, GL_TEXTURE_FETCH_BARRIER_BIT}] @
     (case pass of
        SATPass_Rows \<Rightarrow>
          [glBindTextures SAT_UINT_INPUT_TEXTURE_BINDING (Some (mSummedRowsTO s)),
           glBindImageTexture SAT_OUTPUT_IMAGE_BINDING (mSummedRowsWGSumsTO s) GL_WRITE_ONLY GL_RGBA32UI]
      | SATPass_Cols \<Rightarrow>
          [glBindTextures SAT_UINT_INPUT_TEXTURE_BINDING (Some (mSummedColsTO s)),
           glBindImageTexture SAT_OUTPUT_IMAGE_BINDING (mSummedColsWGSumsTO s) GL_WRITE_ONLY GL_RGBA32UI]) @
     [glUniform1i SAT_READ_UINT_INPUT_UNIFORM_LOCATION 0,
      glUniform1i SAT_READ_WGSUM_UNIFORM_LOCATION 1] @
     (case pass of
        SATPass_Rows \<Rightarrow> [glDispatchCompute 1 (mBackbufferHeight s) 1]
      | SATPass_Cols \<Rightarrow> [glDispatchCompute 1 (mBackbufferWidth s) 1]) @
     [glBindTextures SAT_UINT_INPUT_TEXTURE_BINDING None,
      glBindImageTextures SAT_OUTPUT_IMAGE_BINDING,
      glUseProgram 0]"

text \<open>Lines 583 to 606: down-sweep of the workgroup sums.\<close>

definition Paint_GPU_downsweep_wgsums :: "frame_input \<Rightarrow> Renderer \<Rightarrow> SATPass \<Rightarrow> call list" where
  "Paint_GPU_downsweep_wgsums inp s pass =
     [glUseProgram (SummedAreaTableDownsweepSP inp),
      glMemoryBarrier {GL_SHADER_IMAGE_ACCESS_BARRIER_BIT}] @
     (case pass of
        SATPass_Rows \<Rightarrow>
          [glBindImageTexture SAT_OUTPUT_IMAGE_BINDING (mSummedRowsWGSumsTO s) GL_READ_WRITE GL_RGBA32UI]
      | SATPass_Cols \<Rightarrow>
          [glBindImageTexture SAT_OUTPUT_IMAGE_BINDING (mSummedColsWGSumsTO s) GL_READ_WRITE GL_RGBA32UI]) @
     [glUniform1i SAT_ADD_WGSUM_UNIFORM_LOCATION 0] @
     (case pass of
        SATPass_Rows \<Rightarrow> [glDispatchCompute 1 (mBackbufferHeight s) 1]
      | SATPass_Cols \<Rightarrow> [glDispatchCompute 1 (mBackbufferWidth s) 1]) @
     [glBindImageTextures SAT_OUTPUT_IMAGE_BINDING,
      glUseProgram 0]"

text \<open>Lines 609 to 635: down-sweep.\<close>

definition Paint_GPU_downsweep :: "preamble \<Rightarrow> frame_input \<Rightarrow> Renderer \<Rightarrow> SATPass \<Rightarrow> error + call list" where
  "Paint_GPU_downsweep P inp s pass =
     and_then
       (case pass of
          SATPass_Rows \<Rightarrow>
            and_then (div_int (mSummedAreaTableWidth s) (SAT_WORKGROUP_SIZE_X P)) (\<lambda>groups.
            Inr [glDispatchCompute groups (mBackbufferHeight s) 1])
        | SATPass_Cols \<Rightarrow>
            and_then (div_int (mSummedAreaTableHeight s) (SAT_WORKGROUP_SIZE_X P)) (\<lambda>groups.
            Inr [glDispatchCompute groups (mBackbufferWidth s) 1]))
       (\<lambda>dispatch.
     Inr ([glUseProgram (SummedAreaTableDownsweepSP inp),
           glMemoryBarrier {GL_SHADER_IMAGE_ACCESS_BARRIER_BIT}] @
          (case pass of
             SATPass_Rows \<Rightarrow>
               [glBindImageTexture SAT_OUTPUT_IMAGE_BINDING (mSummedRowsTO s) GL_READ_WRITE GL_RGBA32UI,
                glBindImageTexture SAT_WGSUMS_IMAGE_BINDING (mSummedRowsWGSumsTO s) GL_READ_ONLY GL_RGBA32UI]
           | SATPass_Cols \<Rightarrow>
               [glBindImageTexture SAT_OUTPUT_IMAGE_BINDING (mSummedColsTO s) GL_READ_WRITE GL_RGBA32UI,
                glBindImageTexture SAT_WGSUMS_IMAGE_BINDING (mSummedColsWGSumsTO s) GL_READ_ONLY GL_RGBA32UI]) @
          [glUniform1i SAT_ADD_WGSUM_UNIFORM_LOCATION 1] @
          dispatch @
          [glBindImageTextures SAT_OUTPUT_IMAGE_BINDING,
           glBindImageTextures SAT_WGSUMS_IMAGE_BINDING,
           glUseProgram 0]))"

text \<open>Lines 638 to 662: transpose.\<close>

definition Paint_GPU_transpose :: "preamble \<Rightarrow> frame_input \<Rightarrow> Renderer \<Rightarrow> SATPass \<Rightarrow> error + call list" where
  "Paint_GPU_transpose P inp s pass =
     and_then
       (case pass of
          SATPass_Rows \<Rightarrow>
            Inr [glBindImageTexture TRANSPOSE_SAT_INPUT_IMAGE_BINDING (mSummedRowsTO s) GL_READ_ONLY GL_RGBA32UI,
                 glBindImageTexture TRANSPOSE_SAT_OUTPUT_IMAGE_BINDING (mSummedColsTO s) GL_WRITE_ONLY GL_RGBA32UI]
        | SATPass_Cols \<Rightarrow>
            and_then (deref_mSummedAreaTableTO s) (\<lambda>sat.
            Inr [glBindImageTexture TRANSPOSE_SAT_INPUT_IMAGE_BINDING (mSummedColsTO s) GL_READ_ONLY GL_RGBA32UI,
                 glBindImageTexture TRANSPOSE_SAT_OUTPUT_IMAGE_BINDING sat GL_WRITE_ONLY GL_RGBA32UI]))
       (\<lambda>bind.
     and_then (div_int (mSummedAreaTableWidth s) (TRANSPOSE_SAT_WORKGROUP_SIZE_X P)) (\<lambda>across.
     and_then (div_int (mSummedAreaTableHeight s) (TRANSPOSE_SAT_WORKGROUP_SIZE_X P)) (\<lambda>down.
     Inr ([glUseProgram (TransposeSummedAreaTableSP inp),
           glMemoryBarrier {GL_SHADER_IMAGE_ACCESS_BARRIER_BIT}] @
          bind @
          (case pass of
             SATPass_Rows \<Rightarrow> [glDispatchCompute across down 1]
           | SATPass_Cols \<Rightarrow> [glDispatchCompute down across 1]) @
          [glBindImageTextures TRANSPOSE_SAT_INPUT_IMAGE_BINDING,
           glBindImageTextures TRANSPOSE_SAT_OUTPUT_IMAGE_BINDING,
           glUseProgram 0]))))"

text \<open>The body of the loop over the passes, lines 519 to 663.\<close>

definition Paint_GPU_pass :: "preamble \<Rightarrow> frame_input \<Rightarrow> Renderer \<Rightarrow> SATPass \<Rightarrow> error + call list" where
  "Paint_GPU_pass P inp s pass =
     and_then (Paint_GPU_upsweep P inp s pass) (\<lambda>step1.
     and_then (Paint_GPU_downsweep P inp s pass) (\<lambda>step4.
     and_then (Paint_GPU_transpose P inp s pass) (\<lambda>step5.
     Inr (step1 @ Paint_GPU_upsweep_wgsums inp s pass @ Paint_GPU_downsweep_wgsums inp s pass @
          step4 @ step5))))"

text \<open>Lines 509 to 665.\<close>

definition Paint_GPU_SAT :: "preamble \<Rightarrow> frame_input \<Rightarrow> Renderer \<Rightarrow> error + call list" where
  "Paint_GPU_SAT P inp s =
     and_then
       (if SummedAreaTableUpsweepSP inp \<noteq> 0 \<and> SummedAreaTableDownsweepSP inp \<noteq> 0 \<and>
           TransposeSummedAreaTableSP inp \<noteq> 0
        then and_then (Paint_GPU_pass P inp s SATPass_Rows) (\<lambda>rows.
             and_then (Paint_GPU_pass P inp s SATPass_Cols) (\<lambda>cols.
             Inr (rows @ cols)))
        else Inr [])
       (\<lambda>passes.
     Inr ([glQueryCounter GPUTimestamps_ComputeSATStart GL_TIMESTAMP] @
          passes @
          [glQueryCounter GPUTimestamps_ComputeSATEnd GL_TIMESTAMP]))"

subsection \<open>\<open>Paint\<close>: the other stages and the frame\<close>

text \<open>Lines 333 to 433.\<close>

definition Paint_render_scene :: "frame_input \<Rightarrow> Renderer \<Rightarrow> call list" where
  "Paint_render_scene inp s =
     [glQueryCounter GPUTimestamps_RenderSceneStart GL_TIMESTAMP] @
     (if SceneSP inp \<noteq> 0
      then [glBindFramebuffer GL_FRAMEBUFFER (mBackbufferFBOMS s),
            glViewport 0 0 (mBackbufferWidth s) (mBackbufferHeight s),
            glClearColor (100 / 255) (149 / 255) (237 / 255) 1,
            glClearDepth 0,
            glClear {GL_COLOR_BUFFER_BIT, GL_DEPTH_BUFFER_BIT},
            glUseProgram (SceneSP inp),
            SceneDrawCalls,
            glUseProgram 0,
            glBindFramebuffer GL_FRAMEBUFFER 0]
      else []) @
     [glQueryCounter GPUTimestamps_RenderSceneEnd GL_TIMESTAMP]"

text \<open>Lines 436 to 446.\<close>

definition Paint_multisample_resolve :: "Renderer \<Rightarrow> call list" where
  "Paint_multisample_resolve s =
     [glQueryCounter GPUTimestamps_MultisampleResolveStart GL_TIMESTAMP,
      glBindFramebuffer GL_READ_FRAMEBUFFER (mBackbufferFBOMS s),
      glBindFramebuffer GL_DRAW_FRAMEBUFFER (mBackbufferFBOSS s),
      glBlitFramebuffer 0 0 (mBackbufferWidth s) (mBackbufferHeight s)
        0 0 (mBackbufferWidth s) (mBackbufferHeight s)
        {GL_COLOR_BUFFER_BIT, GL_DEPTH_BUFFER_BIT} GL_NEAREST,
      glBindFramebuffer GL_FRAMEBUFFER 0,
      glQueryCounter GPUTimestamps_MultisampleResolveEnd GL_TIMESTAMP]"

text \<open>Lines 669 to 696.\<close>

definition Paint_DoF_blur :: "frame_input \<Rightarrow> Renderer \<Rightarrow> error + call list" where
  "Paint_DoF_blur inp s =
     and_then
       (if DepthOfFieldSP inp \<noteq> 0
        then and_then (deref_mSummedAreaTableTO s) (\<lambda>sat.
             Inr [glMemoryBarrier {GL_TEXTURE_FETCH_BARRIER_BIT},
                  glBindFramebuffer GL_FRAMEBUFFER (mBackbufferFBOSS s),
                  glUseProgram (DepthOfFieldSP inp),
                  glBindVertexArray (mNullVAO s),
                  glBindTextures DOF_SAT_TEXTURE_BINDING (Some sat),
                  glBindTextures DOF_DEPTH_TEXTURE_BINDING (Some (mBackbufferDepthTOSS s)),
                  glEnable GL_FRAMEBUFFER_SRGB,
                  glUniform1f DOF_ZNEAR_UNIFORM_LOCATION (camera_ZNear inp),
                  glUniform1f DOF_FOCUS_UNIFORM_LOCATION (mFocusDepth s),
                  glDrawArrays GL_TRIANGLES 0 3,
                  glDisable GL_FRAMEBUFFER_SRGB,
                  glBindTextures DOF_SAT_TEXTURE_BINDING None,
                  glBindTextures DOF_DEPTH_TEXTURE_BINDING None,
                  glBindVertexArray 0,
                  glUseProgram 0,
                  glBindFramebuffer GL_FRAMEBUFFER 0])
        else Inr [])
       (\<lambda>blur.
     Inr ([glQueryCounter GPUTimestamps_DOFBlurStart GL_TIMESTAMP] @
          blur @
          [glQueryCounter GPUTimestamps_DOFBlurEnd GL_TIMESTAMP]))"

text \<open>Lines 448 to 698: the part of the frame under \<open>if (mEnableDoF)\<close>.\<close>

definition Paint_DoF :: "preamble \<Rightarrow> frame_input \<Rightarrow> Renderer \<Rightarrow> error + (Renderer \<times> call list)" where
  "Paint_DoF P inp s =
     (if mEnableDoF s
      then and_then
             (if mUseCPUForSAT s then Paint_CPU_SAT inp s
              else and_then (Paint_GPU_SAT P inp s) (\<lambda>calls. Inr (s, calls)))
             (\<lambda>(s', sat).
           and_then (Paint_DoF_blur inp s') (\<lambda>blur.
           Inr (s', sat @ blur)))
      else Inr (s, []))"

text \<open>Lines 701 to 707.\<close>

definition Paint_render_GUI :: "Renderer \<Rightarrow> call list" where
  "Paint_render_GUI s =
     [glQueryCounter GPUTimestamps_RenderGUIStart GL_TIMESTAMP,
      glBindFramebuffer GL_FRAMEBUFFER (mBackbufferFBOSS s),
      ImGui_Render,
      glBindFramebuffer GL_FRAMEBUFFER 0,
      glQueryCounter GPUTimestamps_RenderGUIEnd GL_TIMESTAMP]"

text \<open>Lines 710 to 723.\<close>

definition Paint_blit_to_window :: "Renderer \<Rightarrow> call list" where
  "Paint_blit_to_window s =
     (let scaled = (mWindowWidth s \<noteq> mBackbufferWidth s \<or> mWindowHeight s \<noteq> mBackbufferHeight s)
      in [glQueryCounter GPUTimestamps_BlitToWindowStart GL_TIMESTAMP,
          glBindFramebuffer GL_READ_FRAMEBUFFER (mBackbufferFBOSS s),
          glBindFramebuffer GL_DRAW_FRAMEBUFFER 0,
          glBlitFramebuffer 0 0 (mBackbufferWidth s) (mBackbufferHeight s)
            0 0 (mWindowWidth s) (mWindowHeight s)
            {GL_COLOR_BUFFER_BIT} (if scaled then GL_LINEAR else GL_NEAREST),
          glBindFramebuffer GL_FRAMEBUFFER 0,
          glQueryCounter GPUTimestamps_BlitToWindowEnd GL_TIMESTAMP])"

definition Paint :: "preamble \<Rightarrow> frame_input \<Rightarrow> Renderer \<Rightarrow> error + (Renderer \<times> call list)" where
  "Paint P inp s =
     (let (s1, gui_calls) = UpdateGUI (gui inp) s in
      and_then (Paint_DoF P inp s1) (\<lambda>(s2, dof).
      Inr (s2\<lparr>mFirstFrame := False\<rparr>,
           gui_calls @
           Paint_render_scene inp s1 @
           Paint_multisample_resolve s1 @
           dof @
           Paint_render_GUI s2 @
           Paint_blit_to_window s2)))"

text \<open>\<open>Init\<close>, lines 126 to 149, as far as it sets members the frame reads.\<close>

definition Init :: "GLuint \<Rightarrow> Renderer \<Rightarrow> Renderer" where
  "Init vao s = s\<lparr>mFirstFrame := True, mNullVAO := vao, mEnableDoF := True, mFocusDepth := 5\<rparr>"

subsection \<open>What the claims observe\<close>

text \<open>The size a storage call gives a texture: internal format, width and height.\<close>

definition storage_of :: "call \<Rightarrow> (GLenum \<times> int \<times> int) list" where
  "storage_of c =
     (case c of
        glTexStorage2D target levels format w h \<Rightarrow> [(format, w, h)]
      | glTexStorage2DMultisample target samples format w h fixed \<Rightarrow> [(format, w, h)]
      | _ \<Rightarrow> [])"

text \<open>
  The dimensions of every buffer \<open>Resize\<close> leaves behind: back buffer, table, the lengths
  of the two host arrays, and the texture storages in the order they were requested.
\<close>

definition buffer_dimensions ::
  "Renderer \<times> gl_names \<times> call list \<Rightarrow>
     (int \<times> int) \<times> (int \<times> int) \<times> nat \<times> nat \<times> (GLenum \<times> int \<times> int) list" where
  "buffer_dimensions = (\<lambda>(s, n, calls).
     ((mBackbufferWidth s, mBackbufferHeight s),
      (mSummedAreaTableWidth s, mSummedAreaTableHeight s),
      length (mCPUBackbufferReadback s),
      length (mCPUSummedAreaTable s),
      concat (map storage_of calls)))"

definition dimensions_for :: "int \<Rightarrow> int \<Rightarrow> int \<Rightarrow>
     error + ((int \<times> int) \<times> (int \<times> int) \<times> nat \<times> nat \<times> (GLenum \<times> int \<times> int) list)" where
  "dimensions_for tile width height =
     and_then (round_up_to_workgroup tile width) (\<lambda>satw.
     and_then (round_up_to_workgroup tile height) (\<lambda>sath.
     and_then (div_int satw tile) (\<lambda>qw.
     and_then (div_int sath tile) (\<lambda>qh.
     Inr ((width, height), (satw, sath), nat (width * height), nat (satw * sath),
          [(GL_SRGB8_ALPHA8, width, height), (GL_DEPTH_COMPONENT32F, width, height),
           (GL_SRGB8_ALPHA8, width, height), (GL_DEPTH_COMPONENT32F, width, height),
           (GL_RGBA32UI, satw, sath), (GL_RGBA32UI, qw, sath),
           (GL_RGBA32UI, sath, satw), (GL_RGBA32UI, qh, satw)])))))"

text \<open>The next multiple of \<open>t\<close>.\<close>

definition pad :: "int \<Rightarrow> int \<Rightarrow> int" where
  "pad t w = ((w + t - 1) div t) * t"

text \<open>A heap whose fresh arrays hold zeros, and the first names OpenGL hands out.\<close>

definition zero_heap :: heap_contents where
  "zero_heap = \<lparr>fresh_u8vec4 = (\<lambda>_. U8Vec4 0 0 0 0), fresh_uvec4 = (\<lambda>_. 0)\<rparr>"

definition first_names :: gl_names where
  "first_names = \<lparr>next_texture = 1, next_framebuffer = 1\<rparr>"

text \<open>The filter of a framebuffer blit.\<close>

definition blit_filter_of :: "call \<Rightarrow> GLenum list" where
  "blit_filter_of c =
     (case c of
        glBlitFramebuffer sx0 sy0 sx1 sy1 dx0 dy0 dx1 dy1 bits how \<Rightarrow> [how]
      | _ \<Rightarrow> [])"

definition blit_filters :: "call list \<Rightarrow> GLenum list" where
  "blit_filters calls = concat (map blit_filter_of calls)"

text \<open>
  The states a renderer can be in: created by \<open>NewRenderer\<close>, then any sequence of \<open>Init\<close>,
  \<open>Resize\<close> and \<open>Paint\<close> calls that return.
\<close>

inductive reachable :: "preamble \<Rightarrow> Renderer \<Rightarrow> bool" for P :: preamble where
  reachable_new: "reachable P NewRenderer"
| reachable_Init: "reachable P s \<Longrightarrow> reachable P (Init vao s)"
| reachable_Resize:
    "reachable P s \<Longrightarrow>
     Resize (SAT_WORKGROUP_SIZE_X P) heap width height (s, n) = Inr (s', n', calls) \<Longrightarrow>
     reachable P s'"
| reachable_Paint: "reachable P s \<Longrightarrow> Paint P inp s = Inr (s', calls) \<Longrightarrow> reachable P s'"

text \<open>The back buffer has the size of the window.\<close>

definition unscaled :: "Renderer \<Rightarrow> bool" where
  "unscaled s \<longleftrightarrow> mWindowWidth s = mBackbufferWidth s \<and> mWindowHeight s = mBackbufferHeight s"

text \<open>The calls that make the device draw or compute.\<close>

definition work_of :: "call \<Rightarrow> call list" where
  "work_of c =
     (case c of
        SceneDrawCalls \<Rightarrow> [c]
      | glDispatchCompute x y z \<Rightarrow> [c]
      | glDrawArrays how first count \<Rightarrow> [c]
      | _ \<Rightarrow> [])"

definition gpu_work :: "call list \<Rightarrow> call list" where
  "gpu_work calls = concat (map work_of calls)"

text \<open>A frame input that differs from \<open>inp\<close> at most in program handles that are zero.\<close>

definition programs_missing :: "frame_input \<Rightarrow> frame_input \<Rightarrow> bool" where
  "programs_missing inp inp' \<longleftrightarrow>
     (\<exists>sc up dn tr df.
        inp' = inp\<lparr>SceneSP := sc, SummedAreaTableUpsweepSP := up, SummedAreaTableDownsweepSP := dn,
                    TransposeSummedAreaTableSP := tr, DepthOfFieldSP := df\<rparr> \<and>
        (sc = 0 \<or> sc = SceneSP inp) \<and>
        (up = 0 \<or> up = SummedAreaTableUpsweepSP inp) \<and>
        (dn = 0 \<or> dn = SummedAreaTableDownsweepSP inp) \<and>
        (tr = 0 \<or> tr = TransposeSummedAreaTableSP inp) \<and>
        (df = 0 \<or> df = DepthOfFieldSP inp))"

definition is_dispatch :: "call \<Rightarrow> bool" where
  "is_dispatch c \<longleftrightarrow> (\<exists>x y z. c = glDispatchCompute x y z)"

text \<open>
  Inputs for the examples: tiles of four, both windows open, depth of field on, the device
  path chosen, every program compiled, a white image, and the decode computed exactly.
\<close>

definition example_preamble :: preamble where
  "example_preamble = \<lparr>SAT_WORKGROUP_SIZE_X = 4, TRANSPOSE_SAT_WORKGROUP_SIZE_X = 4\<rparr>"

definition example_gui :: gui_input where
  "example_gui = \<lparr>profiling_window_open = True, renderer_window_open = True,
     checkbox_EnableDoF = True, checkbox_CPU_SAT = False, slider_FocusDepth = 5\<rparr>"

definition example_input :: frame_input where
  "example_input = \<lparr>gui = example_gui,
     SceneSP = 1, SummedAreaTableUpsweepSP = 2, SummedAreaTableDownsweepSP = 3,
     TransposeSummedAreaTableSP = 4, DepthOfFieldSP = 5,
     backbuffer_pixels = (\<lambda>_. U8Vec4 255 255 255 255),
     gamma_float = (\<lambda>c. 255 * (real c / 255) powr (22 / 10)),
     camera_ZNear = 1 / 10\<rparr>"

text \<open>
  Synchronisation, read off the calls of a frame. The state is the union of the barrier
  bits issued since the last dispatch or draw, the texture units that have a sampled
  texture bound, and the image units that have an image bound. A dispatch or draw is in
  order when a barrier for texture fetches has been issued since the previous one if a
  sampled texture is bound, and a barrier for image access if an image is bound.
\<close>

definition sync_step ::
  "call \<Rightarrow> barrier_bit set \<times> binding set \<times> binding set
     \<Rightarrow> (barrier_bit set \<times> binding set \<times> binding set) option" where
  "sync_step c = (\<lambda>(since, tb, ib).
     let work =
       (if (tb \<noteq> {} \<longrightarrow> GL_TEXTURE_FETCH_BARRIER_BIT \<in> since) \<and>
           (ib \<noteq> {} \<longrightarrow> GL_SHADER_IMAGE_ACCESS_BARRIER_BIT \<in> since)
        then Some ({}, tb, ib) else None)
     in case c of
          glMemoryBarrier bits \<Rightarrow> Some (since \<union> bits, tb, ib)
        | glBindTextures b t \<Rightarrow> Some (since, (if t = None then tb - {b} else insert b tb), ib)
        | glBindImageTexture b t access format \<Rightarrow> Some (since, tb, insert b ib)
        | glBindImageTextures b \<Rightarrow> Some (since, tb, ib - {b})
        | glDispatchCompute x y z \<Rightarrow> work
        | glDrawArrays how first count \<Rightarrow> work
        | _ \<Rightarrow> Some (since, tb, ib))"

fun sync_run ::
  "call list \<Rightarrow> barrier_bit set \<times> binding set \<times> binding set
     \<Rightarrow> (barrier_bit set \<times> binding set \<times> binding set) option" where
  "sync_run [] st = Some st"
| "sync_run (c # cs) st = (case sync_step c st of None \<Rightarrow> None | Some st' \<Rightarrow> sync_run cs st')"

definition synchronised :: "call list \<Rightarrow> bool" where
  "synchronised calls \<longleftrightarrow> sync_run calls ({}, {}, {}) \<noteq> None"

text \<open>
  The barrier bits issued before each dispatch or draw, since the previous one.
\<close>

definition barrier_step :: "barrier_bit set list \<times> barrier_bit set \<Rightarrow> call \<Rightarrow> barrier_bit set list \<times> barrier_bit set" where
  "barrier_step = (\<lambda>(out, since) c.
     case c of
       glMemoryBarrier bits \<Rightarrow> (out, since \<union> bits)
     | glDispatchCompute x y z \<Rightarrow> (out @ [since], {})
     | glDrawArrays how first count \<Rightarrow> (out @ [since], {})
     | _ \<Rightarrow> (out, since))"

definition barriers_before_work :: "call list \<Rightarrow> barrier_bit set list" where
  "barriers_before_work calls = fst (foldl barrier_step ([], {}) calls)"

definition frame_barriers :: "error + Renderer \<times> call list \<Rightarrow> barrier_bit set list" where
  "frame_barriers r = (case r of Inl e \<Rightarrow> [] | Inr (s, calls) \<Rightarrow> barriers_before_work calls)"

text \<open>The renderer after \<open>Init\<close> and \<open>Resize\<close> to 8 by 8 with tiles of four.\<close>

definition example_state :: Renderer where
  "example_state = \<lparr>
     mFirstFrame = True,
     mBackbufferWidth = 8, mBackbufferHeight = 8,
     mBackbufferFBOMS = 1, mBackbufferColorTOMS = 1, mBackbufferDepthTOMS = 2,
     mBackbufferFBOSS = 2, mBackbufferColorTOSS = 3, mBackbufferDepthTOSS = 4,
     mNullVAO = 1,
     mWindowWidth = 8, mWindowHeight = 8,
     mSummedAreaTableWidth = 8, mSummedAreaTableHeight = 8,
     mUseCPUForSAT = False,
     mCPUBackbufferReadback = map (fresh_u8vec4 zero_heap) [0..<64],
     mCPUSummedAreaTable = map (fresh_uvec4 zero_heap) [0..<64],
     mSummedRowsTO = 5, mSummedAreaTableTO = Some SummedRowsTO,
     mSummedRowsWGSumsTO = 6, mSummedColsTO = 7, mSummedColsWGSumsTO = 8,
     mEnableDoF = True, mFocusDepth = 5 \<rparr>"

text \<open>The device timestamps a list of calls records, and the ones it reads back.\<close>

definition timestamp_written_by :: "call \<Rightarrow> nat list" where
  "timestamp_written_by c = (case c of glQueryCounter i target \<Rightarrow> [i] | _ \<Rightarrow> [])"

definition timestamps_written :: "call list \<Rightarrow> nat list" where
  "timestamps_written calls = concat (map timestamp_written_by calls)"

definition timestamp_read_by :: "call \<Rightarrow> nat list" where
  "timestamp_read_by c = (case c of glGetQueryObjectui64v i pname \<Rightarrow> [i] | _ \<Rightarrow> [])"

definition timestamps_read :: "call list \<Rightarrow> nat list" where
  "timestamps_read calls = concat (map timestamp_read_by calls)"

text \<open>The example input with the box "Enable DoF" unchecked.\<close>

definition example_input_DoF_off :: frame_input where
  "example_input_DoF_off = example_input\<lparr>gui := example_gui\<lparr>checkbox_EnableDoF := False\<rparr>\<rparr>"

text \<open>
  The decoded pixel, where the conversion is defined, and the prefix sums the host path is
  meant to leave in the table: along a row of the image, and over the rectangle above and
  to the left of a pixel. \<open>w\<close> is the width of the image, \<open>rb\<close> the read-back array.
\<close>

definition decodable :: "(nat \<Rightarrow> real) \<Rightarrow> u8vec4 \<Rightarrow> bool" where
  "decodable g p \<longleftrightarrow> (\<exists>v. gamma_decode g p = Inr v)"

definition decoded :: "(nat \<Rightarrow> real) \<Rightarrow> u8vec4 \<Rightarrow> uvec4" where
  "decoded g p = (case gamma_decode g p of Inr v \<Rightarrow> v | Inl e \<Rightarrow> 0)"

definition row_sum :: "(nat \<Rightarrow> real) \<Rightarrow> u8vec4 list \<Rightarrow> nat \<Rightarrow> nat \<Rightarrow> nat \<Rightarrow> uvec4" where
  "row_sum g rb w row col = (\<Sum>c\<le>col. decoded g (rb ! (row * w + c)))"

definition area_sum :: "(nat \<Rightarrow> real) \<Rightarrow> u8vec4 list \<Rightarrow> nat \<Rightarrow> nat \<Rightarrow> nat \<Rightarrow> uvec4" where
  "area_sum g rb w row col = (\<Sum>r\<le>row. \<Sum>c\<le>col. decoded g (rb ! (r * w + c)))"

text \<open>
  What \<open>Resize\<close> establishes and the host path relies on: a non-empty \<open>w\<close> by \<open>h\<close> image
  inside a table of stride \<open>sw\<close>, and arrays of matching length.
\<close>

definition host_ready :: "Renderer \<Rightarrow> nat \<Rightarrow> nat \<Rightarrow> nat \<Rightarrow> nat \<Rightarrow> bool" where
  "host_ready s w h sw sh \<longleftrightarrow>
     mBackbufferWidth s = int w \<and> mBackbufferHeight s = int h \<and>
     mSummedAreaTableWidth s = int sw \<and> mSummedAreaTableHeight s = int sh \<and>
     0 < w \<and> w \<le> sw \<and> h \<le> sh \<and>
     length (mCPUBackbufferReadback s) = w * h \<and>
     length (mCPUSummedAreaTable s) = sw * sh \<and>
     int (sw * sh) \<le> INT_MAX"

text \<open>The two passes of the host path as folds over array updates.\<close>

definition row_pass_row :: "(nat \<Rightarrow> real) \<Rightarrow> u8vec4 list \<Rightarrow> nat \<Rightarrow> nat \<Rightarrow> nat \<Rightarrow> uvec4 list \<Rightarrow> uvec4 list" where
  "row_pass_row g rb w sw row t =
     fold (\<lambda>col t. t[row * sw + col := decoded g (rb ! (row * w + col)) + t ! (row * sw + (col - 1))])
       [1..<w] (t[row * sw := decoded g (rb ! (row * w))])"

definition col_pass_col :: "nat \<Rightarrow> nat \<Rightarrow> nat \<Rightarrow> uvec4 list \<Rightarrow> uvec4 list" where
  "col_pass_col h sw col t =
     fold (\<lambda>row t. t[row * sw + col := t ! (row * sw + col) + t ! ((row - 1) * sw + col)]) [1..<h] t"

subsection \<open>The device: textures and the three compute kernels\<close>

text \<open>
  Modelled from the spec: the OpenGL state the calls of the table's two paths act on, and
  the kernels \<open>sat_up.comp\<close>, \<open>sat_down.comp\<close> and \<open>sat_transpose.comp\<close>, which are
  not among the sources translated above. Section 4.1 of the specification describes
  them: a tile of \<open>TILE\<close> contiguous elements computes its own inclusive prefix sum
  (up-sweep); the per-tile totals are prefix-summed in a single tile (up-sweep of
  partials); that inclusive scan is turned into an exclusive one in place (down-sweep of
  partials); each tile adds its carry-in to every element (down-sweep); the transpose
  swaps rows and columns. The same two kernels serve both levels, switched by the
  uniforms the renderer sets. A texture is a function from texel coordinates; a dispatch
  of \<open>nx\<close> by \<open>ny\<close> workgroups of \<open>TILE\<close> invocations covers the texels \<open>x < nx * TILE\<close>,
  \<open>y < ny\<close>.
\<close>

record gl_state =
  uint_texels :: "GLuint \<Rightarrow> nat \<Rightarrow> nat \<Rightarrow> uvec4"
  color_texels :: "GLuint \<Rightarrow> nat \<Rightarrow> nat \<Rightarrow> u8vec4"
  used_program :: GLuint
  texture_unit :: "binding \<Rightarrow> GLuint option"
  image_unit :: "binding \<Rightarrow> GLuint option"
  uniform1i :: "GLuint \<Rightarrow> location \<Rightarrow> int"
  texture_2D :: GLuint

text \<open>Modelled from the spec: the inclusive prefix sum of \<open>f\<close> within the tile of \<open>x\<close>.\<close>

definition tile_scan :: "nat \<Rightarrow> (nat \<Rightarrow> uvec4) \<Rightarrow> nat \<Rightarrow> uvec4" where
  "tile_scan tile f x = (\<Sum>l\<le>x mod tile. f (x - x mod tile + l))"

text \<open>
  Modelled from the spec: what the up-sweep reads at \<open>x\<close>, by its two mode flags: the total
  of tile \<open>x\<close> of the accumulated input (its last element), an element of the accumulated
  input, or a decoded pixel of the colour input. The renderer binds no buffer of partial
  sums during step 1, so the totals reach that buffer in step 2, read from the output of
  step 1.
\<close>

definition sat_up_input ::
  "nat \<Rightarrow> (u8vec4 \<Rightarrow> uvec4) \<Rightarrow> int \<Rightarrow> int \<Rightarrow> (nat \<Rightarrow> nat \<Rightarrow> u8vec4) \<Rightarrow> (nat \<Rightarrow> nat \<Rightarrow> uvec4)
     \<Rightarrow> nat \<Rightarrow> nat \<Rightarrow> uvec4" where
  "sat_up_input tile decode read_uint read_wgsum color accumulated x y =
     (if read_wgsum \<noteq> 0 then accumulated ((x + 1) * tile - 1) y
      else if read_uint \<noteq> 0 then accumulated x y
      else decode (color x y))"

text \<open>Modelled from the spec: the up-sweep kernel (steps 1 and 2).\<close>

definition sat_up ::
  "nat \<Rightarrow> (nat \<Rightarrow> nat \<Rightarrow> uvec4) \<Rightarrow> nat \<Rightarrow> nat \<Rightarrow> (nat \<Rightarrow> nat \<Rightarrow> uvec4) \<Rightarrow> nat \<Rightarrow> nat \<Rightarrow> uvec4" where
  "sat_up tile input nx ny out x y =
     (if x < nx * tile \<and> y < ny then tile_scan tile (\<lambda>x'. input x' y) x else out x y)"

text \<open>
  Modelled from the spec: the down-sweep kernel, in place. Without carry-in it turns the
  inclusive scan of a tile into the exclusive one (step 3); with carry-in it adds to
  every element the entry of its tile in the partial sums (step 4).
\<close>

definition sat_down ::
  "nat \<Rightarrow> int \<Rightarrow> (nat \<Rightarrow> nat \<Rightarrow> uvec4) \<Rightarrow> nat \<Rightarrow> nat \<Rightarrow> (nat \<Rightarrow> nat \<Rightarrow> uvec4) \<Rightarrow> nat \<Rightarrow> nat \<Rightarrow> uvec4" where
  "sat_down tile add_wgsum wgsums nx ny out x y =
     (if x < nx * tile \<and> y < ny
      then (if add_wgsum \<noteq> 0 then out x y + wgsums (x div tile) y
            else if x mod tile = 0 then 0 else out (x - 1) y)
      else out x y)"

text \<open>Modelled from the spec: the transpose kernel, on square tiles of its own size.\<close>

definition sat_transpose ::
  "nat \<Rightarrow> (nat \<Rightarrow> nat \<Rightarrow> uvec4) \<Rightarrow> nat \<Rightarrow> nat \<Rightarrow> (nat \<Rightarrow> nat \<Rightarrow> uvec4) \<Rightarrow> nat \<Rightarrow> nat \<Rightarrow> uvec4" where
  "sat_transpose tile input nx ny out x y =
     (if y < nx * tile \<and> x < ny * tile then input y x else out x y)"

text \<open>Modelled from the spec: the texels a unit gives; an unbound unit reads as zero.\<close>

definition unit_texels :: "gl_state \<Rightarrow> GLuint option \<Rightarrow> nat \<Rightarrow> nat \<Rightarrow> uvec4" where
  "unit_texels G u = (case u of None \<Rightarrow> (\<lambda>x y. 0) | Some t \<Rightarrow> uint_texels G t)"

text \<open>Modelled from the spec: the same for a unit that samples a colour texture.\<close>

definition unit_colors :: "gl_state \<Rightarrow> GLuint option \<Rightarrow> nat \<Rightarrow> nat \<Rightarrow> u8vec4" where
  "unit_colors G u = (case u of None \<Rightarrow> (\<lambda>x y. U8Vec4 0 0 0 0) | Some t \<Rightarrow> color_texels G t)"

text \<open>
  Modelled from the spec: a dispatch runs the kernel of the program in use on the bound
  units and writes the image bound for output.
\<close>

definition dispatch_compute ::
  "preamble \<Rightarrow> (u8vec4 \<Rightarrow> uvec4) \<Rightarrow> frame_input \<Rightarrow> nat \<Rightarrow> nat \<Rightarrow> gl_state \<Rightarrow> gl_state" where
  "dispatch_compute P decode inp nx ny G =
     (let tile = nat (SAT_WORKGROUP_SIZE_X P);
          u = uniform1i G (used_program G)
      in if used_program G = SummedAreaTableUpsweepSP inp then
           (case image_unit G SAT_OUTPUT_IMAGE_BINDING of
              None \<Rightarrow> G
            | Some out \<Rightarrow>
                G\<lparr>uint_texels := (uint_texels G)(out :=
                    sat_up tile
                      (sat_up_input tile decode
                         (u SAT_READ_UINT_INPUT_UNIFORM_LOCATION) (u SAT_READ_WGSUM_UNIFORM_LOCATION)
                         (unit_colors G (texture_unit G SAT_INPUT_TEXTURE_BINDING))
                         (unit_texels G (texture_unit G SAT_UINT_INPUT_TEXTURE_BINDING)))
                      nx ny (uint_texels G out))\<rparr>)
         else if used_program G = SummedAreaTableDownsweepSP inp then
           (case image_unit G SAT_OUTPUT_IMAGE_BINDING of
              None \<Rightarrow> G
            | Some out \<Rightarrow>
                G\<lparr>uint_texels := (uint_texels G)(out :=
                    sat_down tile (u SAT_ADD_WGSUM_UNIFORM_LOCATION)
                      (unit_texels G (image_unit G SAT_WGSUMS_IMAGE_BINDING))
                      nx ny (uint_texels G out))\<rparr>)
         else if used_program G = TransposeSummedAreaTableSP inp then
           (case image_unit G TRANSPOSE_SAT_OUTPUT_IMAGE_BINDING of
              None \<Rightarrow> G
            | Some out \<Rightarrow>
                G\<lparr>uint_texels := (uint_texels G)(out :=
                    sat_transpose (nat (TRANSPOSE_SAT_WORKGROUP_SIZE_X P))
                      (unit_texels G (image_unit G TRANSPOSE_SAT_INPUT_IMAGE_BINDING))
                      nx ny (uint_texels G out))\<rparr>)
         else G)"

text \<open>
  Modelled from the spec: the effect of one call on the device. \<open>glTexSubImage2D\<close> stores
  the given texels, row by row, into the rectangle of the texture bound to
  \<open>GL_TEXTURE_2D\<close>.
\<close>

definition gl_exec :: "preamble \<Rightarrow> (u8vec4 \<Rightarrow> uvec4) \<Rightarrow> frame_input \<Rightarrow> gl_state \<Rightarrow> call \<Rightarrow> gl_state" where
  "gl_exec P decode inp G c =
     (case c of
        glUseProgram p \<Rightarrow> G\<lparr>used_program := p\<rparr>
      | glBindTextures b t \<Rightarrow> G\<lparr>texture_unit := (texture_unit G)(b := t)\<rparr>
      | glBindImageTexture b t access format \<Rightarrow> G\<lparr>image_unit := (image_unit G)(b := Some t)\<rparr>
      | glBindImageTextures b \<Rightarrow> G\<lparr>image_unit := (image_unit G)(b := None)\<rparr>
      | glUniform1i l v \<Rightarrow>
          G\<lparr>uniform1i := (uniform1i G)(used_program G := (uniform1i G (used_program G))(l := v))\<rparr>
      | glBindTexture target t \<Rightarrow> G\<lparr>texture_2D := t\<rparr>
      | glTexSubImage2D target level xoffset yoffset width height format type texels \<Rightarrow>
          G\<lparr>uint_texels := (uint_texels G)(texture_2D G := (\<lambda>x y.
              if nat xoffset \<le> x \<and> x < nat xoffset + nat width \<and>
                 nat yoffset \<le> y \<and> y < nat yoffset + nat height
              then texels ! ((y - nat yoffset) * nat width + (x - nat xoffset))
              else uint_texels G (texture_2D G) x y))\<rparr>
      | glDispatchCompute nx ny nz \<Rightarrow> dispatch_compute P decode inp (nat nx) (nat ny) G
      | _ \<Rightarrow> G)"

text \<open>Modelled from the spec: the calls of a list take effect in order.\<close>

definition gl_run :: "preamble \<Rightarrow> (u8vec4 \<Rightarrow> uvec4) \<Rightarrow> frame_input \<Rightarrow> call list \<Rightarrow> gl_state \<Rightarrow> gl_state" where
  "gl_run P decode inp calls G = foldl (gl_exec P decode inp) G calls"

text \<open>
  Modelled from the spec: a device whose colour textures hold white texels and whose
  other textures hold zeros, with nothing bound.
\<close>

definition example_device :: gl_state where
  "example_device = \<lparr>
     uint_texels = (\<lambda>t x y. 0),
     color_texels = (\<lambda>t x y. U8Vec4 255 255 255 255),
     used_program = 0,
     texture_unit = (\<lambda>b. None),
     image_unit = (\<lambda>b. None),
     uniform1i = (\<lambda>p l. 0),
     texture_2D = 0 \<rparr>"

text \<open>
  The expression \<open>pow(c / 255.0f, 2.2f) * 255.0f\<close> of lines 472 and 478 over the reals: the
  value it has for the channel value \<open>c\<close> when the division, the power and the product
  are exact. \<open>gamma_floor\<close> is a pixel decoded with it, the fraction of every channel
  dropped.
\<close>

definition exact_gamma :: "nat \<Rightarrow> real" where
  "exact_gamma c = 255 * (real c / 255) powr (22 / 10)"

definition gamma_floor :: "u8vec4 \<Rightarrow> uvec4" where
  "gamma_floor p =
     UVec4 (word_of_int \<lfloor>exact_gamma (unat (r8 p))\<rfloor>) (word_of_int \<lfloor>exact_gamma (unat (g8 p))\<rfloor>)
           (word_of_int \<lfloor>exact_gamma (unat (b8 p))\<rfloor>) (word_of_int \<lfloor>exact_gamma (unat (a8 p))\<rfloor>)"

section \<open>Verification\<close>

subsection \<open>Sequencing, checked arithmetic and padding\<close>

lemma and_then_Inr [simp]: "and_then (Inr x) f = f x"
  by (simp add: and_then_def)

lemma and_then_Inl [simp]: "and_then (Inl e) f = Inl e"
  by (simp add: and_then_def)

lemma and_then_Inr_iff: "and_then m f = Inr y \<longleftrightarrow> (\<exists>x. m = Inr x \<and> f x = Inr y)"
  by (cases m) simp_all

lemma checked_Inr_iff: "checked v = Inr w \<longleftrightarrow> w = v \<and> INT_MIN \<le> v \<and> v \<le> INT_MAX"
  by (auto simp: checked_def)

lemma and_neg_pow2: "(x::int) AND - (2 ^ k) = (x div 2 ^ k) * 2 ^ k"
proof -
  have "x AND - (2 ^ k) = push_bit k (drop_bit k x)"
    by (rule bit_eqI) (auto simp: bit_simps minus_exp_eq_not_mask)
  then show ?thesis
    by (simp add: push_bit_eq_mult drop_bit_eq_div)
qed

lemma ceil_div: "0 < (t::int) \<Longrightarrow> (w + t - 1) div t = \<lceil>real_of_int w / real_of_int t\<rceil>"
proof -
  assume t: "0 < t"
  have "w + t - 1 = t * (- (- w div t)) + (t - 1 - ((- w) mod t))"
    using mult_div_mod_eq [of t "- w"] by (simp add: algebra_simps)
  moreover have "0 \<le> t - 1 - ((- w) mod t)"
    using t pos_mod_bound [of t "- w"] by linarith
  moreover have "t - 1 - ((- w) mod t) < t"
    using t pos_mod_sign [of t "- w"] by linarith
  ultimately have "(w + t - 1) div t = - (- w div t)"
    by (rule int_div_pos_eq)
  then show ?thesis
    by (simp add: ceiling_divide_eq_div)
qed

lemma round_up_to_workgroup_Inr:
  assumes "round_up_to_workgroup (2 ^ k) d = Inr v"
  shows "v = \<lceil>real_of_int d / 2 ^ k\<rceil> * 2 ^ k"
proof -
  from assms have "v = (d + 2 ^ k - 1) AND - (2 ^ k)"
    by (auto simp: round_up_to_workgroup_def and_then_Inr_iff add_int_def sub_int_def
        neg_int_def checked_Inr_iff)
  also have "\<dots> = ((d + 2 ^ k - 1) div 2 ^ k) * 2 ^ k"
    by (rule and_neg_pow2)
  also have "(d + 2 ^ k - 1) div 2 ^ k = \<lceil>real_of_int d / real_of_int (2 ^ k)\<rceil>"
    by (rule ceil_div) simp
  finally show ?thesis by simp
qed

lemma Resize_multisampled_FBO_fields:
  "Resize_multisampled_FBO (s, n) = (s', n', calls) \<Longrightarrow>
     mBackbufferWidth s' = mBackbufferWidth s \<and> mBackbufferHeight s' = mBackbufferHeight s \<and>
     mWindowWidth s' = mWindowWidth s \<and> mWindowHeight s' = mWindowHeight s"
  by (auto simp: Resize_multisampled_FBO_def Let_def)

lemma Resize_singlesampled_FBO_fields:
  "Resize_singlesampled_FBO (s, n) = (s', n', calls) \<Longrightarrow>
     mBackbufferWidth s' = mBackbufferWidth s \<and> mBackbufferHeight s' = mBackbufferHeight s \<and>
     mWindowWidth s' = mWindowWidth s \<and> mWindowHeight s' = mWindowHeight s"
  by (auto simp: Resize_singlesampled_FBO_def Let_def)

lemma Resize_summed_area_table_Inr:
  assumes "Resize_summed_area_table tile heap (s, n) = Inr (s', n', calls)"
  shows "round_up_to_workgroup tile (mBackbufferWidth s) = Inr (mSummedAreaTableWidth s')"
    and "round_up_to_workgroup tile (mBackbufferHeight s) = Inr (mSummedAreaTableHeight s')"
    and "assert_single_workgroup tile (mSummedAreaTableWidth s') = Inr ()"
    and "assert_single_workgroup tile (mSummedAreaTableHeight s') = Inr ()"
    and "mBackbufferWidth s' = mBackbufferWidth s" and "mBackbufferHeight s' = mBackbufferHeight s"
    and "mWindowWidth s' = mWindowWidth s" and "mWindowHeight s' = mWindowHeight s"
  using assms
  by (auto simp: Resize_summed_area_table_def and_then_Inr_iff Let_def)

lemma Resize_Inr:
  assumes "Resize tile heap width height (s, n) = Inr (s', n', calls)"
  shows "round_up_to_workgroup tile width = Inr (mSummedAreaTableWidth s')"
    and "round_up_to_workgroup tile height = Inr (mSummedAreaTableHeight s')"
    and "assert_single_workgroup tile (mSummedAreaTableWidth s') = Inr ()"
    and "assert_single_workgroup tile (mSummedAreaTableHeight s') = Inr ()"
    and "mBackbufferWidth s' = width" and "mBackbufferHeight s' = height"
    and "mWindowWidth s' = width" and "mWindowHeight s' = height"
proof -
  obtain s2 n2 ms where ms: "Resize_multisampled_FBO
      (s\<lparr>mWindowWidth := width, mWindowHeight := height,
         mBackbufferWidth := width, mBackbufferHeight := height\<rparr>, n) = (s2, n2, ms)"
    by (metis prod_cases3)
  obtain s3 n3 ss where ss: "Resize_singlesampled_FBO (s2, n2) = (s3, n3, ss)"
    by (metis prod_cases3)
  from assms ms ss obtain sat where
    sat: "Resize_summed_area_table tile heap (s3, n3) = Inr (s', n', sat)"
    by (auto simp: Resize_def and_then_Inr_iff)
  note a = Resize_multisampled_FBO_fields [OF ms] Resize_singlesampled_FBO_fields [OF ss]
  note b = Resize_summed_area_table_Inr [OF sat]
  show "round_up_to_workgroup tile width = Inr (mSummedAreaTableWidth s')"
    using a b(1) by simp
  show "round_up_to_workgroup tile height = Inr (mSummedAreaTableHeight s')"
    using a b(2) by simp
  show "assert_single_workgroup tile (mSummedAreaTableWidth s') = Inr ()" by (rule b(3))
  show "assert_single_workgroup tile (mSummedAreaTableHeight s') = Inr ()" by (rule b(4))
  show "mBackbufferWidth s' = width" using a b(5) by simp
  show "mBackbufferHeight s' = height" using a b(6) by simp
  show "mWindowWidth s' = width" using a b(7) by simp
  show "mWindowHeight s' = height" using a b(8) by simp
qed

lemma new_array_Inr_iff: "new_array k init = Inr xs \<longleftrightarrow> 0 \<le> k \<and> xs = map init [0..<nat k]"
  by (auto simp: new_array_def)

lemma storage_ms:
  "Resize_multisampled_FBO (s, n) = (s', n', calls) \<Longrightarrow>
   concat (map storage_of calls) =
     [(GL_SRGB8_ALPHA8, mBackbufferWidth s, mBackbufferHeight s),
      (GL_DEPTH_COMPONENT32F, mBackbufferWidth s, mBackbufferHeight s)]"
  by (auto simp: Resize_multisampled_FBO_def Let_def storage_of_def)

lemma storage_ss:
  "Resize_singlesampled_FBO (s, n) = (s', n', calls) \<Longrightarrow>
   concat (map storage_of calls) =
     [(GL_SRGB8_ALPHA8, mBackbufferWidth s, mBackbufferHeight s),
      (GL_DEPTH_COMPONENT32F, mBackbufferWidth s, mBackbufferHeight s)]"
  by (auto simp: Resize_singlesampled_FBO_def Let_def storage_of_def)

lemma storage_sat:
  assumes "Resize_summed_area_table tile heap (s, n) = Inr (s', n', calls)"
  shows "\<exists>qw qh. div_int (mSummedAreaTableWidth s') tile = Inr qw \<and>
           div_int (mSummedAreaTableHeight s') tile = Inr qh \<and>
           length (mCPUBackbufferReadback s') = nat (mBackbufferWidth s * mBackbufferHeight s) \<and>
           length (mCPUSummedAreaTable s') = nat (mSummedAreaTableWidth s' * mSummedAreaTableHeight s') \<and>
           concat (map storage_of calls) =
             [(GL_RGBA32UI, mSummedAreaTableWidth s', mSummedAreaTableHeight s'),
              (GL_RGBA32UI, qw, mSummedAreaTableHeight s'),
              (GL_RGBA32UI, mSummedAreaTableHeight s', mSummedAreaTableWidth s'),
              (GL_RGBA32UI, qh, mSummedAreaTableWidth s')]"
  using assms
  by (auto simp: Resize_summed_area_table_def and_then_Inr_iff Let_def storage_of_def
      new_array_Inr_iff mul_int_def checked_Inr_iff)

lemma Resize_dimensions:
  assumes "Resize tile heap width height (s, n) = Inr r"
  shows "dimensions_for tile width height = Inr (buffer_dimensions r)"
proof -
  obtain s' n' calls where r: "r = (s', n', calls)"
    by (metis prod_cases3)
  obtain s2 n2 ms where ms: "Resize_multisampled_FBO
      (s\<lparr>mWindowWidth := width, mWindowHeight := height,
         mBackbufferWidth := width, mBackbufferHeight := height\<rparr>, n) = (s2, n2, ms)"
    by (metis prod_cases3)
  obtain s3 n3 ss where ss: "Resize_singlesampled_FBO (s2, n2) = (s3, n3, ss)"
    by (metis prod_cases3)
  from assms r ms ss obtain sat where
    sat: "Resize_summed_area_table tile heap (s3, n3) = Inr (s', n', sat)"
    and calls: "calls = glFinish # ms @ ss @ sat"
    by (auto simp: Resize_def and_then_Inr_iff)
  note a = Resize_multisampled_FBO_fields [OF ms] Resize_singlesampled_FBO_fields [OF ss]
  note b = Resize_Inr [OF assms [unfolded r]]
  from storage_sat [OF sat] obtain qw qh where
    q: "div_int (mSummedAreaTableWidth s') tile = Inr qw"
       "div_int (mSummedAreaTableHeight s') tile = Inr qh"
    and len: "length (mCPUBackbufferReadback s') = nat (mBackbufferWidth s3 * mBackbufferHeight s3)"
       "length (mCPUSummedAreaTable s') = nat (mSummedAreaTableWidth s' * mSummedAreaTableHeight s')"
    and st: "concat (map storage_of sat) =
             [(GL_RGBA32UI, mSummedAreaTableWidth s', mSummedAreaTableHeight s'),
              (GL_RGBA32UI, qw, mSummedAreaTableHeight s'),
              (GL_RGBA32UI, mSummedAreaTableHeight s', mSummedAreaTableWidth s'),
              (GL_RGBA32UI, qh, mSummedAreaTableWidth s')]"
    by blast
  have "concat (map storage_of calls) =
      [(GL_SRGB8_ALPHA8, width, height), (GL_DEPTH_COMPONENT32F, width, height),
       (GL_SRGB8_ALPHA8, width, height), (GL_DEPTH_COMPONENT32F, width, height),
       (GL_RGBA32UI, mSummedAreaTableWidth s', mSummedAreaTableHeight s'),
       (GL_RGBA32UI, qw, mSummedAreaTableHeight s'),
       (GL_RGBA32UI, mSummedAreaTableHeight s', mSummedAreaTableWidth s'),
       (GL_RGBA32UI, qh, mSummedAreaTableWidth s')]"
    using storage_ms [OF ms] storage_ss [OF ss] st a
    by (simp add: calls storage_of_def)
  then show ?thesis
    using b q len a
    by (simp add: dimensions_for_def buffer_dimensions_def r)
qed

lemma pad_ge: "0 < t \<Longrightarrow> w \<le> pad t w"
proof -
  assume t: "0 < t"
  have "w + t - 1 = (w + t - 1) div t * t + (w + t - 1) mod t"
    by simp
  moreover have "(w + t - 1) mod t \<le> t - 1"
    using t pos_mod_bound [of t "w + t - 1"] by linarith
  ultimately show ?thesis
    unfolding pad_def by linarith
qed

lemma pad_nonneg: "0 < t \<Longrightarrow> 0 \<le> w \<Longrightarrow> 0 \<le> pad t w"
  using pad_ge [of t w] by linarith

lemma pad_ceiling: "0 < t \<Longrightarrow> pad t w = \<lceil>real_of_int w / real_of_int t\<rceil> * t"
  by (simp add: pad_def ceil_div)

lemma round_up_to_workgroup_steps:
  assumes "0 < t" "t \<le> 2 ^ 30" "INT_MIN \<le> d" "d + t \<le> INT_MAX"
  shows "round_up_to_workgroup t d = Inr ((d + t - 1) AND - t)"
  using assms
  by (simp add: round_up_to_workgroup_def add_int_def sub_int_def neg_int_def checked_def
      INT_MIN_def INT_MAX_def)

lemma round_up_to_workgroup_eq:
  assumes "k \<le> 30" "INT_MIN \<le> d" "d + 2 ^ k \<le> INT_MAX"
  shows "round_up_to_workgroup (2 ^ k) d = Inr (pad (2 ^ k) d)"
proof -
  have "(2::int) ^ k \<le> 2 ^ 30"
    using assms(1) by (intro power_increasing) simp_all
  then have "round_up_to_workgroup (2 ^ k) d = Inr ((d + 2 ^ k - 1) AND - (2 ^ k))"
    using assms(2,3) by (intro round_up_to_workgroup_steps) simp_all
  then show ?thesis
    by (simp add: and_neg_pow2 pad_def)
qed

lemma div_int_pad:
  assumes "0 < t" "0 \<le> w" "pad t w \<le> INT_MAX"
  shows "div_int (pad t w) t = Inr ((w + t - 1) div t)"
proof -
  have nn: "0 \<le> (w + t - 1) div t"
    using assms(1,2) by (simp add: pos_imp_zdiv_nonneg_iff)
  have le: "(w + t - 1) div t \<le> pad t w"
    unfolding pad_def using nn assms(1) by (simp add: mult_le_cancel_left1)
  have "sgn (pad t w) * sgn t * (\<bar>pad t w\<bar> div \<bar>t\<bar>) = (w + t - 1) div t"
  proof (cases "(w + t - 1) div t = 0")
    case True
    then show ?thesis by (simp add: pad_def)
  next
    case False
    with nn have "0 < (w + t - 1) div t" by simp
    then have "0 < pad t w"
      unfolding pad_def using assms(1) by simp
    then show ?thesis
      using assms(1) by (simp add: pad_def)
  qed
  then show ?thesis
    using assms nn le by (simp add: div_int_def checked_def INT_MIN_def)
qed

lemma Resize_succeeds:
  assumes k: "k \<le> 30" and w: "0 \<le> width" "width + 2 ^ k \<le> INT_MAX"
    and h: "0 \<le> height" "height + 2 ^ k \<le> INT_MAX"
    and single: "(width + 2 ^ k - 1) div 2 ^ k \<le> 2 ^ k" "(height + 2 ^ k - 1) div 2 ^ k \<le> 2 ^ k"
    and size: "pad (2 ^ k) width * pad (2 ^ k) height \<le> INT_MAX"
  shows "\<exists>s' n' calls. Resize (2 ^ k) heap width height (s, n) = Inr (s', n', calls)"
proof -
  let ?t = "(2::int) ^ k"
  have t: "0 < ?t" by simp
  have pw: "0 \<le> pad ?t width" "width \<le> pad ?t width"
    using pad_nonneg [OF t w(1)] pad_ge [OF t] by simp_all
  have ph: "0 \<le> pad ?t height" "height \<le> pad ?t height"
    using pad_nonneg [OF t h(1)] pad_ge [OF t] by simp_all
  have prod: "0 \<le> width * height" "width * height \<le> pad ?t width * pad ?t height"
    using w(1) h(1) pw ph by (simp_all add: mult_mono)
  have prod2: "0 \<le> pad ?t width * pad ?t height"
    using pw ph by simp
  have le1: "pad ?t width \<le> INT_MAX" "pad ?t height \<le> INT_MAX"
  proof -
    have "pad ?t width \<le> width + ?t" "pad ?t height \<le> height + ?t"
      unfolding pad_def
      using t div_mult_mod_eq [of "width + ?t - 1" ?t] div_mult_mod_eq [of "height + ?t - 1" ?t]
        pos_mod_sign [OF t, of "width + ?t - 1"] pos_mod_sign [OF t, of "height + ?t - 1"]
      by linarith+
    then show "pad ?t width \<le> INT_MAX" "pad ?t height \<le> INT_MAX"
      using w(2) h(2) by linarith+
  qed
  have ru: "round_up_to_workgroup ?t width = Inr (pad ?t width)"
      "round_up_to_workgroup ?t height = Inr (pad ?t height)"
    using k w h by (simp_all add: round_up_to_workgroup_eq INT_MIN_def)
  have dv: "div_int (pad ?t width) ?t = Inr ((width + ?t - 1) div ?t)"
      "div_int (pad ?t height) ?t = Inr ((height + ?t - 1) div ?t)"
    using div_int_pad [OF t w(1) le1(1)] div_int_pad [OF t h(1) le1(2)] by simp_all
  have m1: "mul_int width height = Inr (width * height)"
    using prod size by (simp add: mul_int_def checked_def INT_MIN_def)
  have m2: "mul_int (pad ?t width) (pad ?t height) = Inr (pad ?t width * pad ?t height)"
    using prod2 size by (simp add: mul_int_def checked_def INT_MIN_def)
  show ?thesis
    using ru dv single m1 m2 prod(1) prod2
    by (simp add: Resize_def Resize_multisampled_FBO_def Resize_singlesampled_FBO_def
        Resize_summed_area_table_def assert_single_workgroup_def new_array_def Let_def)
qed

lemma Resize_padded:
  assumes "Resize (2 ^ k) heap width height (s, n) = Inr (s', n', calls)"
  shows "mSummedAreaTableWidth s' = \<lceil>real_of_int width / 2 ^ k\<rceil> * 2 ^ k"
    and "mSummedAreaTableHeight s' = \<lceil>real_of_int height / 2 ^ k\<rceil> * 2 ^ k"
  using Resize_Inr(1,2) [OF assms] by (simp_all add: round_up_to_workgroup_Inr)

text \<open>
  Claim C4. For every width and height for which \<open>Resize\<close> returns, and a workgroup tile
  size that is a power of two, the table is as wide as the least multiple of the tile size
  that is at least the width, \<open>ceil(W / TILE) * TILE\<close>, and likewise for the height.
\<close>

theorem padding_invariant:
  assumes "Resize (2 ^ k) heap width height (s, n) = Inr (s', n', calls)"
  shows "mSummedAreaTableWidth s' = \<lceil>real_of_int width / 2 ^ k\<rceil> * 2 ^ k \<and>
         mSummedAreaTableHeight s' = \<lceil>real_of_int height / 2 ^ k\<rceil> * 2 ^ k"
  using Resize_padded [OF assms] by simp

theorem padding_invariant_witness:
  "\<exists>s' n' calls. Resize (2 ^ 8) zero_heap 800 600 (NewRenderer, first_names) = Inr (s', n', calls) \<and>
     mSummedAreaTableWidth s' = 1024 \<and> mSummedAreaTableHeight s' = 768"
proof -
  obtain s' n' calls where
    r: "Resize (2 ^ 8) zero_heap 800 600 (NewRenderer, first_names) = Inr (s', n', calls)"
    using Resize_succeeds [of 8 800 600 zero_heap NewRenderer first_names]
    by (auto simp: INT_MAX_def pad_def)
  from padding_invariant [OF r] have
    "mSummedAreaTableWidth s' = 1024 \<and> mSummedAreaTableHeight s' = 768"
    by simp
  with r show ?thesis by blast
qed

lemma Resize_assertion_fails:
  assumes "round_up_to_workgroup tile width = Inr satw"
    and "round_up_to_workgroup tile height = Inr sath"
    and "div_int satw tile = Inr qw" and "div_int sath tile = Inr qh"
    and "tile < qw \<or> tile < qh"
  shows "Resize tile heap width height (s, n) = Inl AssertionFailed"
  using assms
  by (auto simp: Resize_def Resize_multisampled_FBO_def Resize_singlesampled_FBO_def
      Resize_summed_area_table_def assert_single_workgroup_def Let_def)

lemma assert_single_workgroup_Inr:
  "assert_single_workgroup tile d = Inr u \<Longrightarrow> \<exists>q. div_int d tile = Inr q \<and> q \<le> tile"
  by (auto simp: assert_single_workgroup_def and_then_Inr_iff split: if_splits)

text \<open>
  Claim C9. \<open>Resize\<close> asserts that the padded dimension divided by the tile size is at
  most the tile size, on both axes: whenever it returns, both quotients are within the
  bound, and whenever one of them exceeds it, \<open>Resize\<close> stops with the failed assertion.
\<close>

theorem single_workgroup_asserted:
  "(Resize tile heap width height (s, n) = Inr (s', n', calls) \<longrightarrow>
      (\<exists>qw qh. div_int (mSummedAreaTableWidth s') tile = Inr qw \<and> qw \<le> tile \<and>
               div_int (mSummedAreaTableHeight s') tile = Inr qh \<and> qh \<le> tile)) \<and>
   (round_up_to_workgroup tile width = Inr satw \<and>
    round_up_to_workgroup tile height = Inr sath \<and>
    div_int satw tile = Inr qw' \<and> div_int sath tile = Inr qh' \<and> (tile < qw' \<or> tile < qh') \<longrightarrow>
      Resize tile heap width height (s, n) = Inl AssertionFailed)"
proof (intro conjI impI)
  assume r: "Resize tile heap width height (s, n) = Inr (s', n', calls)"
  from Resize_Inr(3,4) [OF r] show
    "\<exists>qw qh. div_int (mSummedAreaTableWidth s') tile = Inr qw \<and> qw \<le> tile \<and>
             div_int (mSummedAreaTableHeight s') tile = Inr qh \<and> qh \<le> tile"
    by (meson assert_single_workgroup_Inr)
next
  assume "round_up_to_workgroup tile width = Inr satw \<and>
    round_up_to_workgroup tile height = Inr sath \<and>
    div_int satw tile = Inr qw' \<and> div_int sath tile = Inr qh' \<and> (tile < qw' \<or> tile < qh')"
  then show "Resize tile heap width height (s, n) = Inl AssertionFailed"
    by (intro Resize_assertion_fails [of tile width satw height sath qw' qh']) simp_all
qed

lemma round_up_4_100: "round_up_to_workgroup 4 100 = Inr 100"
  using round_up_to_workgroup_eq [of 2 100] by (simp add: INT_MIN_def INT_MAX_def pad_def)

lemma round_up_4_8: "round_up_to_workgroup 4 8 = Inr 8"
  using round_up_to_workgroup_eq [of 2 8] by (simp add: INT_MIN_def INT_MAX_def pad_def)

theorem single_workgroup_asserted_witness:
  "(\<exists>s' n' calls. Resize 4 zero_heap 8 8 (NewRenderer, first_names) = Inr (s', n', calls) \<and>
      div_int (mSummedAreaTableWidth s') 4 = Inr 2 \<and> div_int (mSummedAreaTableHeight s') 4 = Inr 2) \<and>
   Resize 4 zero_heap 100 8 (NewRenderer, first_names) = Inl AssertionFailed"
proof
  obtain s' n' calls where
    r: "Resize 4 zero_heap 8 8 (NewRenderer, first_names) = Inr (s', n', calls)"
    using Resize_succeeds [of 2 8 8 zero_heap NewRenderer first_names]
    by (auto simp: INT_MAX_def pad_def)
  have "mSummedAreaTableWidth s' = 8" "mSummedAreaTableHeight s' = 8"
    using Resize_Inr(1,2) [OF r] by (simp_all add: round_up_4_8)
  moreover have "div_int 8 4 = Inr 2"
    by (simp add: div_int_def checked_def INT_MIN_def INT_MAX_def)
  ultimately show "\<exists>s' n' calls. Resize 4 zero_heap 8 8 (NewRenderer, first_names) = Inr (s', n', calls) \<and>
      div_int (mSummedAreaTableWidth s') 4 = Inr 2 \<and> div_int (mSummedAreaTableHeight s') 4 = Inr 2"
    using r single_workgroup_asserted [of 4 zero_heap 8 8 NewRenderer first_names s' n' calls]
    by auto
next
  have "div_int 100 4 = Inr 25" "div_int 8 4 = Inr 2"
    by (simp_all add: div_int_def checked_def INT_MIN_def INT_MAX_def)
  then show "Resize 4 zero_heap 100 8 (NewRenderer, first_names) = Inl AssertionFailed"
    using single_workgroup_asserted [of 4 zero_heap 100 8 NewRenderer first_names undefined undefined undefined 100 8 25 2]
      round_up_4_100 round_up_4_8
    by simp
qed

text \<open>
  Claim C8. The buffer dimensions \<open>Resize\<close> produces depend on the width and height
  alone (not on the renderer's previous state, the names OpenGL hands out or the heap):
  two consecutive calls with the same size give the same dimensions, and going from
  800 by 600 to 1920 by 1080 and back restores the dimensions of the first allocation.
\<close>

theorem resize_dimensions_function_of_size:
  "(\<forall>heap heap' s n s0 n0 r r'.
      Resize tile heap width height (s, n) = Inr r \<longrightarrow>
      Resize tile heap' width height (s0, n0) = Inr r' \<longrightarrow>
      buffer_dimensions r' = buffer_dimensions r) \<and>
   (\<forall>heap s n s1 n1 c1 r2.
      Resize tile heap width height (s, n) = Inr (s1, n1, c1) \<longrightarrow>
      Resize tile heap width height (s1, n1) = Inr r2 \<longrightarrow>
      buffer_dimensions r2 = buffer_dimensions (s1, n1, c1)) \<and>
   (\<forall>heap s n s1 n1 c1 s2 n2 c2 r3.
      Resize tile heap 800 600 (s, n) = Inr (s1, n1, c1) \<longrightarrow>
      Resize tile heap 1920 1080 (s1, n1) = Inr (s2, n2, c2) \<longrightarrow>
      Resize tile heap 800 600 (s2, n2) = Inr r3 \<longrightarrow>
      buffer_dimensions r3 = buffer_dimensions (s1, n1, c1))"
proof -
  have same: "buffer_dimensions r' = buffer_dimensions r"
    if "Resize tile heap w h (s, n) = Inr r" "Resize tile heap' w h (s0, n0) = Inr r'"
    for heap heap' w h s n s0 n0 r r'
    using Resize_dimensions [OF that(1)] Resize_dimensions [OF that(2)] by simp
  show ?thesis
    by (intro conjI allI impI) (erule (1) same [rotated])+
qed

theorem resize_dimensions_function_of_size_witness:
  "\<exists>s1 n1 c1 s2 n2 c2 r3.
      Resize (2 ^ 8) zero_heap 800 600 (NewRenderer, first_names) = Inr (s1, n1, c1) \<and>
      Resize (2 ^ 8) zero_heap 1920 1080 (s1, n1) = Inr (s2, n2, c2) \<and>
      Resize (2 ^ 8) zero_heap 800 600 (s2, n2) = Inr r3 \<and>
      buffer_dimensions r3 = buffer_dimensions (s1, n1, c1) \<and>
      fst (buffer_dimensions r3) = (800, 600) \<and> fst (snd (buffer_dimensions r3)) = (1024, 768)"
proof -
  obtain s1 n1 c1 where
    r1: "Resize (2 ^ 8) zero_heap 800 600 (NewRenderer, first_names) = Inr (s1, n1, c1)"
    using Resize_succeeds [of 8 800 600 zero_heap NewRenderer first_names]
    by (auto simp: INT_MAX_def pad_def)
  obtain s2 n2 c2 where
    r2: "Resize (2 ^ 8) zero_heap 1920 1080 (s1, n1) = Inr (s2, n2, c2)"
    using Resize_succeeds [of 8 1920 1080 zero_heap s1 n1]
    by (auto simp: INT_MAX_def pad_def)
  obtain s3 n3 c3 where
    r3: "Resize (2 ^ 8) zero_heap 800 600 (s2, n2) = Inr (s3, n3, c3)"
    using Resize_succeeds [of 8 800 600 zero_heap s2 n2]
    by (auto simp: INT_MAX_def pad_def)
  have eq: "buffer_dimensions (s3, n3, c3) = buffer_dimensions (s1, n1, c1)"
    using resize_dimensions_function_of_size [of "2 ^ 8" 800 600] r1 r2 r3 by blast
  have "mSummedAreaTableWidth s1 = 1024" "mSummedAreaTableHeight s1 = 768"
      "mBackbufferWidth s1 = 800" "mBackbufferHeight s1 = 600"
    using Resize_padded [OF r1] Resize_Inr(5,6) [OF r1] by simp_all
  then have "fst (buffer_dimensions (s1, n1, c1)) = (800, 600)"
      "fst (snd (buffer_dimensions (s1, n1, c1))) = (1024, 768)"
    by (simp_all add: buffer_dimensions_def)
  with eq r1 r2 r3 show ?thesis
    by (metis (no_types, lifting))
qed

subsection \<open>The presentation blit\<close>

lemma blit_filters_append [simp]: "blit_filters (xs @ ys) = blit_filters xs @ blit_filters ys"
  by (simp add: blit_filters_def)

lemma blit_filters_Nil [simp]: "blit_filters [] = []"
  by (simp add: blit_filters_def)

lemma blit_filters_Cons: "blit_filters (c # cs) = blit_filter_of c @ blit_filters cs"
  by (simp add: blit_filters_def)

lemma blit_filters_UpdateGUI: "blit_filters (snd (UpdateGUI g s)) = []"
proof -
  have a: "blit_filters (UpdateGUI_GPU_time s i) = []" for i
    by (simp add: UpdateGUI_GPU_time_def Let_def blit_filters_Cons blit_filter_of_def)
  have b: "blit_filters (UpdateGUI_CPU_time s i) = []" for i
    by (simp add: UpdateGUI_CPU_time_def blit_filters_Cons blit_filter_of_def)
  have c: "blit_filters (concat (map f xs)) = []" if "\<And>i. blit_filters (f i) = []" for f and xs :: "nat list"
    using that by (induction xs) simp_all
  show ?thesis
    by (simp add: UpdateGUI_def Let_def c a b)
qed

lemma blit_filters_render_scene: "blit_filters (Paint_render_scene inp s) = []"
  by (simp add: Paint_render_scene_def blit_filters_Cons blit_filter_of_def)

lemma blit_filters_multisample_resolve: "blit_filters (Paint_multisample_resolve s) = [GL_NEAREST]"
  by (simp add: Paint_multisample_resolve_def blit_filters_Cons blit_filter_of_def)

lemma blit_filters_render_GUI: "blit_filters (Paint_render_GUI s) = []"
  by (simp add: Paint_render_GUI_def blit_filters_Cons blit_filter_of_def)

lemma blit_filters_upload_rows:
  "Paint_CPU_upload_rows s rows = Inr calls \<Longrightarrow> blit_filters calls = []"
  by (induction rows arbitrary: calls)
    (auto simp: and_then_Inr_iff blit_filters_Cons blit_filter_of_def)

lemma Paint_CPU_SAT_Inr:
  assumes "Paint_CPU_SAT inp s = Inr (s', calls)"
  shows "\<exists>readback table. s' = s\<lparr>mCPUBackbufferReadback := readback, mCPUSummedAreaTable := table\<rparr>"
    and "blit_filters calls = []"
proof -
  from assms obtain readback table sat upload where
    "s' = s\<lparr>mCPUBackbufferReadback := readback, mCPUSummedAreaTable := table\<rparr>"
    and up: "Paint_CPU_upload_rows s' [0..<nat (mBackbufferHeight s')] = Inr upload"
    and calls: "calls =
       [QueryPerformanceCounter CPUTimestamps_ReadbackBackbufferStart,
        glQueryCounter GPUTimestamps_ReadbackBackbufferStart GL_TIMESTAMP,
        glBindFramebuffer GL_READ_FRAMEBUFFER (mBackbufferFBOSS s),
        glReadPixels 0 0 (mBackbufferWidth s) (mBackbufferHeight s) GL_RGBA GL_UNSIGNED_BYTE,
        glBindFramebuffer GL_READ_FRAMEBUFFER 0,
        glQueryCounter GPUTimestamps_ReadbackBackbufferEnd GL_TIMESTAMP,
        QueryPerformanceCounter CPUTimestamps_ReadbackBackbufferEnd,
        QueryPerformanceCounter CPUTimestamps_ComputeSATStart,
        QueryPerformanceCounter CPUTimestamps_ComputeSATEnd,
        QueryPerformanceCounter CPUTimestamps_SATUploadStart,
        glQueryCounter GPUTimestamps_SATUploadStart GL_TIMESTAMP,
        glBindTexture GL_TEXTURE_2D sat] @
       upload @
       [glBindTexture GL_TEXTURE_2D 0,
        glQueryCounter GPUTimestamps_SATUploadEnd GL_TIMESTAMP,
        QueryPerformanceCounter CPUTimestamps_SATUploadEnd]"
    unfolding Paint_CPU_SAT_def and_then_Inr_iff Let_def by auto
  then show "\<exists>readback table. s' = s\<lparr>mCPUBackbufferReadback := readback, mCPUSummedAreaTable := table\<rparr>"
    by blast
  show "blit_filters calls = []"
    unfolding calls using blit_filters_upload_rows [OF up]
    by (simp add: blit_filters_Cons blit_filter_of_def)
qed

lemma blit_filters_GPU_upsweep:
  "Paint_GPU_upsweep P inp s pass = Inr calls \<Longrightarrow> blit_filters calls = []"
  by (cases pass)
    (auto simp: Paint_GPU_upsweep_def and_then_Inr_iff blit_filters_Cons blit_filter_of_def)

lemma blit_filters_GPU_downsweep:
  "Paint_GPU_downsweep P inp s pass = Inr calls \<Longrightarrow> blit_filters calls = []"
  by (cases pass)
    (auto simp: Paint_GPU_downsweep_def and_then_Inr_iff blit_filters_Cons blit_filter_of_def)

lemma blit_filters_GPU_transpose:
  "Paint_GPU_transpose P inp s pass = Inr calls \<Longrightarrow> blit_filters calls = []"
  by (cases pass)
    (auto simp: Paint_GPU_transpose_def and_then_Inr_iff blit_filters_Cons blit_filter_of_def)

lemma blit_filters_GPU_wgsums:
  "blit_filters (Paint_GPU_upsweep_wgsums inp s pass) = []"
  "blit_filters (Paint_GPU_downsweep_wgsums inp s pass) = []"
  by (cases pass; simp add: Paint_GPU_upsweep_wgsums_def Paint_GPU_downsweep_wgsums_def
      blit_filters_Cons blit_filter_of_def)+

lemma blit_filters_GPU_pass:
  assumes "Paint_GPU_pass P inp s pass = Inr calls"
  shows "blit_filters calls = []"
proof -
  from assms obtain step1 step4 step5 where
    "Paint_GPU_upsweep P inp s pass = Inr step1"
    "Paint_GPU_downsweep P inp s pass = Inr step4"
    "Paint_GPU_transpose P inp s pass = Inr step5"
    "calls = step1 @ Paint_GPU_upsweep_wgsums inp s pass @ Paint_GPU_downsweep_wgsums inp s pass @
          step4 @ step5"
    unfolding Paint_GPU_pass_def and_then_Inr_iff by auto
  then show ?thesis
    by (simp add: blit_filters_GPU_upsweep blit_filters_GPU_downsweep blit_filters_GPU_transpose
        blit_filters_GPU_wgsums)
qed

lemma blit_filters_GPU_SAT:
  "Paint_GPU_SAT P inp s = Inr calls \<Longrightarrow> blit_filters calls = []"
  by (auto simp: Paint_GPU_SAT_def and_then_Inr_iff blit_filters_Cons blit_filter_of_def
      dest: blit_filters_GPU_pass split: if_splits)

lemma blit_filters_DoF_blur:
  "Paint_DoF_blur inp s = Inr calls \<Longrightarrow> blit_filters calls = []"
  by (auto simp: Paint_DoF_blur_def and_then_Inr_iff blit_filters_Cons blit_filter_of_def
      split: if_splits)

lemma Paint_DoF_Inr:
  assumes "Paint_DoF P inp s = Inr (s', calls)"
  shows "\<exists>readback table. s' = s\<lparr>mCPUBackbufferReadback := readback, mCPUSummedAreaTable := table\<rparr>"
    and "blit_filters calls = []"
proof -
  have "(\<exists>readback table. s' = s\<lparr>mCPUBackbufferReadback := readback, mCPUSummedAreaTable := table\<rparr>) \<and>
      blit_filters calls = []"
  proof (cases "mEnableDoF s")
    case False
    with assms have "s' = s" "calls = []"
      by (simp_all add: Paint_DoF_def)
    then show ?thesis
      by (simp add: exI [of _ "mCPUBackbufferReadback s"] exI [of _ "mCPUSummedAreaTable s"])
  next
    case True
    show ?thesis
    proof (cases "mUseCPUForSAT s")
      case True
      with \<open>mEnableDoF s\<close> assms obtain sat blur where
        "Paint_CPU_SAT inp s = Inr (s', sat)" "Paint_DoF_blur inp s' = Inr blur" "calls = sat @ blur"
        by (auto simp: Paint_DoF_def and_then_Inr_iff)
      then show ?thesis
        using Paint_CPU_SAT_Inr [of inp s s' sat] blit_filters_DoF_blur [of inp s' blur] by simp
    next
      case False
      with \<open>mEnableDoF s\<close> assms obtain sat blur where
        "Paint_GPU_SAT P inp s = Inr sat" "Paint_DoF_blur inp s = Inr blur" "calls = sat @ blur"
        "s' = s"
        by (auto simp: Paint_DoF_def and_then_Inr_iff)
      then show ?thesis
        using blit_filters_GPU_SAT [of P inp s sat] blit_filters_DoF_blur [of inp s blur]
        by (simp add: exI [of _ "mCPUBackbufferReadback s"] exI [of _ "mCPUSummedAreaTable s"])
    qed
  qed
  then show "\<exists>readback table. s' = s\<lparr>mCPUBackbufferReadback := readback, mCPUSummedAreaTable := table\<rparr>"
    and "blit_filters calls = []"
    by simp_all
qed

lemma Paint_Inr:
  assumes "Paint P inp s = Inr (s', calls)"
  obtains s2 dof where "Paint_DoF P inp (fst (UpdateGUI (gui inp) s)) = Inr (s2, dof)"
    and "s' = s2\<lparr>mFirstFrame := False\<rparr>"
    and "calls = snd (UpdateGUI (gui inp) s) @
           Paint_render_scene inp (fst (UpdateGUI (gui inp) s)) @
           Paint_multisample_resolve (fst (UpdateGUI (gui inp) s)) @
           dof @ Paint_render_GUI s2 @ Paint_blit_to_window s2"
  using assms
  by (auto simp: Paint_def and_then_Inr_iff split: prod.splits)

lemma unscaled_UpdateGUI: "unscaled (fst (UpdateGUI g s)) = unscaled s"
  by (simp add: UpdateGUI_def Let_def unscaled_def)

lemma unscaled_Paint:
  assumes "Paint P inp s = Inr (s', calls)"
  shows "unscaled s' = unscaled s"
proof -
  from assms obtain s2 dof where
    d: "Paint_DoF P inp (fst (UpdateGUI (gui inp) s)) = Inr (s2, dof)"
    and s': "s' = s2\<lparr>mFirstFrame := False\<rparr>"
    by (rule Paint_Inr)
  from Paint_DoF_Inr(1) [OF d] have "unscaled s2 = unscaled (fst (UpdateGUI (gui inp) s))"
    by (auto simp: unscaled_def)
  moreover have "unscaled s' = unscaled s2"
    by (simp add: s' unscaled_def)
  ultimately show ?thesis
    by (simp only: unscaled_UpdateGUI)
qed

lemma reachable_unscaled: "reachable P s \<Longrightarrow> unscaled s"
proof (induction rule: reachable.induct)
  case reachable_new
  show ?case by (simp add: unscaled_def NewRenderer_def)
next
  case (reachable_Init s vao)
  then show ?case by (simp add: unscaled_def Init_def)
next
  case (reachable_Resize s heap width height n s' n' calls)
  from Resize_Inr(5-8) [OF reachable_Resize(2)] show ?case
    by (simp add: unscaled_def)
next
  case (reachable_Paint s inp s' calls)
  then show ?case by (simp add: unscaled_Paint)
qed

lemma Paint_blit_to_window_unscaled:
  "unscaled s \<Longrightarrow> Paint_blit_to_window s =
     [glQueryCounter GPUTimestamps_BlitToWindowStart GL_TIMESTAMP,
      glBindFramebuffer GL_READ_FRAMEBUFFER (mBackbufferFBOSS s),
      glBindFramebuffer GL_DRAW_FRAMEBUFFER 0,
      glBlitFramebuffer 0 0 (mBackbufferWidth s) (mBackbufferHeight s)
        0 0 (mWindowWidth s) (mWindowHeight s) {GL_COLOR_BUFFER_BIT} GL_NEAREST,
      glBindFramebuffer GL_FRAMEBUFFER 0,
      glQueryCounter GPUTimestamps_BlitToWindowEnd GL_TIMESTAMP]"
  by (simp add: Paint_blit_to_window_def unscaled_def)

text \<open>
  Claim C10. \<open>Resize\<close> makes the back buffer as large as the window, and no other
  member function changes either size; so in every state the renderer can reach the
  condition \<open>scaled\<close> of the final blit is false: the frame's two blits (the multisample
  resolve and the presentation) both use nearest-neighbour filtering, and the frame ends
  with the presentation blit from the back buffer to a window rectangle of the same size.
\<close>

theorem presentation_blit_is_nearest:
  "(Resize tile heap width height (s0, n) = Inr (s1, n1, calls1) \<longrightarrow>
      mBackbufferWidth s1 = mWindowWidth s1 \<and> mBackbufferHeight s1 = mWindowHeight s1) \<and>
   (reachable P s \<longrightarrow> Paint P inp s = Inr (s', calls) \<longrightarrow>
      blit_filters calls = [GL_NEAREST, GL_NEAREST] \<and>
      (\<exists>before. calls = before @
         [glQueryCounter GPUTimestamps_BlitToWindowStart GL_TIMESTAMP,
          glBindFramebuffer GL_READ_FRAMEBUFFER (mBackbufferFBOSS s'),
          glBindFramebuffer GL_DRAW_FRAMEBUFFER 0,
          glBlitFramebuffer 0 0 (mBackbufferWidth s') (mBackbufferHeight s')
            0 0 (mWindowWidth s') (mWindowHeight s') {GL_COLOR_BUFFER_BIT} GL_NEAREST,
          glBindFramebuffer GL_FRAMEBUFFER 0,
          glQueryCounter GPUTimestamps_BlitToWindowEnd GL_TIMESTAMP]))"
proof (intro conjI impI)
  assume "Resize tile heap width height (s0, n) = Inr (s1, n1, calls1)"
  from Resize_Inr(5-8) [OF this]
  show "mBackbufferWidth s1 = mWindowWidth s1" "mBackbufferHeight s1 = mWindowHeight s1"
    by simp_all
next
  assume r: "reachable P s" and p: "Paint P inp s = Inr (s', calls)"
  from p obtain s2 dof where
    d: "Paint_DoF P inp (fst (UpdateGUI (gui inp) s)) = Inr (s2, dof)"
    and s': "s' = s2\<lparr>mFirstFrame := False\<rparr>"
    and calls: "calls = snd (UpdateGUI (gui inp) s) @
           Paint_render_scene inp (fst (UpdateGUI (gui inp) s)) @
           Paint_multisample_resolve (fst (UpdateGUI (gui inp) s)) @
           dof @ Paint_render_GUI s2 @ Paint_blit_to_window s2"
    by (rule Paint_Inr)
  have "unscaled s'"
    using unscaled_Paint [OF p] reachable_unscaled [OF r] by simp
  then have u2: "unscaled s2"
    by (simp add: s' unscaled_def)
  note blit = Paint_blit_to_window_unscaled [OF u2]
  have "blit_filters (Paint_blit_to_window s2) = [GL_NEAREST]"
    unfolding blit by (simp add: blit_filters_Cons blit_filter_of_def)
  then show "blit_filters calls = [GL_NEAREST, GL_NEAREST]"
    using Paint_DoF_Inr(2) [OF d]
    by (simp add: calls blit_filters_UpdateGUI blit_filters_render_scene
        blit_filters_multisample_resolve blit_filters_render_GUI)
  show "\<exists>before. calls = before @
         [glQueryCounter GPUTimestamps_BlitToWindowStart GL_TIMESTAMP,
          glBindFramebuffer GL_READ_FRAMEBUFFER (mBackbufferFBOSS s'),
          glBindFramebuffer GL_DRAW_FRAMEBUFFER 0,
          glBlitFramebuffer 0 0 (mBackbufferWidth s') (mBackbufferHeight s')
            0 0 (mWindowWidth s') (mWindowHeight s') {GL_COLOR_BUFFER_BIT} GL_NEAREST,
          glBindFramebuffer GL_FRAMEBUFFER 0,
          glQueryCounter GPUTimestamps_BlitToWindowEnd GL_TIMESTAMP]"
    unfolding calls blit s'
    by (intro exI [of _ "snd (UpdateGUI (gui inp) s) @
           Paint_render_scene inp (fst (UpdateGUI (gui inp) s)) @
           Paint_multisample_resolve (fst (UpdateGUI (gui inp) s)) @
           dof @ Paint_render_GUI s2"]) simp
qed

subsection \<open>Stages whose program is not ready\<close>

lemma gpu_work_append [simp]: "gpu_work (xs @ ys) = gpu_work xs @ gpu_work ys"
  by (simp add: gpu_work_def)

lemma gpu_work_Nil [simp]: "gpu_work [] = []"
  by (simp add: gpu_work_def)

lemma gpu_work_Cons: "gpu_work (c # cs) = work_of c @ gpu_work cs"
  by (simp add: gpu_work_def)

lemma gpu_work_mem: "c \<in> set calls \<Longrightarrow> work_of c = [c] \<Longrightarrow> c \<in> set (gpu_work calls)"
  by (induction calls) (auto simp: gpu_work_Cons)

lemma gpu_work_UpdateGUI: "gpu_work (snd (UpdateGUI g s)) = []"
proof -
  have a: "gpu_work (UpdateGUI_GPU_time s i) = []" for i
    by (simp add: UpdateGUI_GPU_time_def Let_def gpu_work_Cons work_of_def)
  have b: "gpu_work (UpdateGUI_CPU_time s i) = []" for i
    by (simp add: UpdateGUI_CPU_time_def gpu_work_Cons work_of_def)
  have c: "gpu_work (concat (map f xs)) = []" if "\<And>i. gpu_work (f i) = []" for f and xs :: "nat list"
    using that by (induction xs) simp_all
  show ?thesis
    by (simp add: UpdateGUI_def Let_def c a b)
qed

lemma gpu_work_render_scene:
  "gpu_work (Paint_render_scene inp s) = (if SceneSP inp \<noteq> 0 then [SceneDrawCalls] else [])"
  by (simp add: Paint_render_scene_def gpu_work_Cons work_of_def)

lemma gpu_work_multisample_resolve: "gpu_work (Paint_multisample_resolve s) = []"
  by (simp add: Paint_multisample_resolve_def gpu_work_Cons work_of_def)

lemma gpu_work_render_GUI: "gpu_work (Paint_render_GUI s) = []"
  by (simp add: Paint_render_GUI_def gpu_work_Cons work_of_def)

lemma gpu_work_blit_to_window: "gpu_work (Paint_blit_to_window s) = []"
  by (simp add: Paint_blit_to_window_def Let_def gpu_work_Cons work_of_def)

lemma gpu_work_upload_rows:
  "Paint_CPU_upload_rows s rows = Inr calls \<Longrightarrow> gpu_work calls = []"
  by (induction rows arbitrary: calls)
    (auto simp: and_then_Inr_iff gpu_work_Cons work_of_def)

lemma gpu_work_CPU_SAT:
  assumes "Paint_CPU_SAT inp s = Inr (s', calls)"
  shows "gpu_work calls = []"
proof -
  from assms obtain sat upload where
    up: "Paint_CPU_upload_rows s' [0..<nat (mBackbufferHeight s')] = Inr upload"
    and calls: "calls =
       [QueryPerformanceCounter CPUTimestamps_ReadbackBackbufferStart,
        glQueryCounter GPUTimestamps_ReadbackBackbufferStart GL_TIMESTAMP,
        glBindFramebuffer GL_READ_FRAMEBUFFER (mBackbufferFBOSS s),
        glReadPixels 0 0 (mBackbufferWidth s) (mBackbufferHeight s) GL_RGBA GL_UNSIGNED_BYTE,
        glBindFramebuffer GL_READ_FRAMEBUFFER 0,
        glQueryCounter GPUTimestamps_ReadbackBackbufferEnd GL_TIMESTAMP,
        QueryPerformanceCounter CPUTimestamps_ReadbackBackbufferEnd,
        QueryPerformanceCounter CPUTimestamps_ComputeSATStart,
        QueryPerformanceCounter CPUTimestamps_ComputeSATEnd,
        QueryPerformanceCounter CPUTimestamps_SATUploadStart,
        glQueryCounter GPUTimestamps_SATUploadStart GL_TIMESTAMP,
        glBindTexture GL_TEXTURE_2D sat] @
       upload @
       [glBindTexture GL_TEXTURE_2D 0,
        glQueryCounter GPUTimestamps_SATUploadEnd GL_TIMESTAMP,
        QueryPerformanceCounter CPUTimestamps_SATUploadEnd]"
    unfolding Paint_CPU_SAT_def and_then_Inr_iff Let_def by auto
  show ?thesis
    unfolding calls using gpu_work_upload_rows [OF up]
    by (simp add: gpu_work_Cons work_of_def)
qed

lemma gpu_work_GPU_SAT_skipped:
  assumes "SummedAreaTableUpsweepSP inp = 0 \<or> SummedAreaTableDownsweepSP inp = 0 \<or>
           TransposeSummedAreaTableSP inp = 0"
  shows "Paint_GPU_SAT P inp s =
           Inr [glQueryCounter GPUTimestamps_ComputeSATStart GL_TIMESTAMP,
                glQueryCounter GPUTimestamps_ComputeSATEnd GL_TIMESTAMP]"
  using assms by (auto simp: Paint_GPU_SAT_def)

lemma Paint_DoF_blur_skipped:
  assumes "DepthOfFieldSP inp = 0"
  shows "Paint_DoF_blur inp s =
           Inr [glQueryCounter GPUTimestamps_DOFBlurStart GL_TIMESTAMP,
                glQueryCounter GPUTimestamps_DOFBlurEnd GL_TIMESTAMP]"
  using assms by (simp add: Paint_DoF_blur_def)

lemma Paint_render_scene_skipped:
  assumes "SceneSP inp = 0"
  shows "Paint_render_scene inp s =
           [glQueryCounter GPUTimestamps_RenderSceneStart GL_TIMESTAMP,
            glQueryCounter GPUTimestamps_RenderSceneEnd GL_TIMESTAMP]"
  using assms by (simp add: Paint_render_scene_def)

lemma gpu_work_DoF_blur:
  assumes "Paint_DoF_blur inp s = Inr calls"
  shows "gpu_work calls = (if DepthOfFieldSP inp \<noteq> 0 then [glDrawArrays GL_TRIANGLES 0 3] else [])"
  using assms
  by (auto simp: Paint_DoF_blur_def and_then_Inr_iff gpu_work_Cons work_of_def split: if_splits)

lemma gpu_work_GPU_upsweep:
  "Paint_GPU_upsweep P inp s pass = Inr calls \<Longrightarrow> \<exists>x y z. gpu_work calls = [glDispatchCompute x y z]"
  by (cases pass)
    (auto simp: Paint_GPU_upsweep_def and_then_Inr_iff gpu_work_Cons work_of_def)

lemma gpu_work_GPU_downsweep:
  "Paint_GPU_downsweep P inp s pass = Inr calls \<Longrightarrow> \<exists>x y z. gpu_work calls = [glDispatchCompute x y z]"
  by (cases pass)
    (auto simp: Paint_GPU_downsweep_def and_then_Inr_iff gpu_work_Cons work_of_def)

lemma gpu_work_GPU_transpose:
  "Paint_GPU_transpose P inp s pass = Inr calls \<Longrightarrow> \<exists>x y z. gpu_work calls = [glDispatchCompute x y z]"
  by (cases pass)
    (auto simp: Paint_GPU_transpose_def and_then_Inr_iff gpu_work_Cons work_of_def)

lemma gpu_work_GPU_wgsums:
  "\<exists>x y z. gpu_work (Paint_GPU_upsweep_wgsums inp s pass) = [glDispatchCompute x y z]"
  "\<exists>x y z. gpu_work (Paint_GPU_downsweep_wgsums inp s pass) = [glDispatchCompute x y z]"
  by (cases pass; simp add: Paint_GPU_upsweep_wgsums_def Paint_GPU_downsweep_wgsums_def
      gpu_work_Cons work_of_def)+

lemma dispatches_GPU_pass:
  assumes "Paint_GPU_pass P inp s pass = Inr calls"
  shows "list_all is_dispatch (gpu_work calls)"
proof -
  from assms obtain step1 step4 step5 where
    s: "Paint_GPU_upsweep P inp s pass = Inr step1"
    "Paint_GPU_downsweep P inp s pass = Inr step4"
    "Paint_GPU_transpose P inp s pass = Inr step5"
    and calls: "calls = step1 @ Paint_GPU_upsweep_wgsums inp s pass @
          Paint_GPU_downsweep_wgsums inp s pass @ step4 @ step5"
    unfolding Paint_GPU_pass_def and_then_Inr_iff by auto
  show ?thesis
    unfolding calls
    using gpu_work_GPU_upsweep [OF s(1)] gpu_work_GPU_downsweep [OF s(2)]
      gpu_work_GPU_transpose [OF s(3)] gpu_work_GPU_wgsums [of inp s pass]
    by (auto simp: is_dispatch_def)
qed

lemma dispatches_GPU_SAT:
  assumes "Paint_GPU_SAT P inp s = Inr calls"
  shows "list_all is_dispatch (gpu_work calls)"
proof (cases "SummedAreaTableUpsweepSP inp \<noteq> 0 \<and> SummedAreaTableDownsweepSP inp \<noteq> 0 \<and>
           TransposeSummedAreaTableSP inp \<noteq> 0")
  case True
  with assms obtain rows cols where
    "Paint_GPU_pass P inp s SATPass_Rows = Inr rows" "Paint_GPU_pass P inp s SATPass_Cols = Inr cols"
    "calls = [glQueryCounter GPUTimestamps_ComputeSATStart GL_TIMESTAMP] @ (rows @ cols) @
          [glQueryCounter GPUTimestamps_ComputeSATEnd GL_TIMESTAMP]"
    by (auto simp: Paint_GPU_SAT_def and_then_Inr_iff)
  then show ?thesis
    using dispatches_GPU_pass by (simp add: gpu_work_Cons work_of_def)
next
  case False
  then have "calls = [glQueryCounter GPUTimestamps_ComputeSATStart GL_TIMESTAMP,
                glQueryCounter GPUTimestamps_ComputeSATEnd GL_TIMESTAMP]"
    using assms gpu_work_GPU_SAT_skipped [of inp P s] by auto
  then show ?thesis
    by (simp add: gpu_work_Cons work_of_def)
qed

lemma gpu_work_DoF:
  assumes "Paint_DoF P inp s = Inr (s', calls)"
  shows "\<exists>sat. gpu_work calls =
           sat @ (if mEnableDoF s \<and> DepthOfFieldSP inp \<noteq> 0 then [glDrawArrays GL_TRIANGLES 0 3] else []) \<and>
           list_all is_dispatch sat \<and>
           (SummedAreaTableUpsweepSP inp = 0 \<or> SummedAreaTableDownsweepSP inp = 0 \<or>
            TransposeSummedAreaTableSP inp = 0 \<longrightarrow> sat = [])"
proof (cases "mEnableDoF s")
  case False
  with assms have "calls = []"
    by (simp add: Paint_DoF_def)
  with False show ?thesis by simp
next
  case True
  show ?thesis
  proof (cases "mUseCPUForSAT s")
    case True
    with \<open>mEnableDoF s\<close> assms obtain sat blur where
      "Paint_CPU_SAT inp s = Inr (s', sat)" "Paint_DoF_blur inp s' = Inr blur" "calls = sat @ blur"
      by (auto simp: Paint_DoF_def and_then_Inr_iff)
    then show ?thesis
      using gpu_work_CPU_SAT [of inp s s' sat] gpu_work_DoF_blur [of inp s' blur] \<open>mEnableDoF s\<close>
      by simp
  next
    case False
    with \<open>mEnableDoF s\<close> assms obtain sat blur where
      sat: "Paint_GPU_SAT P inp s = Inr sat" and "Paint_DoF_blur inp s = Inr blur"
      "calls = sat @ blur"
      by (auto simp: Paint_DoF_def and_then_Inr_iff)
    moreover have "gpu_work sat = []"
      if "SummedAreaTableUpsweepSP inp = 0 \<or> SummedAreaTableDownsweepSP inp = 0 \<or>
            TransposeSummedAreaTableSP inp = 0"
      using sat gpu_work_GPU_SAT_skipped [OF that, of P s]
      by (auto simp: gpu_work_Cons work_of_def)
    ultimately show ?thesis
      using dispatches_GPU_SAT [OF sat] gpu_work_DoF_blur [of inp s blur] \<open>mEnableDoF s\<close>
      by (intro exI [of _ "gpu_work sat"]) simp
  qed
qed

lemma gpu_work_Paint:
  assumes "Paint P inp s = Inr (s', calls)"
  shows "\<exists>sat. gpu_work calls =
           (if SceneSP inp \<noteq> 0 then [SceneDrawCalls] else []) @ sat @
           (if mEnableDoF s' \<and> DepthOfFieldSP inp \<noteq> 0 then [glDrawArrays GL_TRIANGLES 0 3] else []) \<and>
           list_all is_dispatch sat \<and>
           (SummedAreaTableUpsweepSP inp = 0 \<or> SummedAreaTableDownsweepSP inp = 0 \<or>
            TransposeSummedAreaTableSP inp = 0 \<longrightarrow> sat = [])"
proof -
  from assms obtain s2 dof where
    d: "Paint_DoF P inp (fst (UpdateGUI (gui inp) s)) = Inr (s2, dof)"
    and s': "s' = s2\<lparr>mFirstFrame := False\<rparr>"
    and calls: "calls = snd (UpdateGUI (gui inp) s) @
           Paint_render_scene inp (fst (UpdateGUI (gui inp) s)) @
           Paint_multisample_resolve (fst (UpdateGUI (gui inp) s)) @
           dof @ Paint_render_GUI s2 @ Paint_blit_to_window s2"
    by (rule Paint_Inr)
  from Paint_DoF_Inr(1) [OF d] obtain readback table where
    "s2 = (fst (UpdateGUI (gui inp) s))\<lparr>mCPUBackbufferReadback := readback, mCPUSummedAreaTable := table\<rparr>"
    by blast
  then have e: "mEnableDoF s' = mEnableDoF (fst (UpdateGUI (gui inp) s))"
    by (simp add: s')
  have w: "gpu_work calls =
      (if SceneSP inp \<noteq> 0 then [SceneDrawCalls] else []) @ gpu_work dof"
    unfolding calls gpu_work_append gpu_work_UpdateGUI gpu_work_render_scene
      gpu_work_multisample_resolve gpu_work_render_GUI gpu_work_blit_to_window
    by simp
  from gpu_work_DoF [OF d, folded e] show ?thesis
  proof (elim exE conjE)
    fix sat
    assume "gpu_work dof = sat @
        (if mEnableDoF s' \<and> DepthOfFieldSP inp \<noteq> 0 then [glDrawArrays GL_TRIANGLES 0 3] else [])"
      and "list_all is_dispatch sat"
      and "SummedAreaTableUpsweepSP inp = 0 \<or> SummedAreaTableDownsweepSP inp = 0 \<or>
            TransposeSummedAreaTableSP inp = 0 \<longrightarrow> sat = []"
    then show ?thesis
      unfolding w by (intro exI [of _ sat]) (simp only: simp_thms)
  qed
qed

lemma Paint_GPU_pass_succeeds_any_input:
  assumes "Paint_GPU_pass P inp s pass = Inr calls"
  shows "\<exists>calls'. Paint_GPU_pass P inp' s pass = Inr calls'"
proof -
  from assms obtain step1 step4 step5 where
    s: "Paint_GPU_upsweep P inp s pass = Inr step1"
    "Paint_GPU_downsweep P inp s pass = Inr step4"
    "Paint_GPU_transpose P inp s pass = Inr step5"
    unfolding Paint_GPU_pass_def and_then_Inr_iff by auto
  have "\<exists>c. Paint_GPU_upsweep P inp' s pass = Inr c"
    using s(1) by (cases pass) (auto simp: Paint_GPU_upsweep_def and_then_Inr_iff)
  moreover have "\<exists>c. Paint_GPU_downsweep P inp' s pass = Inr c"
    using s(2) by (cases pass) (auto simp: Paint_GPU_downsweep_def and_then_Inr_iff)
  moreover have "\<exists>c. Paint_GPU_transpose P inp' s pass = Inr c"
    using s(3) by (cases pass) (auto simp: Paint_GPU_transpose_def and_then_Inr_iff)
  ultimately show ?thesis
    by (auto simp: Paint_GPU_pass_def)
qed

lemma Paint_GPU_SAT_succeeds_programs_missing:
  assumes "Paint_GPU_SAT P inp s = Inr calls" and "programs_missing inp inp'"
  shows "\<exists>calls'. Paint_GPU_SAT P inp' s = Inr calls'"
proof (cases "SummedAreaTableUpsweepSP inp' \<noteq> 0 \<and> SummedAreaTableDownsweepSP inp' \<noteq> 0 \<and>
           TransposeSummedAreaTableSP inp' \<noteq> 0")
  case False
  then show ?thesis
    using gpu_work_GPU_SAT_skipped [of inp' P s] by auto
next
  case True
  with assms(2) have "SummedAreaTableUpsweepSP inp \<noteq> 0 \<and> SummedAreaTableDownsweepSP inp \<noteq> 0 \<and>
           TransposeSummedAreaTableSP inp \<noteq> 0"
    by (auto simp: programs_missing_def)
  with assms(1) obtain rows cols where
    "Paint_GPU_pass P inp s SATPass_Rows = Inr rows" "Paint_GPU_pass P inp s SATPass_Cols = Inr cols"
    by (auto simp: Paint_GPU_SAT_def and_then_Inr_iff)
  then obtain rows' cols' where
    "Paint_GPU_pass P inp' s SATPass_Rows = Inr rows'" "Paint_GPU_pass P inp' s SATPass_Cols = Inr cols'"
    using Paint_GPU_pass_succeeds_any_input [of P inp s _ _ inp'] by meson
  with True show ?thesis
    by (simp add: Paint_GPU_SAT_def)
qed

lemma Paint_DoF_blur_succeeds_programs_missing:
  assumes "Paint_DoF_blur inp s = Inr calls" and "programs_missing inp inp'"
  shows "\<exists>calls'. Paint_DoF_blur inp' s = Inr calls'"
proof (cases "DepthOfFieldSP inp' = 0")
  case True
  then show ?thesis
    by (simp add: Paint_DoF_blur_skipped)
next
  case False
  with assms(2) have "DepthOfFieldSP inp \<noteq> 0"
    by (auto simp: programs_missing_def)
  with assms(1) obtain sat where "deref_mSummedAreaTableTO s = Inr sat"
    by (auto simp: Paint_DoF_blur_def and_then_Inr_iff)
  with False show ?thesis
    by (simp add: Paint_DoF_blur_def)
qed

lemma Paint_CPU_SAT_programs_missing:
  "programs_missing inp inp' \<Longrightarrow> Paint_CPU_SAT inp' s = Paint_CPU_SAT inp s"
  by (auto simp: programs_missing_def Paint_CPU_SAT_def)

lemma Paint_DoF_succeeds_programs_missing:
  assumes "Paint_DoF P inp s = Inr (s', calls)" and "programs_missing inp inp'"
  shows "\<exists>calls'. Paint_DoF P inp' s = Inr (s', calls')"
proof (cases "mEnableDoF s")
  case False
  with assms(1) show ?thesis
    by (simp add: Paint_DoF_def)
next
  case True
  show ?thesis
  proof (cases "mUseCPUForSAT s")
    case True
    with \<open>mEnableDoF s\<close> assms(1) obtain sat blur where
      c: "Paint_CPU_SAT inp s = Inr (s', sat)" and b: "Paint_DoF_blur inp s' = Inr blur"
      by (auto simp: Paint_DoF_def and_then_Inr_iff)
    from Paint_DoF_blur_succeeds_programs_missing [OF b assms(2)] obtain blur' where
      "Paint_DoF_blur inp' s' = Inr blur'" ..
    with c True \<open>mEnableDoF s\<close> show ?thesis
      by (simp add: Paint_DoF_def Paint_CPU_SAT_programs_missing [OF assms(2)])
  next
    case False
    with \<open>mEnableDoF s\<close> assms(1) obtain sat blur where
      g: "Paint_GPU_SAT P inp s = Inr sat" and b: "Paint_DoF_blur inp s = Inr blur" and "s' = s"
      by (auto simp: Paint_DoF_def and_then_Inr_iff)
    from Paint_DoF_blur_succeeds_programs_missing [OF b assms(2)] obtain blur' where
      "Paint_DoF_blur inp' s = Inr blur'" ..
    moreover from Paint_GPU_SAT_succeeds_programs_missing [OF g assms(2)] obtain sat' where
      "Paint_GPU_SAT P inp' s = Inr sat'" ..
    ultimately show ?thesis
      using False \<open>mEnableDoF s\<close> \<open>s' = s\<close> by (simp add: Paint_DoF_def)
  qed
qed

lemma Paint_succeeds_programs_missing:
  assumes "Paint P inp s = Inr (s', calls)" and "programs_missing inp inp'"
  shows "\<exists>calls'. Paint P inp' s = Inr (s', calls')"
proof -
  from assms(1) obtain s2 dof where
    d: "Paint_DoF P inp (fst (UpdateGUI (gui inp) s)) = Inr (s2, dof)"
    and s': "s' = s2\<lparr>mFirstFrame := False\<rparr>"
    by (rule Paint_Inr)
  have g: "gui inp' = gui inp"
    using assms(2) by (auto simp: programs_missing_def)
  obtain s1 gc where u: "UpdateGUI (gui inp) s = (s1, gc)"
    by (cases "UpdateGUI (gui inp) s")
  from Paint_DoF_succeeds_programs_missing [OF d assms(2)] obtain dof' where
    "Paint_DoF P inp' s1 = Inr (s2, dof')"
    unfolding u by auto
  then show ?thesis
    by (simp add: Paint_def g u s')
qed

lemma Paint_render_GUI_mFirstFrame [simp]:
  "Paint_render_GUI (s\<lparr>mFirstFrame := b\<rparr>) = Paint_render_GUI s"
  by (simp add: Paint_render_GUI_def)

lemma Paint_blit_to_window_mFirstFrame [simp]:
  "Paint_blit_to_window (s\<lparr>mFirstFrame := b\<rparr>) = Paint_blit_to_window s"
  by (simp add: Paint_blit_to_window_def)

lemma Paint_stages:
  assumes "Paint P inp s = Inr (s', calls)"
  shows "\<exists>dof. calls = snd (UpdateGUI (gui inp) s) @
           Paint_render_scene inp (fst (UpdateGUI (gui inp) s)) @
           Paint_multisample_resolve (fst (UpdateGUI (gui inp) s)) @
           dof @ Paint_render_GUI s' @ Paint_blit_to_window s'"
proof -
  from assms obtain s2 dof where
    "s' = s2\<lparr>mFirstFrame := False\<rparr>"
    "calls = snd (UpdateGUI (gui inp) s) @
           Paint_render_scene inp (fst (UpdateGUI (gui inp) s)) @
           Paint_multisample_resolve (fst (UpdateGUI (gui inp) s)) @
           dof @ Paint_render_GUI s2 @ Paint_blit_to_window s2"
    by (rule Paint_Inr)
  then show ?thesis
    by simp
qed

lemma Paint_stages_programs_missing:
  assumes "Paint P inp s = Inr (s', calls)" and "programs_missing inp inp'"
  shows "\<exists>dof'. Paint P inp' s =
           Inr (s', snd (UpdateGUI (gui inp) s) @
             Paint_render_scene inp' (fst (UpdateGUI (gui inp) s)) @
             Paint_multisample_resolve (fst (UpdateGUI (gui inp) s)) @
             dof' @ Paint_render_GUI s' @ Paint_blit_to_window s')"
proof -
  from Paint_succeeds_programs_missing [OF assms] obtain calls' where
    p: "Paint P inp' s = Inr (s', calls')" ..
  have g: "gui inp' = gui inp"
    using assms(2) by (auto simp: programs_missing_def)
  from Paint_stages [OF p] show ?thesis
    unfolding g p by simp
qed

lemma Paint_returns_without_programs:
  assumes "SummedAreaTableUpsweepSP inp = 0 \<or> SummedAreaTableDownsweepSP inp = 0 \<or>
           TransposeSummedAreaTableSP inp = 0"
    and "DepthOfFieldSP inp = 0"
    and "\<not> mUseCPUForSAT (fst (UpdateGUI (gui inp) s))"
  shows "\<exists>s' calls. Paint P inp s = Inr (s', calls)"
proof -
  obtain s1 gc where u: "UpdateGUI (gui inp) s = (s1, gc)"
    by (cases "UpdateGUI (gui inp) s")
  with assms(3) have c: "\<not> mUseCPUForSAT s1"
    by simp
  have "\<exists>r. Paint_DoF P inp s1 = Inr r"
    using c by (simp add: Paint_DoF_def gpu_work_GPU_SAT_skipped [OF assms(1)]
        Paint_DoF_blur_skipped [OF assms(2)])
  then obtain s2 dof where "Paint_DoF P inp s1 = Inr (s2, dof)"
    by auto
  then show ?thesis
    by (simp add: Paint_def u)
qed


lemma Resize_alias:
  assumes "Resize tile heap width height (s, n) = Inr (s', n', calls)"
  shows "mSummedAreaTableTO s' = Some SummedRowsTO"
proof -
  obtain s2 n2 ms where ms: "Resize_multisampled_FBO
      (s\<lparr>mWindowWidth := width, mWindowHeight := height,
         mBackbufferWidth := width, mBackbufferHeight := height\<rparr>, n) = (s2, n2, ms)"
    by (metis prod_cases3)
  obtain s3 n3 ss where ss: "Resize_singlesampled_FBO (s2, n2) = (s3, n3, ss)"
    by (metis prod_cases3)
  from assms ms ss obtain sat where
    "Resize_summed_area_table tile heap (s3, n3) = Inr (s', n', sat)"
    by (auto simp: Resize_def and_then_Inr_iff)
  then show ?thesis
    by (auto simp: Resize_summed_area_table_def and_then_Inr_iff Let_def)
qed

lemma Paint_GPU_pass_succeeds:
  assumes "div_int (mSummedAreaTableWidth s) (SAT_WORKGROUP_SIZE_X P) = Inr a"
    and "div_int (mSummedAreaTableHeight s) (SAT_WORKGROUP_SIZE_X P) = Inr b"
    and "div_int (mSummedAreaTableWidth s) (TRANSPOSE_SAT_WORKGROUP_SIZE_X P) = Inr c"
    and "div_int (mSummedAreaTableHeight s) (TRANSPOSE_SAT_WORKGROUP_SIZE_X P) = Inr d"
    and "mSummedAreaTableTO s = Some m"
  shows "\<exists>calls. Paint_GPU_pass P inp s pass = Inr calls"
proof -
  have "\<exists>sat. deref_mSummedAreaTableTO s = Inr sat"
    using assms(5) by (cases m) (simp_all add: deref_mSummedAreaTableTO_def)
  then obtain sat where "deref_mSummedAreaTableTO s = Inr sat" ..
  then show ?thesis
    using assms(1-4)
    by (cases pass)
      (simp_all add: Paint_GPU_pass_def Paint_GPU_upsweep_def Paint_GPU_downsweep_def
        Paint_GPU_transpose_def)
qed

lemma Paint_device_path_succeeds:
  assumes "div_int (mSummedAreaTableWidth s) (SAT_WORKGROUP_SIZE_X P) = Inr a"
    and "div_int (mSummedAreaTableHeight s) (SAT_WORKGROUP_SIZE_X P) = Inr b"
    and "div_int (mSummedAreaTableWidth s) (TRANSPOSE_SAT_WORKGROUP_SIZE_X P) = Inr c"
    and "div_int (mSummedAreaTableHeight s) (TRANSPOSE_SAT_WORKGROUP_SIZE_X P) = Inr d"
    and "mSummedAreaTableTO s = Some m"
    and "\<not> mUseCPUForSAT (fst (UpdateGUI (gui inp) s))"
  shows "\<exists>s' calls. Paint P inp s = Inr (s', calls)"
proof -
  obtain s1 gc where u: "UpdateGUI (gui inp) s = (s1, gc)"
    by (cases "UpdateGUI (gui inp) s")
  then have s1: "mSummedAreaTableWidth s1 = mSummedAreaTableWidth s"
      "mSummedAreaTableHeight s1 = mSummedAreaTableHeight s"
      "mSummedAreaTableTO s1 = mSummedAreaTableTO s" "\<not> mUseCPUForSAT s1"
    using assms(6) by (auto simp: UpdateGUI_def Let_def split: if_splits)
  have pass: "\<exists>calls. Paint_GPU_pass P inp s1 pass = Inr calls" for pass
    using assms(1-5) by (intro Paint_GPU_pass_succeeds [of s1 P a b c d m]) (simp_all add: s1)
  obtain rows cols where "Paint_GPU_pass P inp s1 SATPass_Rows = Inr rows"
      "Paint_GPU_pass P inp s1 SATPass_Cols = Inr cols"
    using pass by meson
  then have "\<exists>sat. Paint_GPU_SAT P inp s1 = Inr sat"
    by (simp add: Paint_GPU_SAT_def)
  then obtain sat where sat: "Paint_GPU_SAT P inp s1 = Inr sat" ..
  have "\<exists>x. deref_mSummedAreaTableTO s1 = Inr x"
    using assms(5) s1(3) by (cases m) (simp_all add: deref_mSummedAreaTableTO_def)
  then have "\<exists>blur. Paint_DoF_blur inp s1 = Inr blur"
    by (auto simp: Paint_DoF_blur_def)
  then obtain blur where "Paint_DoF_blur inp s1 = Inr blur" ..
  with sat s1(4) have "\<exists>r. Paint_DoF P inp s1 = Inr r"
    by (simp add: Paint_DoF_def)
  then obtain s2 dof where "Paint_DoF P inp s1 = Inr (s2, dof)"
    by auto
  then show ?thesis
    by (simp add: Paint_def u)
qed

lemma div_int_8_4: "div_int 8 4 = Inr 2"
  by (simp add: div_int_def checked_def INT_MIN_def INT_MAX_def)

lemma example_frame:
  assumes "Resize 4 heap 8 8 (s, n) = Inr (s1, n1, c1)"
  shows "\<exists>s2 calls. Paint example_preamble example_input s1 = Inr (s2, calls)"
proof -
  have "mSummedAreaTableWidth s1 = 8" "mSummedAreaTableHeight s1 = 8"
    using Resize_Inr(1,2) [OF assms] by (simp_all add: round_up_4_8)
  then show ?thesis
    using Resize_alias [OF assms]
    by (intro Paint_device_path_succeeds [of s1 example_preamble 2 2 2 2 SummedRowsTO])
      (simp_all add: example_preamble_def example_input_def example_gui_def div_int_8_4
        UpdateGUI_def Let_def)
qed

theorem presentation_blit_is_nearest_witness:
  "\<exists>s1 n1 c1 s2 calls.
     Resize 4 zero_heap 8 8 (Init 1 NewRenderer, first_names) = Inr (s1, n1, c1) \<and>
     mBackbufferWidth s1 = mWindowWidth s1 \<and> mBackbufferHeight s1 = mWindowHeight s1 \<and>
     reachable example_preamble s1 \<and>
     Paint example_preamble example_input s1 = Inr (s2, calls) \<and>
     blit_filters calls = [GL_NEAREST, GL_NEAREST]"
proof -
  obtain s1 n1 c1 where
    r: "Resize 4 zero_heap 8 8 (Init 1 NewRenderer, first_names) = Inr (s1, n1, c1)"
    using Resize_succeeds [of 2 8 8 zero_heap "Init 1 NewRenderer" first_names]
    by (auto simp: INT_MAX_def pad_def)
  from example_frame [OF r] obtain s2 calls where
    p: "Paint example_preamble example_input s1 = Inr (s2, calls)"
    by auto
  have reach: "reachable example_preamble s1"
    using r
    by (intro reachable_Resize [of example_preamble "Init 1 NewRenderer" zero_heap 8 8 first_names s1 n1 c1]
        reachable_Init reachable_new)
      (simp add: example_preamble_def)
  note t = presentation_blit_is_nearest [of 4 zero_heap 8 8 "Init 1 NewRenderer" first_names
      s1 n1 c1 example_preamble s1 example_input s2 calls]
  from t r have "mBackbufferWidth s1 = mWindowWidth s1" "mBackbufferHeight s1 = mWindowHeight s1"
    by (simp_all only: simp_thms)
  moreover from t reach p have "blit_filters calls = [GL_NEAREST, GL_NEAREST]"
    by (simp only: simp_thms)
  ultimately show ?thesis
    using r reach p by (intro exI conjI) assumption+
qed


subsection \<open>Barriers between the steps of the scan\<close>

lemma example_state_Resize:
  "\<exists>n calls. Resize 4 zero_heap 8 8 (Init 1 NewRenderer, first_names) = Inr (example_state, n, calls)"
proof -
  have "round_up_to_workgroup 4 8 = Inr 8"
    by (rule round_up_4_8)
  moreover have "div_int 8 4 = Inr 2"
    by (rule div_int_8_4)
  moreover have "mul_int 8 8 = Inr 64"
    by (simp add: mul_int_def checked_def INT_MIN_def INT_MAX_def)
  ultimately show ?thesis
    by (simp add: Resize_def Resize_multisampled_FBO_def Resize_singlesampled_FBO_def
        Resize_summed_area_table_def assert_single_workgroup_def new_array_def Let_def
        Init_def NewRenderer_def first_names_def example_state_def del: upt_rec_numeral)
qed

lemma sync_run_append:
  "sync_run (xs @ ys) st = (case sync_run xs st of None \<Rightarrow> None | Some st' \<Rightarrow> sync_run ys st')"
  by (induction xs arbitrary: st) (auto split: option.splits)

lemma sync_upsweep:
  assumes "Paint_GPU_upsweep P inp s pass = Inr calls"
  shows "\<exists>tb. sync_run calls (since, {}, {}) = Some ({}, tb, {}) \<and>
           tb \<subseteq> {SAT_UINT_INPUT_TEXTURE_BINDING}"
  using assms
  by (cases pass) (auto simp: Paint_GPU_upsweep_def and_then_Inr_iff sync_step_def)

lemma sync_upsweep_wgsums:
  assumes "tb \<subseteq> {SAT_UINT_INPUT_TEXTURE_BINDING}"
  shows "sync_run (Paint_GPU_upsweep_wgsums inp s pass) (since, tb, {}) = Some ({}, {}, {})"
  using assms
  by (cases pass) (auto simp: Paint_GPU_upsweep_wgsums_def sync_step_def)

lemma sync_downsweep_wgsums:
  "sync_run (Paint_GPU_downsweep_wgsums inp s pass) (since, {}, {}) = Some ({}, {}, {})"
  by (cases pass) (auto simp: Paint_GPU_downsweep_wgsums_def sync_step_def)

lemma sync_downsweep:
  assumes "Paint_GPU_downsweep P inp s pass = Inr calls"
  shows "sync_run calls (since, {}, {}) = Some ({}, {}, {})"
  using assms
  by (cases pass) (auto simp: Paint_GPU_downsweep_def and_then_Inr_iff sync_step_def)

lemma sync_transpose:
  assumes "Paint_GPU_transpose P inp s pass = Inr calls"
  shows "sync_run calls (since, {}, {}) = Some ({}, {}, {})"
  using assms
  by (cases pass) (auto simp: Paint_GPU_transpose_def and_then_Inr_iff sync_step_def)

lemma sync_GPU_pass:
  assumes "Paint_GPU_pass P inp s pass = Inr calls"
  shows "sync_run calls (since, {}, {}) = Some ({}, {}, {})"
proof -
  from assms obtain step1 step4 step5 where
    s: "Paint_GPU_upsweep P inp s pass = Inr step1"
    "Paint_GPU_downsweep P inp s pass = Inr step4"
    "Paint_GPU_transpose P inp s pass = Inr step5"
    and calls: "calls = step1 @ Paint_GPU_upsweep_wgsums inp s pass @
          Paint_GPU_downsweep_wgsums inp s pass @ step4 @ step5"
    unfolding Paint_GPU_pass_def and_then_Inr_iff by auto
  from sync_upsweep [OF s(1), of since] obtain tb where
    1: "sync_run step1 (since, {}, {}) = Some ({}, tb, {})"
    and tb: "tb \<subseteq> {SAT_UINT_INPUT_TEXTURE_BINDING}"
    by (elim exE conjE)
  show ?thesis
    unfolding calls
    by (simp add: sync_run_append 1 sync_upsweep_wgsums [OF tb] sync_downsweep_wgsums
        sync_downsweep [OF s(2)] sync_transpose [OF s(3)])
qed

lemma sync_GPU_SAT:
  assumes "Paint_GPU_SAT P inp s = Inr calls"
  shows "\<exists>since'. sync_run calls (since, {}, {}) = Some (since', {}, {})"
proof (cases "SummedAreaTableUpsweepSP inp \<noteq> 0 \<and> SummedAreaTableDownsweepSP inp \<noteq> 0 \<and>
           TransposeSummedAreaTableSP inp \<noteq> 0")
  case True
  with assms obtain rows cols where
    "Paint_GPU_pass P inp s SATPass_Rows = Inr rows" "Paint_GPU_pass P inp s SATPass_Cols = Inr cols"
    "calls = [glQueryCounter GPUTimestamps_ComputeSATStart GL_TIMESTAMP] @ (rows @ cols) @
          [glQueryCounter GPUTimestamps_ComputeSATEnd GL_TIMESTAMP]"
    by (auto simp: Paint_GPU_SAT_def and_then_Inr_iff)
  then show ?thesis
    by (simp add: sync_run_append sync_GPU_pass sync_step_def)
next
  case False
  then have "calls = [glQueryCounter GPUTimestamps_ComputeSATStart GL_TIMESTAMP,
                glQueryCounter GPUTimestamps_ComputeSATEnd GL_TIMESTAMP]"
    using assms gpu_work_GPU_SAT_skipped [of inp P s] by auto
  then show ?thesis
    by (simp add: sync_step_def)
qed

lemma sync_DoF_blur:
  assumes "Paint_DoF_blur inp s = Inr calls"
  shows "\<exists>since'. sync_run calls (since, {}, {}) = Some (since', {}, {})"
  using assms
  by (auto simp: Paint_DoF_blur_def and_then_Inr_iff sync_step_def split: if_splits)

lemma sync_upload_rows:
  "Paint_CPU_upload_rows s rows = Inr calls \<Longrightarrow> sync_run calls st = Some st"
  by (induction rows arbitrary: calls)
    (auto simp: and_then_Inr_iff sync_step_def split: prod.splits)

lemma sync_CPU_SAT:
  assumes "Paint_CPU_SAT inp s = Inr (s', calls)"
  shows "sync_run calls st = Some st"
proof -
  from assms obtain sat upload where
    up: "Paint_CPU_upload_rows s' [0..<nat (mBackbufferHeight s')] = Inr upload"
    and calls: "calls =
       [QueryPerformanceCounter CPUTimestamps_ReadbackBackbufferStart,
        glQueryCounter GPUTimestamps_ReadbackBackbufferStart GL_TIMESTAMP,
        glBindFramebuffer GL_READ_FRAMEBUFFER (mBackbufferFBOSS s),
        glReadPixels 0 0 (mBackbufferWidth s) (mBackbufferHeight s) GL_RGBA GL_UNSIGNED_BYTE,
        glBindFramebuffer GL_READ_FRAMEBUFFER 0,
        glQueryCounter GPUTimestamps_ReadbackBackbufferEnd GL_TIMESTAMP,
        QueryPerformanceCounter CPUTimestamps_ReadbackBackbufferEnd,
        QueryPerformanceCounter CPUTimestamps_ComputeSATStart,
        QueryPerformanceCounter CPUTimestamps_ComputeSATEnd,
        QueryPerformanceCounter CPUTimestamps_SATUploadStart,
        glQueryCounter GPUTimestamps_SATUploadStart GL_TIMESTAMP,
        glBindTexture GL_TEXTURE_2D sat] @
       upload @
       [glBindTexture GL_TEXTURE_2D 0,
        glQueryCounter GPUTimestamps_SATUploadEnd GL_TIMESTAMP,
        QueryPerformanceCounter CPUTimestamps_SATUploadEnd]"
    unfolding Paint_CPU_SAT_def and_then_Inr_iff Let_def by auto
  show ?thesis
    unfolding calls
    by (cases st) (simp add: sync_run_append sync_upload_rows [OF up] sync_step_def)
qed

lemma synchronised_DoF:
  assumes "Paint_DoF P inp s = Inr (s', calls)"
  shows "synchronised calls"
proof (cases "mEnableDoF s")
  case False
  with assms have "calls = []"
    by (simp add: Paint_DoF_def)
  then show ?thesis
    by (simp add: synchronised_def)
next
  case True
  show ?thesis
  proof (cases "mUseCPUForSAT s")
    case True
    with \<open>mEnableDoF s\<close> assms obtain sat blur where
      c: "Paint_CPU_SAT inp s = Inr (s', sat)" and b: "Paint_DoF_blur inp s' = Inr blur"
      and calls: "calls = sat @ blur"
      by (auto simp: Paint_DoF_def and_then_Inr_iff)
    from sync_DoF_blur [OF b, of "{}"] show ?thesis
      by (auto simp: synchronised_def calls sync_run_append sync_CPU_SAT [OF c])
  next
    case False
    with \<open>mEnableDoF s\<close> assms obtain sat blur where
      g: "Paint_GPU_SAT P inp s = Inr sat" and b: "Paint_DoF_blur inp s = Inr blur"
      and calls: "calls = sat @ blur"
      by (auto simp: Paint_DoF_def and_then_Inr_iff)
    from sync_GPU_SAT [OF g, of "{}"] obtain since' where
      1: "sync_run sat ({}, {}, {}) = Some (since', {}, {})" ..
    from sync_DoF_blur [OF b, of since'] show ?thesis
      by (auto simp: synchronised_def calls sync_run_append 1)
  qed
qed

lemma barrier_step_glQueryCounter [simp]:
  "barrier_step (out, since) (glQueryCounter i target) = (out, since)"
  by (simp add: barrier_step_def)

lemma barriers_upsweep:
  assumes "Paint_GPU_upsweep P inp s pass = Inr calls"
  shows "foldl barrier_step (out, since) calls =
           (out @ [since \<union> {GL_SHADER_IMAGE_ACCESS_BARRIER_BIT, GL_TEXTURE_FETCH_BARRIER_BIT}], {})"
  using assms
  by (cases pass) (auto simp: Paint_GPU_upsweep_def and_then_Inr_iff barrier_step_def)

lemma barriers_upsweep_wgsums:
  "foldl barrier_step (out, since) (Paint_GPU_upsweep_wgsums inp s pass) =
     (out @ [since \<union> {GL_SHADER_IMAGE_ACCESS_BARRIER_BIT, GL_TEXTURE_FETCH_BARRIER_BIT}], {})"
  by (cases pass) (auto simp: Paint_GPU_upsweep_wgsums_def barrier_step_def)

lemma barriers_downsweep_wgsums:
  "foldl barrier_step (out, since) (Paint_GPU_downsweep_wgsums inp s pass) =
     (out @ [since \<union> {GL_SHADER_IMAGE_ACCESS_BARRIER_BIT}], {})"
  by (cases pass) (auto simp: Paint_GPU_downsweep_wgsums_def barrier_step_def)

lemma barriers_downsweep:
  assumes "Paint_GPU_downsweep P inp s pass = Inr calls"
  shows "foldl barrier_step (out, since) calls =
           (out @ [since \<union> {GL_SHADER_IMAGE_ACCESS_BARRIER_BIT}], {})"
  using assms
  by (cases pass) (auto simp: Paint_GPU_downsweep_def and_then_Inr_iff barrier_step_def)

lemma barriers_transpose:
  assumes "Paint_GPU_transpose P inp s pass = Inr calls"
  shows "foldl barrier_step (out, since) calls =
           (out @ [since \<union> {GL_SHADER_IMAGE_ACCESS_BARRIER_BIT}], {})"
  using assms
  by (cases pass) (auto simp: Paint_GPU_transpose_def and_then_Inr_iff barrier_step_def)

lemma barriers_GPU_pass:
  assumes "Paint_GPU_pass P inp s pass = Inr calls"
  shows "foldl barrier_step (out, {}) calls =
           (out @ [{GL_SHADER_IMAGE_ACCESS_BARRIER_BIT, GL_TEXTURE_FETCH_BARRIER_BIT},
                   {GL_SHADER_IMAGE_ACCESS_BARRIER_BIT, GL_TEXTURE_FETCH_BARRIER_BIT},
                   {GL_SHADER_IMAGE_ACCESS_BARRIER_BIT},
                   {GL_SHADER_IMAGE_ACCESS_BARRIER_BIT},
                   {GL_SHADER_IMAGE_ACCESS_BARRIER_BIT}], {})"
proof -
  from assms obtain step1 step4 step5 where
    s: "Paint_GPU_upsweep P inp s pass = Inr step1"
    "Paint_GPU_downsweep P inp s pass = Inr step4"
    "Paint_GPU_transpose P inp s pass = Inr step5"
    and calls: "calls = step1 @ Paint_GPU_upsweep_wgsums inp s pass @
          Paint_GPU_downsweep_wgsums inp s pass @ step4 @ step5"
    unfolding Paint_GPU_pass_def and_then_Inr_iff by auto
  show ?thesis
    unfolding calls
    by (simp add: barriers_upsweep [OF s(1)] barriers_upsweep_wgsums barriers_downsweep_wgsums
        barriers_downsweep [OF s(2)] barriers_transpose [OF s(3)])
qed

lemma barriers_DoF_device:
  assumes "Paint_DoF P inp s = Inr (s', calls)"
    and "mEnableDoF s" and "\<not> mUseCPUForSAT s"
    and "SummedAreaTableUpsweepSP inp \<noteq> 0" and "SummedAreaTableDownsweepSP inp \<noteq> 0"
    and "TransposeSummedAreaTableSP inp \<noteq> 0" and "DepthOfFieldSP inp \<noteq> 0"
  shows "barriers_before_work calls =
           [{GL_SHADER_IMAGE_ACCESS_BARRIER_BIT, GL_TEXTURE_FETCH_BARRIER_BIT},
            {GL_SHADER_IMAGE_ACCESS_BARRIER_BIT, GL_TEXTURE_FETCH_BARRIER_BIT},
            {GL_SHADER_IMAGE_ACCESS_BARRIER_BIT},
            {GL_SHADER_IMAGE_ACCESS_BARRIER_BIT},
            {GL_SHADER_IMAGE_ACCESS_BARRIER_BIT},
            {GL_SHADER_IMAGE_ACCESS_BARRIER_BIT, GL_TEXTURE_FETCH_BARRIER_BIT},
            {GL_SHADER_IMAGE_ACCESS_BARRIER_BIT, GL_TEXTURE_FETCH_BARRIER_BIT},
            {GL_SHADER_IMAGE_ACCESS_BARRIER_BIT},
            {GL_SHADER_IMAGE_ACCESS_BARRIER_BIT},
            {GL_SHADER_IMAGE_ACCESS_BARRIER_BIT},
            {GL_TEXTURE_FETCH_BARRIER_BIT}]"
proof -
  from assms(1-3) obtain sat blur where
    g: "Paint_GPU_SAT P inp s = Inr sat" and b: "Paint_DoF_blur inp s = Inr blur"
    and calls: "calls = sat @ blur"
    by (auto simp: Paint_DoF_def and_then_Inr_iff)
  from g assms(4-6) obtain rows cols where
    r: "Paint_GPU_pass P inp s SATPass_Rows = Inr rows"
    and c: "Paint_GPU_pass P inp s SATPass_Cols = Inr cols"
    and sat: "sat = [glQueryCounter GPUTimestamps_ComputeSATStart GL_TIMESTAMP] @ (rows @ cols) @
          [glQueryCounter GPUTimestamps_ComputeSATEnd GL_TIMESTAMP]"
    by (auto simp: Paint_GPU_SAT_def and_then_Inr_iff)
  have blur: "foldl barrier_step (out, {}) blur = (out @ [{GL_TEXTURE_FETCH_BARRIER_BIT}], {})" for out
    using b assms(7)
    by (auto simp: Paint_DoF_blur_def and_then_Inr_iff barrier_step_def)
  show ?thesis
    unfolding barriers_before_work_def calls sat
    by (simp add: barriers_GPU_pass [OF r] barriers_GPU_pass [OF c] blur)
qed

text \<open>
  Claim C5, as amended. Every dispatch of the device path and the draw of the blur come
  after a barrier, issued since the previous dispatch, that covers each kind of access the
  step has something bound for: texture fetches when a sampled texture is bound, image
  access when an image is bound. When the whole device path runs, the barriers before the
  eleven steps (up-sweep, up-sweep of sums, down-sweep of sums, down-sweep, transpose, for
  rows and then columns, and the blur) are: both kinds before the two up-sweeps of each
  pass, image access alone before the two down-sweeps and the transpose, texture fetch
  alone before the blur.
\<close>

theorem barriers_cover_access_kinds:
  assumes "Paint_DoF P inp s = Inr (s', calls)"
  shows "synchronised calls \<and>
         (mEnableDoF s \<and> \<not> mUseCPUForSAT s \<and>
          SummedAreaTableUpsweepSP inp \<noteq> 0 \<and> SummedAreaTableDownsweepSP inp \<noteq> 0 \<and>
          TransposeSummedAreaTableSP inp \<noteq> 0 \<and> DepthOfFieldSP inp \<noteq> 0 \<longrightarrow>
          barriers_before_work calls =
            [{GL_SHADER_IMAGE_ACCESS_BARRIER_BIT, GL_TEXTURE_FETCH_BARRIER_BIT},
             {GL_SHADER_IMAGE_ACCESS_BARRIER_BIT, GL_TEXTURE_FETCH_BARRIER_BIT},
             {GL_SHADER_IMAGE_ACCESS_BARRIER_BIT},
             {GL_SHADER_IMAGE_ACCESS_BARRIER_BIT},
             {GL_SHADER_IMAGE_ACCESS_BARRIER_BIT},
             {GL_SHADER_IMAGE_ACCESS_BARRIER_BIT, GL_TEXTURE_FETCH_BARRIER_BIT},
             {GL_SHADER_IMAGE_ACCESS_BARRIER_BIT, GL_TEXTURE_FETCH_BARRIER_BIT},
             {GL_SHADER_IMAGE_ACCESS_BARRIER_BIT},
             {GL_SHADER_IMAGE_ACCESS_BARRIER_BIT},
             {GL_SHADER_IMAGE_ACCESS_BARRIER_BIT},
             {GL_TEXTURE_FETCH_BARRIER_BIT}])"
  using synchronised_DoF [OF assms] barriers_DoF_device [OF assms] by simp

lemma example_DoF:
  "\<exists>calls. Paint_DoF example_preamble example_input example_state = Inr (example_state, calls)"
proof -
  have "\<exists>calls. Paint_GPU_pass example_preamble example_input example_state pass = Inr calls" for pass
    by (rule Paint_GPU_pass_succeeds [of _ _ 2 2 2 2 SummedRowsTO])
      (simp_all add: example_state_def example_preamble_def div_int_8_4)
  then obtain rows cols where
    "Paint_GPU_pass example_preamble example_input example_state SATPass_Rows = Inr rows"
    "Paint_GPU_pass example_preamble example_input example_state SATPass_Cols = Inr cols"
    by meson
  then have "\<exists>sat. Paint_GPU_SAT example_preamble example_input example_state = Inr sat"
    by (simp add: Paint_GPU_SAT_def)
  then obtain sat where sat: "Paint_GPU_SAT example_preamble example_input example_state = Inr sat" ..
  have "\<exists>blur. Paint_DoF_blur example_input example_state = Inr blur"
    by (simp add: Paint_DoF_blur_def deref_mSummedAreaTableTO_def example_state_def)
  then obtain blur where "Paint_DoF_blur example_input example_state = Inr blur" ..
  with sat show ?thesis
    by (simp add: Paint_DoF_def) (simp add: example_state_def)
qed

theorem barriers_cover_access_kinds_witness:
  "\<exists>calls. Paint_DoF example_preamble example_input example_state = Inr (example_state, calls) \<and>
     synchronised calls \<and> length (barriers_before_work calls) = 11"
proof -
  from example_DoF obtain calls where
    p: "Paint_DoF example_preamble example_input example_state = Inr (example_state, calls)" ..
  have c: "mEnableDoF example_state \<and> \<not> mUseCPUForSAT example_state \<and>
          SummedAreaTableUpsweepSP example_input \<noteq> 0 \<and> SummedAreaTableDownsweepSP example_input \<noteq> 0 \<and>
          TransposeSummedAreaTableSP example_input \<noteq> 0 \<and> DepthOfFieldSP example_input \<noteq> 0"
    by (simp add: example_state_def example_input_def)
  note t = barriers_cover_access_kinds [OF p]
  from t [THEN conjunct2, THEN mp, OF c] have "length (barriers_before_work calls) = 11"
    by simp
  with p t [THEN conjunct1] show ?thesis
    by (intro exI conjI) assumption+
qed

text \<open>
  Claim C5 as stated fails on the example frame: the barrier before the down-sweep of the
  workgroup sums (the third step) does not cover texture fetches, and the barrier before
  the blur (the last step) does not cover image access.
\<close>

theorem barriers_both_kinds_counterexample:
  "frame_barriers (Paint_DoF example_preamble example_input example_state) ! 2 =
     {GL_SHADER_IMAGE_ACCESS_BARRIER_BIT} \<and>
   frame_barriers (Paint_DoF example_preamble example_input example_state) ! 10 =
     {GL_TEXTURE_FETCH_BARRIER_BIT}"
proof -
  from example_DoF obtain calls where
    p: "Paint_DoF example_preamble example_input example_state = Inr (example_state, calls)" ..
  have "barriers_before_work calls =
           [{GL_SHADER_IMAGE_ACCESS_BARRIER_BIT, GL_TEXTURE_FETCH_BARRIER_BIT},
            {GL_SHADER_IMAGE_ACCESS_BARRIER_BIT, GL_TEXTURE_FETCH_BARRIER_BIT},
            {GL_SHADER_IMAGE_ACCESS_BARRIER_BIT},
            {GL_SHADER_IMAGE_ACCESS_BARRIER_BIT},
            {GL_SHADER_IMAGE_ACCESS_BARRIER_BIT},
            {GL_SHADER_IMAGE_ACCESS_BARRIER_BIT, GL_TEXTURE_FETCH_BARRIER_BIT},
            {GL_SHADER_IMAGE_ACCESS_BARRIER_BIT, GL_TEXTURE_FETCH_BARRIER_BIT},
            {GL_SHADER_IMAGE_ACCESS_BARRIER_BIT},
            {GL_SHADER_IMAGE_ACCESS_BARRIER_BIT},
            {GL_SHADER_IMAGE_ACCESS_BARRIER_BIT},
            {GL_TEXTURE_FETCH_BARRIER_BIT}]"
    by (rule barriers_DoF_device [OF p])
      (simp_all add: example_state_def example_input_def)
  then show ?thesis
    by (simp add: frame_barriers_def p)
qed

subsection \<open>Timestamps of a frame without depth of field\<close>

lemma timestamps_written_simps [simp]:
  "timestamps_written [] = []"
  "timestamps_written (xs @ ys) = timestamps_written xs @ timestamps_written ys"
  by (simp_all add: timestamps_written_def)

lemma timestamps_read_simps [simp]:
  "timestamps_read [] = []"
  "timestamps_read (xs @ ys) = timestamps_read xs @ timestamps_read ys"
  by (simp_all add: timestamps_read_def)

lemma timestamps_written_Cons:
  "timestamps_written (c # cs) = timestamp_written_by c @ timestamps_written cs"
  by (simp add: timestamps_written_def)

lemma timestamps_read_Cons:
  "timestamps_read (c # cs) = timestamp_read_by c @ timestamps_read cs"
  by (simp add: timestamps_read_def)

lemma upt_0_8: "[0..<8] = [0, 1, 2, 3, 4, 5, 6, 7]"
  by code_simp

lemma upt_0_3: "[0..<3] = [0, 1, 2]"
  by code_simp

lemma Paint_DoF_disabled:
  assumes "UpdateGUI (gui inp) s = (s1, gui_calls)" and "\<not> mEnableDoF s1"
  shows "Paint P inp s =
     Inr (s1\<lparr>mFirstFrame := False\<rparr>,
          gui_calls @ Paint_render_scene inp s1 @ Paint_multisample_resolve s1 @
          Paint_render_GUI s1 @ Paint_blit_to_window s1)"
  using assms by (simp add: Paint_def Paint_DoF_def)

lemma timestamps_written_without_DoF:
  "timestamps_written (Paint_render_scene inp s @ Paint_multisample_resolve s @
      Paint_render_GUI s @ Paint_blit_to_window s) = [0, 1, 2, 3, 12, 13, 14, 15]"
  by (simp add: timestamps_written_Cons timestamp_written_by_def Paint_render_scene_def
      Paint_multisample_resolve_def Paint_render_GUI_def Paint_blit_to_window_def
      Let_def stamp_defs)

lemma timestamps_read_profiling:
  assumes "profiling_window_open g" and "\<not> mFirstFrame s" and "\<not> mUseCPUForSAT s"
  shows "timestamps_read (snd (UpdateGUI g s)) = [0, 1, 2, 3, 6, 7, 10, 11, 12, 13, 14, 15]"
  using assms
  by (simp add: UpdateGUI_def Let_def UpdateGUI_GPU_time_def UpdateGUI_CPU_time_def
      timestamps_read_Cons timestamp_read_by_def stamp_defs upt_0_8 upt_0_3)

lemma timestamps_written_UpdateGUI: "timestamps_written (snd (UpdateGUI g s)) = []"
proof -
  have a: "timestamps_written (UpdateGUI_GPU_time s i) = []" for i
    by (simp add: UpdateGUI_GPU_time_def Let_def timestamps_written_Cons timestamp_written_by_def)
  have b: "timestamps_written (UpdateGUI_CPU_time s i) = []" for i
    by (simp add: UpdateGUI_CPU_time_def timestamps_written_Cons timestamp_written_by_def)
  have c: "timestamps_written (concat (map f xs)) = []"
    if "\<And>i. timestamps_written (f i) = []" for f and xs :: "nat list"
    using that by (induction xs) simp_all
  show ?thesis
    by (simp add: UpdateGUI_def Let_def c a b)
qed

text \<open>
  Claim C6, on the code. In a frame with depth of field unchecked, the table is not
  computed (the only device work is the scene draw) and the timestamps recorded are those
  of the scene, resolve, GUI and blit stages: none of the pairs 4 to 11 (read-back,
  table, upload, blur). The next frame, with the profiling window open, nevertheless
  reads back the pairs 6, 7 (ComputeSAT) and 10, 11 (DOFBlur), which the frame before it
  did not record.
\<close>

theorem timestamps_read_after_frame_without_DoF:
  "\<exists>s1 calls1 s2 calls2.
     Paint example_preamble example_input_DoF_off example_state = Inr (s1, calls1) \<and>
     \<not> mEnableDoF s1 \<and>
     gpu_work calls1 = [SceneDrawCalls] \<and>
     timestamps_written calls1 = [0, 1, 2, 3, 12, 13, 14, 15] \<and>
     Paint example_preamble example_input_DoF_off s1 = Inr (s2, calls2) \<and>
     timestamps_read calls2 = [0, 1, 2, 3, 6, 7, 10, 11, 12, 13, 14, 15]"
proof -
  define s0 where "s0 = example_state\<lparr>mEnableDoF := False\<rparr>"
  define s1 where "s1 = s0\<lparr>mFirstFrame := False\<rparr>"
  have u0: "UpdateGUI (gui example_input_DoF_off) example_state = (s0, [])"
    by (simp add: UpdateGUI_def Let_def example_input_DoF_off_def example_input_def
        example_gui_def example_state_def s0_def)
  have off0: "\<not> mEnableDoF s0"
    by (simp add: s0_def)
  note p1 = Paint_DoF_disabled [OF u0 off0, of example_preamble]
  have w1: "timestamps_written ([] @ Paint_render_scene example_input_DoF_off s0 @
      Paint_multisample_resolve s0 @ Paint_render_GUI s0 @ Paint_blit_to_window s0) =
      [0, 1, 2, 3, 12, 13, 14, 15]"
    using timestamps_written_without_DoF [of example_input_DoF_off s0] by simp
  have g1: "gpu_work ([] @ Paint_render_scene example_input_DoF_off s0 @
      Paint_multisample_resolve s0 @ Paint_render_GUI s0 @ Paint_blit_to_window s0) =
      [SceneDrawCalls]"
    by (simp add: gpu_work_render_scene gpu_work_multisample_resolve gpu_work_render_GUI
        gpu_work_blit_to_window example_input_DoF_off_def example_input_def)
  obtain gc where u1: "UpdateGUI (gui example_input_DoF_off) s1 = (s1, gc)"
    by (simp add: UpdateGUI_def Let_def example_input_DoF_off_def example_input_def
        example_gui_def example_state_def s0_def s1_def)
  have off1: "\<not> mEnableDoF s1"
    by (simp add: s1_def s0_def)
  note p2 = Paint_DoF_disabled [OF u1 off1, of example_preamble]
  have "timestamps_read gc = [0, 1, 2, 3, 6, 7, 10, 11, 12, 13, 14, 15]"
    using timestamps_read_profiling [of "gui example_input_DoF_off" s1] u1
    by (simp add: example_input_DoF_off_def example_input_def example_gui_def s1_def s0_def
        example_state_def)
  moreover have "timestamps_read (Paint_render_scene example_input_DoF_off s1 @
      Paint_multisample_resolve s1 @ Paint_render_GUI s1 @ Paint_blit_to_window s1) = []"
    by (simp add: timestamps_read_Cons timestamp_read_by_def Paint_render_scene_def
      Paint_multisample_resolve_def Paint_render_GUI_def Paint_blit_to_window_def Let_def)
  ultimately have r2: "timestamps_read (gc @ Paint_render_scene example_input_DoF_off s1 @
      Paint_multisample_resolve s1 @ Paint_render_GUI s1 @ Paint_blit_to_window s1) =
      [0, 1, 2, 3, 6, 7, 10, 11, 12, 13, 14, 15]"
    by simp
  have s1': "s1\<lparr>mFirstFrame := False\<rparr> = s1"
    by (simp add: s1_def)
  from p1 off1 g1 w1 p2 r2 show ?thesis
    unfolding s1_def [symmetric] s1'
    by (intro exI conjI) assumption+
qed

subsection \<open>Loops whose bodies are in range\<close>

lemma for_loop_append:
  "for_loop (xs @ ys) body s = and_then (for_loop xs body s) (for_loop ys body)"
  by (induction xs arbitrary: s) (auto simp: and_then_def split: sum.splits)

lemma for_loop_pure:
  assumes "\<And>i t. i \<in> set xs \<Longrightarrow> length t = n \<Longrightarrow> body i t = Inr (f i t) \<and> length (f i t) = n"
    and "length t = n"
  shows "for_loop xs body t = Inr (fold f xs t) \<and> length (fold f xs t) = n"
  using assms
proof (induction xs arbitrary: t)
  case Nil
  then show ?case by simp
next
  case (Cons x xs)
  from Cons.prems(1) [of x t] Cons.prems(2)
  have x: "body x t = Inr (f x t)" "length (f x t) = n"
    by simp_all
  have "for_loop xs body (f x t) = Inr (fold f xs (f x t)) \<and> length (fold f xs (f x t)) = n"
    by (rule Cons.IH) (use Cons.prems(1) x(2) in auto)
  then show ?case
    by (simp add: x(1))
qed

lemma subscript_in_range:
  assumes "int (row * stride + col) \<le> INT_MAX"
  shows "subscript row (int stride) col = Inr (int (row * stride + col))"
proof -
  define p where "p = int row * int stride"
  have p: "0 \<le> p" "p + int col \<le> INT_MAX"
    using assms by (simp_all add: p_def)
  then have "checked p = Inr p" "checked (p + int col) = Inr (p + int col)"
    by (simp_all add: checked_def INT_MIN_def)
  then show ?thesis
    by (simp add: subscript_def mul_int_def add_int_def p_def [symmetric])
qed

lemma rd_in_range: "i < length xs \<Longrightarrow> rd xs (int i) = Inr (xs ! i)"
  by (simp add: rd_def)

lemma wr_in_range: "i < length xs \<Longrightarrow> wr xs (int i) v = Inr (xs[i := v])"
  by (simp add: wr_def)

lemma gamma_decode_decoded: "decodable g p \<Longrightarrow> gamma_decode g p = Inr (decoded g p)"
  by (auto simp: decodable_def decoded_def)

lemma cell_in_table:
  assumes "row < h" "col < w" "w \<le> sw" "h \<le> (sh::nat)"
  shows "row * sw + col < sw * sh"
proof -
  have "row * sw + col < row * sw + sw"
    using assms(2,3) by simp
  also have "\<dots> = sw * Suc row"
    by (simp add: algebra_simps)
  also have "\<dots> \<le> sw * sh"
    using assms(1,4) by (intro mult_le_mono2) simp
  finally show ?thesis .
qed

lemma cell_in_image:
  assumes "row < h" "col < (w::nat)"
  shows "row * w + col < w * h"
  using cell_in_table [OF assms order_refl order_refl] .

lemma cell_eq_iff:
  assumes "col < sw" "col' < (sw::nat)"
  shows "row * sw + col = row' * sw + col' \<longleftrightarrow> row = row' \<and> col = col'"
proof
  assume e: "row * sw + col = row' * sw + col'"
  have "(row * sw + col) div sw = row" "(row' * sw + col') div sw = row'"
    using assms by simp_all
  with e have "row = row'" by simp
  with e show "row = row' \<and> col = col'" by simp
qed simp

subsection \<open>The row pass of the host path\<close>

lemma length_fold_update:
  assumes "\<And>x u. length (f x u) = length u"
  shows "length (fold f xs u) = length u"
  using assms by (induction xs arbitrary: u) simp_all

lemma row_pass_inner_cells:
  assumes "col < k" "k \<le> w" "w \<le> sw" "row * sw + w \<le> length t"
  shows "fold (\<lambda>col t. t[row * sw + col := decoded g (rb ! (row * w + col)) + t ! (row * sw + (col - 1))])
           [1..<k] (t[row * sw := decoded g (rb ! (row * w))]) ! (row * sw + col) =
         row_sum g rb w row col"
  using assms
proof (induction k arbitrary: col)
  case 0
  then show ?case by simp
next
  case (Suc k)
  let ?f = "\<lambda>col t. t[row * sw + col := decoded g (rb ! (row * w + col)) + t ! (row * sw + (col - 1))]"
  let ?t1 = "t[row * sw := decoded g (rb ! (row * w))]"
  have len: "length (fold ?f xs u) = length u" for xs u
    by (rule length_fold_update) simp
  show ?case
  proof (cases "k = 0")
    case True
    with Suc.prems have "col = 0" by simp
    with True Suc.prems show ?thesis
      by (simp add: row_sum_def)
  next
    case False
    then have step: "fold ?f [1..<Suc k] ?t1 = ?f k (fold ?f [1..<k] ?t1)"
      by simp
    have kw: "k < w" "k \<le> w"
      using Suc.prems by simp_all
    have inr: "row * sw + k < length (fold ?f [1..<k] ?t1)"
      unfolding len using kw Suc.prems by simp
    show ?thesis
    proof (cases "col = k")
      case True
      have prev: "fold ?f [1..<k] ?t1 ! (row * sw + (k - 1)) = row_sum g rb w row (k - 1)"
        using False kw Suc.prems by (intro Suc.IH) simp_all
      have "row_sum g rb w row k = decoded g (rb ! (row * w + k)) + row_sum g rb w row (k - 1)"
      proof -
        have "{..k} = insert k {..k - 1}"
          using False by auto
        then show ?thesis
          using False by (simp add: row_sum_def)
      qed
      then show ?thesis
        unfolding step True using inr prev by simp
    next
      case ne: False
      with Suc.prems have "col < k" by simp
      then have "fold ?f [1..<k] ?t1 ! (row * sw + col) = row_sum g rb w row col"
        using kw Suc.prems by (intro Suc.IH) simp_all
      then show ?thesis
        unfolding step using ne by simp
    qed
  qed
qed

lemma length_row_pass_row [simp]: "length (row_pass_row g rb w sw row t) = length t"
  by (simp add: row_pass_row_def length_fold_update)

lemma row_pass_row_this:
  assumes "col < w" "w \<le> sw" "row * sw + w \<le> length t"
  shows "row_pass_row g rb w sw row t ! (row * sw + col) = row_sum g rb w row col"
  unfolding row_pass_row_def
  using assms by (intro row_pass_inner_cells [of col w]) simp_all

lemma row_pass_row_other:
  assumes "row' \<noteq> row" "col < sw" "w \<le> sw"
  shows "row_pass_row g rb w sw row t ! (row' * sw + col) = t ! (row' * sw + col)"
proof -
  let ?f = "\<lambda>col t. t[row * sw + col := decoded g (rb ! (row * w + col)) + t ! (row * sw + (col - 1))]"
  have keep: "fold ?f xs u ! (row' * sw + col) = u ! (row' * sw + col)"
    if "\<forall>x\<in>set xs. x < sw" for xs u
    using that
  proof (induction xs arbitrary: u)
    case Nil
    then show ?case by simp
  next
    case (Cons x xs)
    then have "x < sw" by simp
    then have "row * sw + x \<noteq> row' * sw + col"
      using assms(1,2) by (simp add: cell_eq_iff)
    with Cons show ?case by simp
  qed
  have "row * sw \<noteq> row' * sw + col"
    using cell_eq_iff [of 0 sw col row row'] assms(1,2) by auto
  then show ?thesis
    unfolding row_pass_row_def using assms(3) by (subst keep) auto
qed

lemma row_pass_cells:
  assumes "row < n" "col < w" "w \<le> sw" "n * sw \<le> length t" "0 < w"
  shows "fold (row_pass_row g rb w sw) [0..<n] t ! (row * sw + col) = row_sum g rb w row col"
  using assms(1,4)
proof (induction n)
  case 0
  then show ?case by simp
next
  case (Suc n)
  have len: "length (fold (row_pass_row g rb w sw) xs u) = length u" for xs u
    by (rule length_fold_update) simp
  have fits: "n * sw + w \<le> length t"
    using Suc.prems(2) assms(3) by simp
  show ?case
  proof (cases "row = n")
    case True
    then show ?thesis
      using assms(2,3) fits by (simp add: row_pass_row_this len)
  next
    case False
    with Suc.prems have "row < n" "n * sw \<le> length t" by simp_all
    then have "fold (row_pass_row g rb w sw) [0..<n] t ! (row * sw + col) = row_sum g rb w row col"
      by (rule Suc.IH)
    then show ?thesis
      using False assms(2,3) by (simp add: row_pass_row_other)
  qed
qed

subsection \<open>The column pass of the host path\<close>

lemma col_pass_inner_cells:
  assumes "col < sw" "k \<le> h" "h * sw \<le> length t" "row < h"
  shows "fold (\<lambda>row t. t[row * sw + col := t ! (row * sw + col) + t ! ((row - 1) * sw + col)])
           [1..<k] t ! (row * sw + col) =
         (if row < k then (\<Sum>r\<le>row. t ! (r * sw + col)) else t ! (row * sw + col))"
  using assms(2,4)
proof (induction k arbitrary: row)
  case 0
  then show ?case by simp
next
  case (Suc k)
  let ?f = "\<lambda>row t. t[row * sw + col := t ! (row * sw + col) + t ! ((row - 1) * sw + col)]"
  have len: "length (fold ?f xs u) = length u" for xs u
    by (rule length_fold_update) simp
  show ?case
  proof (cases "k = 0")
    case True
    then show ?thesis
      by (cases "row = 0") simp_all
  next
    case False
    then have step: "fold ?f [1..<Suc k] t = ?f k (fold ?f [1..<k] t)"
      by simp
    have kh: "k < h" "k \<le> h" "k - 1 < h"
      using Suc.prems by simp_all
    have inr: "k * sw + col < length (fold ?f [1..<k] t)"
      unfolding len using cell_in_table [OF kh(1) assms(1) order_refl order_refl] assms(3)
      by (simp add: mult.commute)
    have here: "fold ?f [1..<k] t ! (k * sw + col) = t ! (k * sw + col)"
      using Suc.IH [OF kh(2) kh(1)] by simp
    have above: "fold ?f [1..<k] t ! ((k - 1) * sw + col) = (\<Sum>r\<le>k - 1. t ! (r * sw + col))"
      using Suc.IH [OF kh(2) kh(3)] False by simp
    show ?thesis
    proof (cases "row = k")
      case True
      have "{..k} = insert k {..k - 1}"
        using False by auto
      then have "(\<Sum>r\<le>k. t ! (r * sw + col)) = t ! (k * sw + col) + (\<Sum>r\<le>k - 1. t ! (r * sw + col))"
        using False by simp
      then show ?thesis
        unfolding step True using inr here above by simp
    next
      case ne: False
      then have "row * sw + col \<noteq> k * sw + col"
        using assms(1) by (simp add: cell_eq_iff)
      then have "?f k (fold ?f [1..<k] t) ! (row * sw + col) = fold ?f [1..<k] t ! (row * sw + col)"
        by simp
      also have "\<dots> = (if row < k then (\<Sum>r\<le>row. t ! (r * sw + col)) else t ! (row * sw + col))"
        using Suc.prems by (intro Suc.IH) simp_all
      finally show ?thesis
        unfolding step using ne by auto
    qed
  qed
qed

lemma length_col_pass_col [simp]: "length (col_pass_col h sw col t) = length t"
  by (simp add: col_pass_col_def length_fold_update)

lemma col_pass_col_this:
  assumes "col < sw" "h * sw \<le> length t" "row < h"
  shows "col_pass_col h sw col t ! (row * sw + col) = (\<Sum>r\<le>row. t ! (r * sw + col))"
  unfolding col_pass_col_def
  using col_pass_inner_cells [OF assms(1) order_refl assms(2,3)] assms(3) by simp

lemma col_pass_col_other:
  assumes "col' \<noteq> col" "col < sw" "col' < sw"
  shows "col_pass_col h sw col t ! (row * sw + col') = t ! (row * sw + col')"
proof -
  let ?f = "\<lambda>row t. t[row * sw + col := t ! (row * sw + col) + t ! ((row - 1) * sw + col)]"
  have "fold ?f xs u ! (row * sw + col') = u ! (row * sw + col')" for xs u
  proof (induction xs arbitrary: u)
    case Nil
    show ?case by simp
  next
    case (Cons x xs)
    have "x * sw + col \<noteq> row * sw + col'"
      using assms by (simp add: cell_eq_iff)
    with Cons show ?case by simp
  qed
  then show ?thesis
    by (simp add: col_pass_col_def)
qed

lemma col_pass_cells:
  assumes "col < sw" "row < h" "h * sw \<le> length t" "n \<le> sw"
  shows "fold (col_pass_col h sw) [0..<n] t ! (row * sw + col) =
         (if col < n then (\<Sum>r\<le>row. t ! (r * sw + col)) else t ! (row * sw + col))"
  using assms(2,4)
proof (induction n arbitrary: row)
  case 0
  then show ?case by simp
next
  case (Suc n)
  have len: "length (fold (col_pass_col h sw) xs u) = length u" for xs u
    by (rule length_fold_update) simp
  have n: "n < sw" "n \<le> sw"
    using Suc.prems by simp_all
  show ?case
  proof (cases "col = n")
    case True
    have "fold (col_pass_col h sw) [0..<n] t ! (r * sw + n) = t ! (r * sw + n)" if "r < h" for r
      using Suc.IH [OF that n(2)] True by simp
    then have "(\<Sum>r\<le>row. fold (col_pass_col h sw) [0..<n] t ! (r * sw + n)) = (\<Sum>r\<le>row. t ! (r * sw + n))"
      using Suc.prems(1) by (intro sum.cong) simp_all
    then show ?thesis
      using True n assms(3) Suc.prems(1) by (simp add: col_pass_col_this len)
  next
    case False
    then show ?thesis
      using Suc.IH [OF Suc.prems(1) n(2)] assms(1) n by (simp add: col_pass_col_other)
  qed
qed

subsection \<open>The host path computes the prefix sums\<close>

lemma host_ready_subscripts:
  assumes "host_ready s w h sw sh" "row < h" "col < w"
  shows "subscript row (int w) col = Inr (int (row * w + col))"
    and "subscript row (int sw) col = Inr (int (row * sw + col))"
    and "row * w + col < w * h" and "row * sw + col < sw * sh"
proof -
  from assms(1) have r: "w \<le> sw" "h \<le> sh" "int (sw * sh) \<le> INT_MAX"
    by (simp_all add: host_ready_def)
  show 3: "row * w + col < w * h"
    using assms(2,3) by (rule cell_in_image)
  show 4: "row * sw + col < sw * sh"
    using assms(2,3) r(1,2) by (rule cell_in_table)
  have "w * h \<le> sw * sh"
    using r(1,2) by (rule mult_le_mono)
  with 3 4 r(3) have "int (row * w + col) \<le> INT_MAX" "int (row * sw + col) \<le> INT_MAX"
    by linarith+
  then show "subscript row (int w) col = Inr (int (row * w + col))"
    and "subscript row (int sw) col = Inr (int (row * sw + col))"
    by (simp_all only: subscript_in_range)
qed

lemma Paint_CPU_sum_rows_pure:
  assumes ready: "host_ready s w h sw sh"
    and dec: "\<forall>i < w * h. decodable g (mCPUBackbufferReadback s ! i)"
  shows "Paint_CPU_sum_rows g s =
           Inr (fold (row_pass_row g (mCPUBackbufferReadback s) w sw) [0..<h] (mCPUSummedAreaTable s))"
proof -
  let ?rb = "mCPUBackbufferReadback s"
  from ready have f: "mBackbufferWidth s = int w" "mBackbufferHeight s = int h"
      "mSummedAreaTableWidth s = int sw" "length ?rb = w * h"
      "length (mCPUSummedAreaTable s) = sw * sh" "0 < w"
    by (simp_all add: host_ready_def)
  let ?inner = "\<lambda>row col t.
         and_then (subscript row (int w) col) (\<lambda>i.
         and_then (rd ?rb i) (\<lambda>p.
         and_then (gamma_decode g p) (\<lambda>readback.
         and_then (subscript row (int sw) (col - 1)) (\<lambda>jprev.
         and_then (rd t jprev) (\<lambda>prev.
         and_then (subscript row (int sw) col) (\<lambda>j.
         wr t j (readback + prev)))))))"
  let ?upd = "\<lambda>row col t. t[row * sw + col := decoded g (?rb ! (row * w + col)) + t ! (row * sw + (col - 1))]"
  have inner: "?inner row col t = Inr (?upd row col t) \<and> length (?upd row col t) = sw * sh"
    if "row < h" "col \<in> set [1..<w]" "length t = sw * sh" for row col t
  proof -
    from that(2) have c: "col < w" "col - 1 < w" by auto
    note a = host_ready_subscripts [OF ready that(1) c(1)]
    note b = host_ready_subscripts [OF ready that(1) c(2)]
    have "gamma_decode g (?rb ! (row * w + col)) = Inr (decoded g (?rb ! (row * w + col)))"
      using dec a(3) by (simp add: gamma_decode_decoded)
    then show ?thesis
      using a b that(3) f(4)
      by (simp add: rd_in_range wr_in_range del: of_nat_add of_nat_mult)
  qed
  let ?body = "\<lambda>row t.
       and_then (subscript row (int w) 0) (\<lambda>i0.
       and_then (rd ?rb i0) (\<lambda>p0.
       and_then (gamma_decode g p0) (\<lambda>first.
       and_then (subscript row (int sw) 0) (\<lambda>j0.
       and_then (wr t j0 first) (\<lambda>t0.
       for_loop [1..<nat (int w)] (?inner row) t0)))))"
  have body: "?body row t = Inr (row_pass_row g ?rb w sw row t) \<and>
      length (row_pass_row g ?rb w sw row t) = sw * sh"
    if "row \<in> set [0..<h]" "length t = sw * sh" for row t
  proof -
    from that(1) have r: "row < h" by simp
    note a = host_ready_subscripts [OF ready r f(6)]
    have d: "gamma_decode g (?rb ! (row * w)) = Inr (decoded g (?rb ! (row * w)))"
      using dec a(3) by (simp add: gamma_decode_decoded)
    have "for_loop [1..<w] (?inner row) (t[row * sw := decoded g (?rb ! (row * w))]) =
        Inr (fold (?upd row) [1..<w] (t[row * sw := decoded g (?rb ! (row * w))])) \<and>
      length (fold (?upd row) [1..<w] (t[row * sw := decoded g (?rb ! (row * w))])) = sw * sh"
    proof (rule for_loop_pure)
      fix i and u :: "uvec4 list"
      assume "i \<in> set [1..<w]" "length u = sw * sh"
      then show "?inner row i u = Inr (?upd row i u) \<and> length (?upd row i u) = sw * sh"
        by (rule inner [OF r])
    next
      show "length (t[row * sw := decoded g (?rb ! (row * w))]) = sw * sh"
        using that(2) by simp
    qed
    then show ?thesis
      using a d that(2) f(4)
      by (simp add: rd_in_range wr_in_range row_pass_row_def del: of_nat_add of_nat_mult)
  qed
  have "for_loop [0..<h] ?body (mCPUSummedAreaTable s) =
      Inr (fold (row_pass_row g ?rb w sw) [0..<h] (mCPUSummedAreaTable s)) \<and>
    length (fold (row_pass_row g ?rb w sw) [0..<h] (mCPUSummedAreaTable s)) = sw * sh"
  proof (rule for_loop_pure)
    fix i and u :: "uvec4 list"
    assume "i \<in> set [0..<h]" "length u = sw * sh"
    then show "?body i u = Inr (row_pass_row g ?rb w sw i u) \<and>
        length (row_pass_row g ?rb w sw i u) = sw * sh"
      by (rule body)
  next
    show "length (mCPUSummedAreaTable s) = sw * sh"
      by (rule f(5))
  qed
  then show ?thesis
    by (simp add: Paint_CPU_sum_rows_def f)
qed

lemma Paint_CPU_sum_cols_pure:
  assumes ready: "host_ready s w h sw sh" and len: "length t = sw * sh"
  shows "Paint_CPU_sum_cols s t = Inr (fold (col_pass_col h sw) [0..<w] t)"
proof -
  from ready have f: "mBackbufferWidth s = int w" "mBackbufferHeight s = int h"
      "mSummedAreaTableWidth s = int sw"
    by (simp_all add: host_ready_def)
  let ?inner = "\<lambda>col row t.
         and_then (subscript (row - 1) (int sw) col) (\<lambda>jabove.
         and_then (rd t jabove) (\<lambda>above.
         and_then (subscript row (int sw) col) (\<lambda>j.
         and_then (rd t j) (\<lambda>here.
         wr t j (here + above)))))"
  let ?upd = "\<lambda>col row t. t[row * sw + col := t ! (row * sw + col) + t ! ((row - 1) * sw + col)]"
  have inner: "?inner col row t = Inr (?upd col row t) \<and> length (?upd col row t) = sw * sh"
    if "col < w" "row \<in> set [1..<h]" "length t = sw * sh" for row col and t :: "uvec4 list"
  proof -
    from that(2) have r: "row < h" "row - 1 < h" by auto
    note a = host_ready_subscripts [OF ready r(1) that(1)]
    note b = host_ready_subscripts [OF ready r(2) that(1)]
    show ?thesis
      using a b that(3)
      by (simp add: rd_in_range wr_in_range del: of_nat_add of_nat_mult)
  qed
  have body: "for_loop [1..<h] (?inner col) t = Inr (col_pass_col h sw col t) \<and>
      length (col_pass_col h sw col t) = sw * sh"
    if "col \<in> set [0..<w]" "length t = sw * sh" for col and t :: "uvec4 list"
  proof -
    from that(1) have c: "col < w" by simp
    have "for_loop [1..<h] (?inner col) t = Inr (fold (?upd col) [1..<h] t) \<and>
        length (fold (?upd col) [1..<h] t) = sw * sh"
    proof (rule for_loop_pure)
      fix i and u :: "uvec4 list"
      assume "i \<in> set [1..<h]" "length u = sw * sh"
      then show "?inner col i u = Inr (?upd col i u) \<and> length (?upd col i u) = sw * sh"
        by (rule inner [OF c])
    next
      show "length t = sw * sh"
        by (rule that(2))
    qed
    then show ?thesis
      by (simp add: col_pass_col_def)
  qed
  have "for_loop [0..<w] (\<lambda>col. for_loop [1..<h] (?inner col)) t =
      Inr (fold (col_pass_col h sw) [0..<w] t) \<and>
    length (fold (col_pass_col h sw) [0..<w] t) = sw * sh"
  proof (rule for_loop_pure)
    fix i and u :: "uvec4 list"
    assume "i \<in> set [0..<w]" "length u = sw * sh"
    then show "for_loop [1..<h] (?inner i) u = Inr (col_pass_col h sw i u) \<and>
        length (col_pass_col h sw i u) = sw * sh"
      by (rule body)
  next
    show "length t = sw * sh"
      by (rule len)
  qed
  then show ?thesis
    by (simp add: Paint_CPU_sum_cols_def f)
qed

lemma host_path_tables:
  assumes ready: "host_ready s w h sw sh"
    and dec: "\<forall>i < w * h. decodable g (mCPUBackbufferReadback s ! i)"
  shows "\<exists>rows table.
           Paint_CPU_sum_rows g s = Inr rows \<and> Paint_CPU_sum_cols s rows = Inr table \<and>
           length rows = sw * sh \<and> length table = sw * sh \<and>
           (\<forall>row < h. \<forall>col < w.
              rows ! (row * sw + col) = row_sum g (mCPUBackbufferReadback s) w row col \<and>
              table ! (row * sw + col) = area_sum g (mCPUBackbufferReadback s) w row col)"
proof -
  let ?rb = "mCPUBackbufferReadback s"
  define rows where "rows = fold (row_pass_row g ?rb w sw) [0..<h] (mCPUSummedAreaTable s)"
  define table where "table = fold (col_pass_col h sw) [0..<w] rows"
  from ready have f: "length (mCPUSummedAreaTable s) = sw * sh" "0 < w" "w \<le> sw" "h \<le> sh"
    by (simp_all add: host_ready_def)
  have lr: "length rows = sw * sh"
    unfolding rows_def by (simp add: length_fold_update f(1))
  have lt: "length table = sw * sh"
    unfolding table_def by (simp add: length_fold_update lr)
  have hs: "h * sw \<le> sw * sh"
    using f(4) by (simp add: mult.commute)
  have r: "rows ! (row * sw + col) = row_sum g ?rb w row col" if "row < h" "col < w" for row col
    unfolding rows_def using that f hs by (intro row_pass_cells) simp_all
  have t: "table ! (row * sw + col) = area_sum g ?rb w row col" if "row < h" "col < w" for row col
  proof -
    have "table ! (row * sw + col) = (\<Sum>r\<le>row. rows ! (r * sw + col))"
      unfolding table_def
      using col_pass_cells [of col sw row h rows w] that f(3) hs lr by simp
    also have "\<dots> = (\<Sum>r\<le>row. row_sum g ?rb w r col)"
      using that by (intro sum.cong) (simp_all add: r)
    finally show ?thesis
      by (simp add: area_sum_def row_sum_def)
  qed
  have "Paint_CPU_sum_rows g s = Inr rows"
    unfolding rows_def using ready dec by (rule Paint_CPU_sum_rows_pure)
  moreover have "Paint_CPU_sum_cols s rows = Inr table"
    unfolding table_def using ready lr by (rule Paint_CPU_sum_cols_pure)
  ultimately show ?thesis
    using lr lt r t by (intro exI [of _ rows] exI [of _ table]) simp
qed

subsection \<open>\<open>Resize\<close> prepares the host path\<close>

lemma Resize_arrays:
  assumes "Resize tile heap width height (s, n) = Inr (s', n', calls)"
  shows "length (mCPUBackbufferReadback s') = nat (width * height)"
    and "length (mCPUSummedAreaTable s') = nat (mSummedAreaTableWidth s' * mSummedAreaTableHeight s')"
    and "mSummedAreaTableWidth s' * mSummedAreaTableHeight s' \<le> INT_MAX"
    and "0 \<le> mSummedAreaTableWidth s' * mSummedAreaTableHeight s'"
proof -
  obtain s2 n2 ms where ms: "Resize_multisampled_FBO
      (s\<lparr>mWindowWidth := width, mWindowHeight := height,
         mBackbufferWidth := width, mBackbufferHeight := height\<rparr>, n) = (s2, n2, ms)"
    by (metis prod_cases3)
  obtain s3 n3 ss where ss: "Resize_singlesampled_FBO (s2, n2) = (s3, n3, ss)"
    by (metis prod_cases3)
  from assms ms ss obtain sat where
    sat: "Resize_summed_area_table tile heap (s3, n3) = Inr (s', n', sat)"
    by (auto simp: Resize_def and_then_Inr_iff)
  note a = Resize_multisampled_FBO_fields [OF ms] Resize_singlesampled_FBO_fields [OF ss]
  have "length (mCPUBackbufferReadback s') = nat (mBackbufferWidth s3 * mBackbufferHeight s3) \<and>
      length (mCPUSummedAreaTable s') = nat (mSummedAreaTableWidth s' * mSummedAreaTableHeight s') \<and>
      mSummedAreaTableWidth s' * mSummedAreaTableHeight s' \<le> INT_MAX \<and>
      0 \<le> mSummedAreaTableWidth s' * mSummedAreaTableHeight s'"
    using sat
    by (auto simp: Resize_summed_area_table_def and_then_Inr_iff Let_def
        new_array_Inr_iff mul_int_def checked_Inr_iff)
  with a show "length (mCPUBackbufferReadback s') = nat (width * height)"
    and "length (mCPUSummedAreaTable s') = nat (mSummedAreaTableWidth s' * mSummedAreaTableHeight s')"
    and "mSummedAreaTableWidth s' * mSummedAreaTableHeight s' \<le> INT_MAX"
    and "0 \<le> mSummedAreaTableWidth s' * mSummedAreaTableHeight s'"
    by simp_all
qed

lemma Resize_host_ready:
  assumes r: "Resize (2 ^ k) heap width height (s, n) = Inr (s', n', calls)"
    and w: "0 < width" and h: "0 \<le> height"
  shows "host_ready s' (nat width) (nat height)
           (nat (mSummedAreaTableWidth s')) (nat (mSummedAreaTableHeight s'))"
proof -
  have t: "(0::int) < 2 ^ k" by simp
  have pw: "mSummedAreaTableWidth s' = pad (2 ^ k) width"
    and ph: "mSummedAreaTableHeight s' = pad (2 ^ k) height"
    using Resize_padded [OF r] pad_ceiling [OF t] by simp_all
  have gw: "width \<le> mSummedAreaTableWidth s'" and gh: "height \<le> mSummedAreaTableHeight s'"
    unfolding pw ph using pad_ge [OF t] by simp_all
  note a = Resize_arrays [OF r]
  note b = Resize_Inr(5,6) [OF r]
  have "nat (width * height) = nat width * nat height"
    using w h by (simp add: nat_mult_distrib)
  moreover have "nat (mSummedAreaTableWidth s' * mSummedAreaTableHeight s') =
      nat (mSummedAreaTableWidth s') * nat (mSummedAreaTableHeight s')"
    using w h gw gh by (simp add: nat_mult_distrib)
  moreover have "int (nat (mSummedAreaTableWidth s') * nat (mSummedAreaTableHeight s')) =
      mSummedAreaTableWidth s' * mSummedAreaTableHeight s'"
    using w h gw gh by simp
  moreover have "nat width \<le> nat (mSummedAreaTableWidth s')"
      "nat height \<le> nat (mSummedAreaTableHeight s')"
    using gw gh by linarith+
  ultimately show ?thesis
    unfolding host_ready_def using a b w h gw gh by simp
qed

subsection \<open>The host path as a whole\<close>

lemma read_pixels_ready:
  assumes "host_ready s w h sw sh"
  shows "read_pixels (mBackbufferWidth s) (mBackbufferHeight s) pixels (mCPUBackbufferReadback s) =
           Inr (map pixels [0..<w * h])"
proof -
  from assms have "mBackbufferWidth s = int w" "mBackbufferHeight s = int h"
      "length (mCPUBackbufferReadback s) = w * h"
    by (simp_all add: host_ready_def)
  moreover have "nat (int w * int h) = w * h"
    by (simp add: nat_mult_distrib)
  ultimately show ?thesis
    by (simp add: read_pixels_def)
qed

lemma upload_rows_ready:
  assumes "host_ready s w h sw sh" and "n \<le> h" and "set rows \<subseteq> {..<h}"
  shows "Paint_CPU_upload_rows s rows =
           Inr (map (\<lambda>row. glTexSubImage2D GL_TEXTURE_2D 0 0 (int row) (int w) 1
                  GL_RGBA_INTEGER GL_UNSIGNED_INT
                  (take w (drop (row * sw) (mCPUSummedAreaTable s)))) rows)"
  using assms(3)
proof (induction rows)
  case Nil
  show ?case by simp
next
  case (Cons row rows)
  then have r: "row < h" by simp
  from assms(1) have f: "mBackbufferWidth s = int w" "mSummedAreaTableWidth s = int sw"
      "0 < w" "w \<le> sw" "h \<le> sh" "length (mCPUSummedAreaTable s) = sw * sh"
    by (simp_all add: host_ready_def)
  note a = host_ready_subscripts [OF assms(1) r f(3)]
  have "row * sw + w \<le> sw * sh"
  proof -
    have "row * sw + w \<le> row * sw + sw"
      using f(4) by simp
    also have "\<dots> = sw * Suc row"
      by (simp add: algebra_simps)
    also have "\<dots> \<le> sw * sh"
      using r f(5) by (intro mult_le_mono2) simp
    finally show ?thesis .
  qed
  then have "elements_from (mCPUSummedAreaTable s) (int (row * sw)) (int w) =
      Inr (take w (drop (row * sw) (mCPUSummedAreaTable s)))"
    using f(3,6) by (simp add: elements_from_def del: of_nat_mult)
  with a(2) Cons show ?case
    by (simp add: f del: of_nat_mult of_nat_add)
qed

lemma host_path_Paint_CPU_SAT:
  assumes ready: "host_ready s w h sw sh"
    and ptr: "mSummedAreaTableTO s \<noteq> None"
    and dec: "\<forall>i < w * h. decodable (gamma_float inp) (backbuffer_pixels inp i)"
  shows "\<exists>rows table sat.
           Paint_CPU_sum_rows (gamma_float inp)
             (s\<lparr>mCPUBackbufferReadback := map (backbuffer_pixels inp) [0..<w * h]\<rparr>) = Inr rows \<and>
           deref_mSummedAreaTableTO s = Inr sat \<and>
           Paint_CPU_SAT inp s =
             Inr (s\<lparr>mCPUBackbufferReadback := map (backbuffer_pixels inp) [0..<w * h],
                     mCPUSummedAreaTable := table\<rparr>,
               [QueryPerformanceCounter CPUTimestamps_ReadbackBackbufferStart,
                glQueryCounter GPUTimestamps_ReadbackBackbufferStart GL_TIMESTAMP,
                glBindFramebuffer GL_READ_FRAMEBUFFER (mBackbufferFBOSS s),
                glReadPixels 0 0 (mBackbufferWidth s) (mBackbufferHeight s) GL_RGBA GL_UNSIGNED_BYTE,
                glBindFramebuffer GL_READ_FRAMEBUFFER 0,
                glQueryCounter GPUTimestamps_ReadbackBackbufferEnd GL_TIMESTAMP,
                QueryPerformanceCounter CPUTimestamps_ReadbackBackbufferEnd,
                QueryPerformanceCounter CPUTimestamps_ComputeSATStart,
                QueryPerformanceCounter CPUTimestamps_ComputeSATEnd,
                QueryPerformanceCounter CPUTimestamps_SATUploadStart,
                glQueryCounter GPUTimestamps_SATUploadStart GL_TIMESTAMP,
                glBindTexture GL_TEXTURE_2D sat] @
               map (\<lambda>row. glTexSubImage2D GL_TEXTURE_2D 0 0 (int row) (int w) 1
                      GL_RGBA_INTEGER GL_UNSIGNED_INT (take w (drop (row * sw) table))) [0..<h] @
               [glBindTexture GL_TEXTURE_2D 0,
                glQueryCounter GPUTimestamps_SATUploadEnd GL_TIMESTAMP,
                QueryPerformanceCounter CPUTimestamps_SATUploadEnd]) \<and>
           length rows = sw * sh \<and> length table = sw * sh \<and>
           (\<forall>row < h. \<forall>col < w.
              rows ! (row * sw + col) =
                (\<Sum>c\<le>col. decoded (gamma_float inp) (backbuffer_pixels inp (row * w + c))) \<and>
              table ! (row * sw + col) =
                (\<Sum>r\<le>row. \<Sum>c\<le>col. decoded (gamma_float inp) (backbuffer_pixels inp (r * w + c))))"
proof -
  let ?g = "gamma_float inp"
  let ?rb = "map (backbuffer_pixels inp) [0..<w * h]"
  let ?s1 = "s\<lparr>mCPUBackbufferReadback := ?rb\<rparr>"
  have ready1: "host_ready ?s1 w h sw sh"
    using ready by (simp add: host_ready_def)
  have dec1: "\<forall>i < w * h. decodable ?g (mCPUBackbufferReadback ?s1 ! i)"
    using dec by simp
  from host_path_tables [OF ready1 dec1] obtain rows table where
    rows: "Paint_CPU_sum_rows ?g ?s1 = Inr rows"
    and table: "Paint_CPU_sum_cols ?s1 rows = Inr table"
    and len: "length rows = sw * sh" "length table = sw * sh"
    and cells: "\<forall>row < h. \<forall>col < w.
              rows ! (row * sw + col) = row_sum ?g ?rb w row col \<and>
              table ! (row * sw + col) = area_sum ?g ?rb w row col"
    by (elim exE conjE) simp
  let ?s2 = "?s1\<lparr>mCPUSummedAreaTable := table\<rparr>"
  have ready2: "host_ready ?s2 w h sw sh"
    using ready len by (simp add: host_ready_def)
  from ptr obtain sat where sat: "deref_mSummedAreaTableTO s = Inr sat"
    by (cases "mSummedAreaTableTO s"; cases "the (mSummedAreaTableTO s)")
      (auto simp: deref_mSummedAreaTableTO_def)
  then have sat2: "deref_mSummedAreaTableTO ?s2 = Inr sat"
    by (simp add: deref_mSummedAreaTableTO_def split: option.splits texture_member.splits)
  have up: "Paint_CPU_upload_rows ?s2 [0..<h] =
      Inr (map (\<lambda>row. glTexSubImage2D GL_TEXTURE_2D 0 0 (int row) (int w) 1
                  GL_RGBA_INTEGER GL_UNSIGNED_INT (take w (drop (row * sw) table))) [0..<h])"
  proof -
    have "set [0..<h] \<subseteq> {..<h}" by auto
    from upload_rows_ready [OF ready2 order_refl this] show ?thesis by simp
  qed
  have h: "nat (mBackbufferHeight s) = h"
    using ready by (simp add: host_ready_def)
  have sums: "row_sum ?g ?rb w row col = (\<Sum>c\<le>col. decoded ?g (backbuffer_pixels inp (row * w + c)))"
      "area_sum ?g ?rb w row col = (\<Sum>r\<le>row. \<Sum>c\<le>col. decoded ?g (backbuffer_pixels inp (r * w + c)))"
    if "row < h" "col < w" for row col
  proof -
    have i: "?rb ! (r * w + c) = backbuffer_pixels inp (r * w + c)" if "r \<le> row" "c \<le> col" for r c
    proof -
      have "r < h" "c < w"
        using that \<open>row < h\<close> \<open>col < w\<close> by simp_all
      then have "r * w + c < w * h"
        by (rule cell_in_image)
      then show ?thesis by simp
    qed
    show "row_sum ?g ?rb w row col = (\<Sum>c\<le>col. decoded ?g (backbuffer_pixels inp (row * w + c)))"
      unfolding row_sum_def by (intro sum.cong) (simp_all add: i)
    show "area_sum ?g ?rb w row col = (\<Sum>r\<le>row. \<Sum>c\<le>col. decoded ?g (backbuffer_pixels inp (r * w + c)))"
      unfolding area_sum_def by (intro sum.cong) (simp_all add: i)
  qed
  show ?thesis
  proof (rule exI [of _ rows], rule exI [of _ table], rule exI [of _ sat], intro conjI allI impI)
    show "Paint_CPU_sum_rows ?g ?s1 = Inr rows" by (rule rows)
    show "deref_mSummedAreaTableTO s = Inr sat" by (rule sat)
    show "length rows = sw * sh" "length table = sw * sh" by (rule len)+
    show "Paint_CPU_SAT inp s = Inr (s\<lparr>mCPUBackbufferReadback := ?rb, mCPUSummedAreaTable := table\<rparr>,
               [QueryPerformanceCounter CPUTimestamps_ReadbackBackbufferStart,
                glQueryCounter GPUTimestamps_ReadbackBackbufferStart GL_TIMESTAMP,
                glBindFramebuffer GL_READ_FRAMEBUFFER (mBackbufferFBOSS s),
                glReadPixels 0 0 (mBackbufferWidth s) (mBackbufferHeight s) GL_RGBA GL_UNSIGNED_BYTE,
                glBindFramebuffer GL_READ_FRAMEBUFFER 0,
                glQueryCounter GPUTimestamps_ReadbackBackbufferEnd GL_TIMESTAMP,
                QueryPerformanceCounter CPUTimestamps_ReadbackBackbufferEnd,
                QueryPerformanceCounter CPUTimestamps_ComputeSATStart,
                QueryPerformanceCounter CPUTimestamps_ComputeSATEnd,
                QueryPerformanceCounter CPUTimestamps_SATUploadStart,
                glQueryCounter GPUTimestamps_SATUploadStart GL_TIMESTAMP,
                glBindTexture GL_TEXTURE_2D sat] @
               map (\<lambda>row. glTexSubImage2D GL_TEXTURE_2D 0 0 (int row) (int w) 1
                      GL_RGBA_INTEGER GL_UNSIGNED_INT (take w (drop (row * sw) table))) [0..<h] @
               [glBindTexture GL_TEXTURE_2D 0,
                glQueryCounter GPUTimestamps_SATUploadEnd GL_TIMESTAMP,
                QueryPerformanceCounter CPUTimestamps_SATUploadEnd])"
      unfolding Paint_CPU_SAT_def Let_def
      by (simp add: read_pixels_ready [OF ready] rows table sat2 h up)
  next
    fix row col
    assume rc: "row < h" "col < w"
    show "rows ! (row * sw + col) =
        (\<Sum>c\<le>col. decoded ?g (backbuffer_pixels inp (row * w + c)))"
      using cells rc sums(1) [OF rc] by simp
    show "table ! (row * sw + col) =
        (\<Sum>r\<le>row. \<Sum>c\<le>col. decoded ?g (backbuffer_pixels inp (r * w + c)))"
      using cells rc sums(2) [OF rc] by simp
  qed
qed

subsection \<open>The gamma decode\<close>

lemma float_to_uint_Inr:
  "float_to_uint x = Inr v \<Longrightarrow> v = word_of_int (if 0 \<le> x then \<lfloor>x\<rfloor> else \<lceil>x\<rceil>)"
  by (auto simp: float_to_uint_def Let_def split: if_splits)

lemma decoded_channels:
  assumes "decodable g p"
  shows "decoded g p =
     UVec4 (word_of_int (if 0 \<le> g (unat (r8 p)) then \<lfloor>g (unat (r8 p))\<rfloor> else \<lceil>g (unat (r8 p))\<rceil>))
           (word_of_int (if 0 \<le> g (unat (g8 p)) then \<lfloor>g (unat (g8 p))\<rfloor> else \<lceil>g (unat (g8 p))\<rceil>))
           (word_of_int (if 0 \<le> g (unat (b8 p)) then \<lfloor>g (unat (b8 p))\<rfloor> else \<lceil>g (unat (b8 p))\<rceil>))
           (word_of_int (if 0 \<le> g (unat (a8 p)) then \<lfloor>g (unat (a8 p))\<rfloor> else \<lceil>g (unat (a8 p))\<rceil>))"
proof -
  from assms obtain v where v: "gamma_decode g p = Inr v"
    by (auto simp: decodable_def)
  then obtain x y z w where
    "float_to_uint (g (unat (r8 p))) = Inr x" "float_to_uint (g (unat (g8 p))) = Inr y"
    "float_to_uint (g (unat (b8 p))) = Inr z" "float_to_uint (g (unat (a8 p))) = Inr w"
    "v = UVec4 x y z w"
    by (auto simp: gamma_decode_def and_then_Inr_iff)
  then show ?thesis
    using v by (simp add: decoded_def float_to_uint_Inr)
qed

lemma gamma_decode_white:
  assumes "g 255 = 255"
  shows "gamma_decode g (U8Vec4 255 255 255 255) = Inr (UVec4 255 255 255 255)"
  using assms by (simp add: gamma_decode_def float_to_uint_def)

lemma exact_gamma_128:
  "55 < 255 * (128 / 255) powr (11 / 5 :: real)" "255 * (128 / 255) powr (11 / 5 :: real) < 56"
proof -
  define x :: real where "x = (128 / 255) powr (11 / 5)"
  have x0: "0 \<le> x"
    by (simp add: x_def)
  have "x ^ 5 = ((128 / 255) powr (11 / 5)) powr 5"
    unfolding x_def by (simp add: powr_numeral)
  also have "\<dots> = (128 / 255) powr 11"
    by (simp add: powr_powr)
  also have "\<dots> = (128 / 255 :: real) ^ 11"
    by (simp add: powr_numeral)
  finally have x5: "x ^ 5 = (128 / 255) ^ 11" .
  have "(55 / 255) ^ 5 < x ^ 5"
    unfolding x5 by (simp add: field_simps)
  then have "55 / 255 < x"
    using x0 by (rule power_less_imp_less_base)
  then show "55 < 255 * (128 / 255) powr (11 / 5 :: real)"
    unfolding x_def by simp
  have "x ^ 5 < (56 / 255) ^ 5"
    unfolding x5 by (simp add: field_simps)
  then have "x < 56 / 255"
    by (rule power_less_imp_less_base) simp
  then show "255 * (128 / 255) powr (11 / 5 :: real) < 56"
    unfolding x_def by simp
qed

lemma sum_constant_uvec4:
  "(\<Sum>i\<le>n. UVec4 a b c d) = UVec4 (of_nat (Suc n) * a) (of_nat (Suc n) * b) (of_nat (Suc n) * c) (of_nat (Suc n) * d)"
  by (induction n) (simp_all add: plus_uvec4_def zero_uvec4_def algebra_simps)

lemma exact_gamma_range:
  assumes "c < 256"
  shows "0 \<le> exact_gamma c" and "exact_gamma c \<le> 255"
proof -
  show "0 \<le> exact_gamma c"
    by (simp add: exact_gamma_def)
  have "real c / 255 \<le> 1"
    using assms by simp
  then have "(real c / 255) powr (22 / 10) \<le> 1"
    by (intro powr_le1) simp_all
  then show "exact_gamma c \<le> 255"
    by (simp add: exact_gamma_def)
qed

lemma float_to_uint_exact_gamma:
  assumes "c < 256"
  shows "float_to_uint (exact_gamma c) = Inr (word_of_int \<lfloor>exact_gamma c\<rfloor>)"
proof -
  note r = exact_gamma_range [OF assms]
  have "0 \<le> \<lfloor>exact_gamma c\<rfloor>"
    using r(1) by simp
  moreover have "\<lfloor>exact_gamma c\<rfloor> \<le> 255"
    using r(2) by (simp add: floor_le_iff)
  ultimately show ?thesis
    using r(1) by (simp add: float_to_uint_def)
qed

lemma unat_channel: "unat (x :: 8 word) < 256"
proof -
  have "unat x < 2 ^ LENGTH(8)"
    by (rule unsigned_less)
  then show ?thesis
    by simp
qed

lemma gamma_decode_exact:
  assumes "\<forall>c < 256. g c = exact_gamma c"
  shows "gamma_decode g p = Inr (gamma_floor p)"
    and "decodable g p" and "decoded g p = gamma_floor p"
proof -
  show d: "gamma_decode g p = Inr (gamma_floor p)"
    using assms
    by (simp add: gamma_decode_def gamma_floor_def unat_channel float_to_uint_exact_gamma)
  then show "decodable g p" "decoded g p = gamma_floor p"
    by (simp_all add: decodable_def decoded_def)
qed


lemma exact_gamma_128_upper_half:
  "111 / 2 < 255 * (128 / 255) powr (11 / 5 :: real)"
proof -
  define x :: real where "x = (128 / 255) powr (11 / 5)"
  have x0: "0 \<le> x"
    by (simp add: x_def)
  have "x ^ 5 = ((128 / 255) powr (11 / 5)) powr 5"
    unfolding x_def by (simp add: powr_numeral)
  also have "\<dots> = (128 / 255) powr 11"
    by (simp add: powr_powr)
  also have "\<dots> = (128 / 255 :: real) ^ 11"
    by (simp add: powr_numeral)
  finally have x5: "x ^ 5 = (128 / 255) ^ 11" .
  have "(111 / 510) ^ 5 < x ^ 5"
    unfolding x5 by (simp add: field_simps)
  then have "111 / 510 < x"
    using x0 by (rule power_less_imp_less_base)
  then show ?thesis
    unfolding x_def by simp
qed

lemma example_gamma_white: "gamma_float example_input 255 = 255"
  by (simp add: example_input_def)

lemma example_pixels_white: "backbuffer_pixels example_input i = U8Vec4 255 255 255 255"
  by (simp add: example_input_def)

lemma decoded_white:
  assumes "g 255 = 255"
  shows "decodable g (U8Vec4 255 255 255 255)"
    and "decoded g (U8Vec4 255 255 255 255) = UVec4 255 255 255 255"
  using gamma_decode_white [of g, OF assms] by (simp_all add: decodable_def decoded_def)

lemma white_area_sum:
  "(\<Sum>r\<le>7::nat. \<Sum>c\<le>7::nat. UVec4 255 255 255 255) = UVec4 16320 16320 16320 16320"
  "(\<Sum>c\<le>7::nat. UVec4 255 255 255 255) = UVec4 2040 2040 2040 2040"
  "(\<Sum>r\<le>7::nat. UVec4 2040 2040 2040 2040) = UVec4 16320 16320 16320 16320"
  by (simp_all add: sum_constant_uvec4)

lemma example_state_host_ready: "host_ready example_state 8 8 8 8"
  by (simp add: host_ready_def example_state_def INT_MAX_def)

lemma example_gamma_exact: "\<forall>c < 256. gamma_float example_input c = exact_gamma c"
  by (simp add: example_input_def exact_gamma_def)

lemma gamma_floor_white: "gamma_floor (U8Vec4 255 255 255 255) = UVec4 255 255 255 255"
  by (simp add: gamma_floor_def exact_gamma_def)



text \<open>
  Claim C3. After \<open>Resize\<close> to 8 by 8 with tiles of four, for an image whose pixels are all
  (255, 255, 255, 255), and a float \<open>pow\<close> that gives 255 for the channel value 255, the
  decode of the pixel is 255 in every channel and the host path leaves 64 * 255 in every
  channel of the table's entry for row 7 and column 7.
\<close>

theorem white_image_table_corner:
  assumes "Resize 4 heap 8 8 (s0, n0) = Inr (s, n, calls0)"
    and "\<forall>i. backbuffer_pixels inp i = U8Vec4 255 255 255 255"
    and "gamma_float inp 255 = 255"
  shows "gamma_decode (gamma_float inp) (U8Vec4 255 255 255 255) = Inr (UVec4 255 255 255 255) \<and>
         mSummedAreaTableWidth s = 8 \<and>
         (\<exists>s' calls. Paint_CPU_SAT inp s = Inr (s', calls) \<and>
            mCPUSummedAreaTable s' ! (7 * 8 + 7) = UVec4 (64 * 255) (64 * 255) (64 * 255) (64 * 255))"
proof -
  from assms(1) have r: "Resize (2 ^ 2) heap 8 8 (s0, n0) = Inr (s, n, calls0)"
    by simp
  have sw: "mSummedAreaTableWidth s = 8" "mSummedAreaTableHeight s = 8"
    using Resize_padded [OF r] by simp_all
  have ready: "host_ready s 8 8 8 8"
    using Resize_host_ready [OF r] sw by simp
  have a: "mSummedAreaTableTO s \<noteq> None"
    using Resize_alias [OF assms(1)] by simp
  have d: "\<forall>i < 8 * 8. decodable (gamma_float inp) (backbuffer_pixels inp i)"
    using assms(2) decoded_white(1) [of "gamma_float inp", OF assms(3)] by simp
  from host_path_Paint_CPU_SAT [OF ready a d] obtain table calls where
    p: "Paint_CPU_SAT inp s =
         Inr (s\<lparr>mCPUBackbufferReadback := map (backbuffer_pixels inp) [0..<8 * 8],
                 mCPUSummedAreaTable := table\<rparr>, calls)"
    and c: "\<forall>row < 8. \<forall>col < 8.
              table ! (row * 8 + col) =
                (\<Sum>r\<le>row. \<Sum>c\<le>col. decoded (gamma_float inp) (backbuffer_pixels inp (r * 8 + c)))"
    by (elim exE conjE) simp
  from c [rule_format, of 7 7] have "table ! (7 * 8 + 7) = UVec4 16320 16320 16320 16320"
    using assms(2)
    by (simp add: decoded_white(2) [of "gamma_float inp", OF assms(3)] white_area_sum)
  then have "\<exists>s' calls. Paint_CPU_SAT inp s = Inr (s', calls) \<and>
            mCPUSummedAreaTable s' ! (7 * 8 + 7) = UVec4 (64 * 255) (64 * 255) (64 * 255) (64 * 255)"
    using p by simp
  then show ?thesis
    using gamma_decode_white [of "gamma_float inp", OF assms(3)] sw(1) by simp
qed

theorem white_image_table_corner_witness:
  "\<exists>s n calls0 s' calls.
     Resize 4 zero_heap 8 8 (Init 1 NewRenderer, first_names) = Inr (s, n, calls0) \<and>
     Paint_CPU_SAT example_input s = Inr (s', calls) \<and>
     mCPUSummedAreaTable s' ! 63 = UVec4 16320 16320 16320 16320"
proof -
  from example_state_Resize obtain n calls0 where
    r: "Resize 4 zero_heap 8 8 (Init 1 NewRenderer, first_names) = Inr (example_state, n, calls0)"
    by (elim exE)
  have w: "\<forall>i. backbuffer_pixels example_input i = U8Vec4 255 255 255 255"
    by (simp add: example_pixels_white)
  from white_image_table_corner [OF r w example_gamma_white] obtain s' calls where
    "Paint_CPU_SAT example_input example_state = Inr (s', calls)"
    "mCPUSummedAreaTable s' ! 63 = UVec4 16320 16320 16320 16320"
    by (elim exE conjE) simp
  with r show ?thesis
    by (intro exI conjI) assumption+
qed

subsection \<open>The device path, step by step\<close>

lemma gl_run_append: "gl_run P d inp (xs @ ys) G = gl_run P d inp ys (gl_run P d inp xs G)"
  by (simp add: gl_run_def)

lemma sat_up_input_color [simp]:
  "sat_up_input tile d 0 0 color acc = (\<lambda>x y. d (color x y))"
  by (rule ext)+ (simp add: sat_up_input_def)

lemma sat_up_input_uint [simp]:
  "sat_up_input tile d 1 0 color acc = acc"
  by (rule ext)+ (simp add: sat_up_input_def)

lemma sat_up_input_wgsum [simp]:
  "sat_up_input tile d 0 1 color acc = (\<lambda>x y. acc ((x + 1) * tile - 1) y)"
  by (rule ext)+ (simp add: sat_up_input_def)

lemma step1_rows:
  assumes "Paint_GPU_upsweep P inp s SATPass_Rows = Inr calls"
  shows "\<exists>groups. div_int (mSummedAreaTableWidth s) (SAT_WORKGROUP_SIZE_X P) = Inr groups \<and>
    uint_texels (gl_run P d inp calls G) = (uint_texels G)(mSummedRowsTO s :=
       sat_up (nat (SAT_WORKGROUP_SIZE_X P)) (\<lambda>x y. d (color_texels G (mBackbufferColorTOSS s) x y))
         (nat groups) (nat (mBackbufferHeight s)) (uint_texels G (mSummedRowsTO s))) \<and>
    color_texels (gl_run P d inp calls G) = color_texels G"
  using assms
  by (auto simp: Paint_GPU_upsweep_def and_then_Inr_iff gl_run_def gl_exec_def
      dispatch_compute_def unit_texels_def unit_colors_def Let_def split: option.splits)

lemma step1_cols:
  assumes "Paint_GPU_upsweep P inp s SATPass_Cols = Inr calls"
  shows "\<exists>groups. div_int (mSummedAreaTableHeight s) (SAT_WORKGROUP_SIZE_X P) = Inr groups \<and>
    uint_texels (gl_run P d inp calls G) = (uint_texels G)(mSummedColsTO s :=
       sat_up (nat (SAT_WORKGROUP_SIZE_X P)) (uint_texels G (mSummedColsTO s))
         (nat groups) (nat (mBackbufferWidth s)) (uint_texels G (mSummedColsTO s))) \<and>
    color_texels (gl_run P d inp calls G) = color_texels G"
  using assms
  by (auto simp: Paint_GPU_upsweep_def and_then_Inr_iff gl_run_def gl_exec_def
      dispatch_compute_def unit_texels_def unit_colors_def Let_def split: option.splits)

lemma step2_rows:
  "uint_texels (gl_run P d inp (Paint_GPU_upsweep_wgsums inp s SATPass_Rows) G) =
     (uint_texels G)(mSummedRowsWGSumsTO s :=
       sat_up (nat (SAT_WORKGROUP_SIZE_X P))
         (\<lambda>x y. uint_texels G (mSummedRowsTO s) ((x + 1) * nat (SAT_WORKGROUP_SIZE_X P) - 1) y)
         1 (nat (mBackbufferHeight s)) (uint_texels G (mSummedRowsWGSumsTO s)))"
  "color_texels (gl_run P d inp (Paint_GPU_upsweep_wgsums inp s SATPass_Rows) G) = color_texels G"
  by (simp_all add: Paint_GPU_upsweep_wgsums_def gl_run_def gl_exec_def
      dispatch_compute_def unit_texels_def unit_colors_def Let_def split: option.splits)

lemma step2_cols:
  "uint_texels (gl_run P d inp (Paint_GPU_upsweep_wgsums inp s SATPass_Cols) G) =
     (uint_texels G)(mSummedColsWGSumsTO s :=
       sat_up (nat (SAT_WORKGROUP_SIZE_X P))
         (\<lambda>x y. uint_texels G (mSummedColsTO s) ((x + 1) * nat (SAT_WORKGROUP_SIZE_X P) - 1) y)
         1 (nat (mBackbufferWidth s)) (uint_texels G (mSummedColsWGSumsTO s)))"
  "color_texels (gl_run P d inp (Paint_GPU_upsweep_wgsums inp s SATPass_Cols) G) = color_texels G"
  by (simp_all add: Paint_GPU_upsweep_wgsums_def gl_run_def gl_exec_def
      dispatch_compute_def unit_texels_def unit_colors_def Let_def split: option.splits)

lemma step3_rows:
  assumes "SummedAreaTableDownsweepSP inp \<noteq> SummedAreaTableUpsweepSP inp"
  shows "uint_texels (gl_run P d inp (Paint_GPU_downsweep_wgsums inp s SATPass_Rows) G) =
     (uint_texels G)(mSummedRowsWGSumsTO s :=
       sat_down (nat (SAT_WORKGROUP_SIZE_X P)) 0
         (unit_texels G (image_unit G SAT_WGSUMS_IMAGE_BINDING))
         1 (nat (mBackbufferHeight s)) (uint_texels G (mSummedRowsWGSumsTO s)))"
  "color_texels (gl_run P d inp (Paint_GPU_downsweep_wgsums inp s SATPass_Rows) G) = color_texels G"
  using assms
  by (simp_all add: Paint_GPU_downsweep_wgsums_def gl_run_def gl_exec_def
      dispatch_compute_def unit_texels_def unit_colors_def Let_def split: option.splits)

lemma step3_cols:
  assumes "SummedAreaTableDownsweepSP inp \<noteq> SummedAreaTableUpsweepSP inp"
  shows "uint_texels (gl_run P d inp (Paint_GPU_downsweep_wgsums inp s SATPass_Cols) G) =
     (uint_texels G)(mSummedColsWGSumsTO s :=
       sat_down (nat (SAT_WORKGROUP_SIZE_X P)) 0
         (unit_texels G (image_unit G SAT_WGSUMS_IMAGE_BINDING))
         1 (nat (mBackbufferWidth s)) (uint_texels G (mSummedColsWGSumsTO s)))"
  "color_texels (gl_run P d inp (Paint_GPU_downsweep_wgsums inp s SATPass_Cols) G) = color_texels G"
  using assms
  by (simp_all add: Paint_GPU_downsweep_wgsums_def gl_run_def gl_exec_def
      dispatch_compute_def unit_texels_def unit_colors_def Let_def split: option.splits)

lemma step4_rows:
  assumes "Paint_GPU_downsweep P inp s SATPass_Rows = Inr calls"
    and "SummedAreaTableDownsweepSP inp \<noteq> SummedAreaTableUpsweepSP inp"
  shows "\<exists>groups. div_int (mSummedAreaTableWidth s) (SAT_WORKGROUP_SIZE_X P) = Inr groups \<and>
    uint_texels (gl_run P d inp calls G) = (uint_texels G)(mSummedRowsTO s :=
       sat_down (nat (SAT_WORKGROUP_SIZE_X P)) 1 (uint_texels G (mSummedRowsWGSumsTO s))
         (nat groups) (nat (mBackbufferHeight s)) (uint_texels G (mSummedRowsTO s))) \<and>
    color_texels (gl_run P d inp calls G) = color_texels G"
  using assms
  by (auto simp: Paint_GPU_downsweep_def and_then_Inr_iff gl_run_def gl_exec_def
      dispatch_compute_def unit_texels_def unit_colors_def Let_def split: option.splits)

lemma step4_cols:
  assumes "Paint_GPU_downsweep P inp s SATPass_Cols = Inr calls"
    and "SummedAreaTableDownsweepSP inp \<noteq> SummedAreaTableUpsweepSP inp"
  shows "\<exists>groups. div_int (mSummedAreaTableHeight s) (SAT_WORKGROUP_SIZE_X P) = Inr groups \<and>
    uint_texels (gl_run P d inp calls G) = (uint_texels G)(mSummedColsTO s :=
       sat_down (nat (SAT_WORKGROUP_SIZE_X P)) 1 (uint_texels G (mSummedColsWGSumsTO s))
         (nat groups) (nat (mBackbufferWidth s)) (uint_texels G (mSummedColsTO s))) \<and>
    color_texels (gl_run P d inp calls G) = color_texels G"
  using assms
  by (auto simp: Paint_GPU_downsweep_def and_then_Inr_iff gl_run_def gl_exec_def
      dispatch_compute_def unit_texels_def unit_colors_def Let_def split: option.splits)

lemma step5_rows:
  assumes "Paint_GPU_transpose P inp s SATPass_Rows = Inr calls"
    and "TransposeSummedAreaTableSP inp \<noteq> SummedAreaTableUpsweepSP inp"
    and "TransposeSummedAreaTableSP inp \<noteq> SummedAreaTableDownsweepSP inp"
  shows "\<exists>across down.
    div_int (mSummedAreaTableWidth s) (TRANSPOSE_SAT_WORKGROUP_SIZE_X P) = Inr across \<and>
    div_int (mSummedAreaTableHeight s) (TRANSPOSE_SAT_WORKGROUP_SIZE_X P) = Inr down \<and>
    uint_texels (gl_run P d inp calls G) = (uint_texels G)(mSummedColsTO s :=
       sat_transpose (nat (TRANSPOSE_SAT_WORKGROUP_SIZE_X P)) (uint_texels G (mSummedRowsTO s))
         (nat across) (nat down) (uint_texels G (mSummedColsTO s))) \<and>
    color_texels (gl_run P d inp calls G) = color_texels G"
  using assms
  by (auto simp: Paint_GPU_transpose_def and_then_Inr_iff gl_run_def gl_exec_def
      dispatch_compute_def unit_texels_def unit_colors_def Let_def split: option.splits)

lemma step5_cols:
  assumes "Paint_GPU_transpose P inp s SATPass_Cols = Inr calls"
    and "TransposeSummedAreaTableSP inp \<noteq> SummedAreaTableUpsweepSP inp"
    and "TransposeSummedAreaTableSP inp \<noteq> SummedAreaTableDownsweepSP inp"
  shows "\<exists>across down sat.
    div_int (mSummedAreaTableWidth s) (TRANSPOSE_SAT_WORKGROUP_SIZE_X P) = Inr across \<and>
    div_int (mSummedAreaTableHeight s) (TRANSPOSE_SAT_WORKGROUP_SIZE_X P) = Inr down \<and>
    deref_mSummedAreaTableTO s = Inr sat \<and>
    uint_texels (gl_run P d inp calls G) = (uint_texels G)(sat :=
       sat_transpose (nat (TRANSPOSE_SAT_WORKGROUP_SIZE_X P)) (uint_texels G (mSummedColsTO s))
         (nat down) (nat across) (uint_texels G sat)) \<and>
    color_texels (gl_run P d inp calls G) = color_texels G"
  using assms
  by (auto simp: Paint_GPU_transpose_def and_then_Inr_iff gl_run_def gl_exec_def
      dispatch_compute_def unit_texels_def unit_colors_def Let_def split: option.splits)

subsection \<open>The tiled scan is the prefix sum\<close>

lemma sum_by_tiles:
  fixes f :: "nat \<Rightarrow> uvec4"
  shows "(\<Sum>x<g * t. f x) = (\<Sum>k<g. \<Sum>j<t. f (k * t + j))"
proof (induction g)
  case 0
  show ?case by simp
next
  case (Suc g)
  have "{..<Suc g * t} = {..<g * t} \<union> {g * t..<g * t + t}"
    by auto
  moreover have "{..<g * t} \<inter> {g * t..<g * t + t} = {}"
    by auto
  ultimately have "(\<Sum>x<Suc g * t. f x) = (\<Sum>x<g * t. f x) + (\<Sum>x = g * t..<g * t + t. f x)"
    by (simp add: sum.union_disjoint)
  also have "(\<Sum>x = g * t..<g * t + t. f x) = (\<Sum>j<t. f (g * t + j))"
    using sum.shift_bounds_nat_ivl [of f 0 "g * t" t]
    by (simp add: atLeast0LessThan add.commute)
  finally show ?case
    using Suc.IH by simp
qed

lemma prefix_by_tile:
  fixes f :: "nat \<Rightarrow> uvec4"
  shows "(\<Sum>x'\<le>x. f x') = (\<Sum>x'<x div t * t. f x') + (\<Sum>l\<le>x mod t. f (x - x mod t + l))"
proof -
  define b m where "b = x div t * t" and "m = x mod t"
  have x: "x = b + m"
    by (simp add: b_def m_def)
  have xb: "x - m = b"
    using x by simp
  have "{..b + m} = {..<b} \<union> {b..b + m}"
    by auto
  moreover have "{..<b} \<inter> {b..b + m} = {}"
    by auto
  ultimately have "(\<Sum>x'\<le>b + m. f x') = (\<Sum>x'<b. f x') + (\<Sum>x' = b..b + m. f x')"
    by (simp add: sum.union_disjoint)
  also have "(\<Sum>x' = b..b + m. f x') = (\<Sum>l\<le>m. f (b + l))"
    using sum.shift_bounds_cl_nat_ivl [of f 0 b m]
    by (simp add: atMost_atLeast0 add.commute)
  finally have "(\<Sum>x'\<le>x. f x') = (\<Sum>x'<b. f x') + (\<Sum>l\<le>m. f (x - m + l))"
    unfolding xb x [symmetric] .
  then show ?thesis
    by (simp add: b_def m_def)
qed

lemma tile_scan_first_tile:
  assumes "x < t"
  shows "tile_scan t f x = (\<Sum>l\<le>x. f l)"
  using assms by (simp add: tile_scan_def)

lemma tile_scan_last:
  assumes "0 < t"
  shows "tile_scan t f ((k + 1) * t - 1) = (\<Sum>j<t. f (k * t + j))"
proof -
  define r where "r = t - 1"
  have r: "r < t" "Suc r = t"
    using assms by (simp_all add: r_def)
  have e: "(k + 1) * t - 1 = k * t + r"
    using r(2) by (simp add: algebra_simps r_def)
  have m: "(k * t + r) mod t = r"
    using r(1) by simp
  have "{..r} = {..<t}"
    using r(2) by auto
  then show ?thesis
    unfolding tile_scan_def e m by simp
qed

text \<open>
  Steps 1 to 4 on one row: the up-sweep, the up-sweep of the partial sums, their
  down-sweep and the down-sweep with carry-in leave the inclusive prefix sum of the row,
  when one workgroup covers the partial sums.
\<close>

lemma tiled_scan_prefix_sum:
  fixes input :: "nat \<Rightarrow> nat \<Rightarrow> uvec4"
  assumes t: "0 < t" and single: "nx \<le> t" and x: "x < nx * t" and y: "y < ny"
    and A: "\<And>x y. x < nx * t \<Longrightarrow> y < ny \<Longrightarrow> A x y = sat_up t input nx ny out x y"
    and S: "\<And>k y. k < t \<Longrightarrow> y < ny \<Longrightarrow>
              S k y = sat_up t (\<lambda>k y. A ((k + 1) * t - 1) y) 1 ny out' k y"
    and E: "\<And>k y. k < t \<Longrightarrow> y < ny \<Longrightarrow> E k y = sat_down t 0 any 1 ny S k y"
  shows "sat_down t 1 E nx ny A x y = (\<Sum>x'\<le>x. input x' y)"
proof -
  let ?g = "x div t"
  have g: "?g < nx"
    using x t by (simp add: less_mult_imp_div_less)
  then have gt: "?g < t"
    using single by simp
  have total: "A ((k + 1) * t - 1) y = (\<Sum>j<t. input (k * t + j) y)" if "k < nx" for k
  proof -
    have "Suc k \<le> nx"
      using that by simp
    then have "Suc k * t \<le> nx * t"
      by (rule mult_le_mono1)
    moreover have "0 < Suc k * t"
      using t by simp
    ultimately have "Suc k * t - 1 < nx * t"
      by linarith
    then have "(k + 1) * t - 1 < nx * t"
      by simp
    moreover define e where "e = (k + 1) * t - 1"
    ultimately have "e < nx * t"
      by simp
    then have "A e y = tile_scan t (\<lambda>x'. input x' y) e"
      using y by (simp add: A sat_up_def)
    then show ?thesis
      unfolding e_def tile_scan_last [OF t] .
  qed
  have Sk: "S k y = (\<Sum>l\<le>k. A ((l + 1) * t - 1) y)" if "k < t" for k
    using that y by (simp add: S sat_up_def tile_scan_first_tile)
  have Ek: "E k y = (\<Sum>l<k. A ((l + 1) * t - 1) y)" if "k < t" for k
  proof (cases k)
    case 0
    then show ?thesis
      using that y by (simp add: E sat_down_def)
  next
    case (Suc j)
    then have "E k y = S j y"
      using that y by (simp add: E sat_down_def)
    also have "\<dots> = (\<Sum>l\<le>j. A ((l + 1) * t - 1) y)"
      using that Suc by (intro Sk) simp
    finally show ?thesis
      using Suc by (simp add: lessThan_Suc_atMost)
  qed
  have "sat_down t 1 E nx ny A x y = A x y + E ?g y"
    using x y by (simp add: sat_down_def)
  also have "A x y = (\<Sum>l\<le>x mod t. input (x - x mod t + l) y)"
    using x y by (simp add: A sat_up_def tile_scan_def)
  also have "E ?g y = (\<Sum>l<?g. A ((l + 1) * t - 1) y)"
    using gt by (rule Ek)
  also have "\<dots> = (\<Sum>l<?g. \<Sum>j<t. input (l * t + j) y)"
    using g by (intro sum.cong refl total) simp
  also have "\<dots> = (\<Sum>x'<?g * t. input x' y)"
    by (simp add: sum_by_tiles)
  finally show ?thesis
    by (simp add: prefix_by_tile [of "\<lambda>x'. input x' y" x t] add.commute)
qed

subsection \<open>The two passes on the device\<close>

lemma div_int_Inr_nat:
  assumes "div_int (int a) (int b) = Inr q" and "0 < b"
  shows "nat q = a div b"
proof -
  have "sgn (int a) * sgn (int b) * (\<bar>int a\<bar> div \<bar>int b\<bar>) = int (a div b)"
    using assms(2) by (cases "a = 0") (simp_all add: zdiv_int)
  then show ?thesis
    using assms by (auto simp: div_int_def checked_Inr_iff)
qed

lemma sat_transpose_cell:
  assumes "x < nx * t" and "y < ny * t"
  shows "sat_transpose t input nx ny out y x = input x y"
  using assms by (simp add: sat_transpose_def)

lemma rows_pass_device:
  assumes pass: "Paint_GPU_pass P inp s SATPass_Rows = Inr calls"
    and progs: "SummedAreaTableDownsweepSP inp \<noteq> SummedAreaTableUpsweepSP inp"
      "TransposeSummedAreaTableSP inp \<noteq> SummedAreaTableUpsweepSP inp"
      "TransposeSummedAreaTableSP inp \<noteq> SummedAreaTableDownsweepSP inp"
    and names: "mSummedRowsTO s \<noteq> mSummedRowsWGSumsTO s" "mSummedColsTO s \<noteq> mSummedRowsTO s"
    and tile: "SAT_WORKGROUP_SIZE_X P = int t" "0 < t"
      "TRANSPOSE_SAT_WORKGROUP_SIZE_X P = int tt" "0 < tt"
    and size: "mSummedAreaTableWidth s = int sw" "mSummedAreaTableHeight s = int sh"
      "mBackbufferHeight s = int h" "sw div t \<le> t"
  shows "\<forall>x < sw div t * t. \<forall>y < h.
           uint_texels (gl_run P d inp calls G) (mSummedRowsTO s) x y =
             (\<Sum>x'\<le>x. d (color_texels G (mBackbufferColorTOSS s) x' y))"
    and "\<forall>x < sw div tt * tt. \<forall>y < sh div tt * tt.
           uint_texels (gl_run P d inp calls G) (mSummedColsTO s) y x =
             uint_texels (gl_run P d inp calls G) (mSummedRowsTO s) x y"
    and "color_texels (gl_run P d inp calls G) = color_texels G"
proof -
  from pass obtain step1 step4 step5 where
    s1: "Paint_GPU_upsweep P inp s SATPass_Rows = Inr step1"
    and s4: "Paint_GPU_downsweep P inp s SATPass_Rows = Inr step4"
    and s5: "Paint_GPU_transpose P inp s SATPass_Rows = Inr step5"
    and calls: "calls = step1 @ Paint_GPU_upsweep_wgsums inp s SATPass_Rows @
        Paint_GPU_downsweep_wgsums inp s SATPass_Rows @ step4 @ step5"
    unfolding Paint_GPU_pass_def and_then_Inr_iff by auto
  define G1 where "G1 = gl_run P d inp step1 G"
  define G2 where "G2 = gl_run P d inp (Paint_GPU_upsweep_wgsums inp s SATPass_Rows) G1"
  define G3 where "G3 = gl_run P d inp (Paint_GPU_downsweep_wgsums inp s SATPass_Rows) G2"
  define G4 where "G4 = gl_run P d inp step4 G3"
  define G5 where "G5 = gl_run P d inp step5 G4"
  have run: "gl_run P d inp calls G = G5"
    by (simp add: calls gl_run_append G1_def G2_def G3_def G4_def G5_def)
  let ?rows = "mSummedRowsTO s" and ?wg = "mSummedRowsWGSumsTO s" and ?cols = "mSummedColsTO s"
  let ?input = "\<lambda>x y. d (color_texels G (mBackbufferColorTOSS s) x y)"
  from step1_rows [OF s1, where d = d and G = G] obtain g1 where
    g1: "div_int (mSummedAreaTableWidth s) (SAT_WORKGROUP_SIZE_X P) = Inr g1"
    and u1: "uint_texels G1 = (uint_texels G)(?rows :=
        sat_up t ?input (nat g1) h (uint_texels G ?rows))"
    and c1: "color_texels G1 = color_texels G"
    by (auto simp: G1_def tile size)
  have n1: "nat g1 = sw div t"
    using g1 tile size by (intro div_int_Inr_nat) simp_all
  have u2: "uint_texels G2 = (uint_texels G1)(?wg :=
        sat_up t (\<lambda>x y. uint_texels G1 ?rows ((x + 1) * t - 1) y) 1 h (uint_texels G1 ?wg))"
    and c2: "color_texels G2 = color_texels G1"
    using step2_rows [where P = P and d = d and inp = inp and s = s and G = G1] by (simp_all add: G2_def tile size)
  have u3: "uint_texels G3 = (uint_texels G2)(?wg :=
        sat_down t 0 (unit_texels G2 (image_unit G2 SAT_WGSUMS_IMAGE_BINDING)) 1 h
          (uint_texels G2 ?wg))"
    and c3: "color_texels G3 = color_texels G2"
    using step3_rows [OF progs(1), where P = P and d = d and s = s and G = G2] by (simp_all add: G3_def tile size)
  from step4_rows [OF s4 progs(1), where d = d and G = G3] obtain g4 where
    g4: "div_int (mSummedAreaTableWidth s) (SAT_WORKGROUP_SIZE_X P) = Inr g4"
    and u4: "uint_texels G4 = (uint_texels G3)(?rows :=
        sat_down t 1 (uint_texels G3 ?wg) (nat g4) h (uint_texels G3 ?rows))"
    and c4: "color_texels G4 = color_texels G3"
    by (auto simp: G4_def tile size)
  have n4: "nat g4 = sw div t"
    using g4 tile size by (intro div_int_Inr_nat) simp_all
  from step5_rows [OF s5 progs(2,3), where d = d and G = G4] obtain across down where
    a: "div_int (mSummedAreaTableWidth s) (TRANSPOSE_SAT_WORKGROUP_SIZE_X P) = Inr across"
    and b: "div_int (mSummedAreaTableHeight s) (TRANSPOSE_SAT_WORKGROUP_SIZE_X P) = Inr down"
    and u5: "uint_texels G5 = (uint_texels G4)(?cols :=
        sat_transpose tt (uint_texels G4 ?rows) (nat across) (nat down) (uint_texels G4 ?cols))"
    and c5: "color_texels G5 = color_texels G4"
    by (auto simp: G5_def tile size)
  have na: "nat across = sw div tt" and nb: "nat down = sh div tt"
    using a b tile size by (simp_all add: div_int_Inr_nat)
  have A: "uint_texels G3 ?rows = sat_up t ?input (sw div t) h (uint_texels G ?rows)"
    using names(1) by (simp add: u3 u2 u1 n1)
  have S: "uint_texels G2 ?wg =
      sat_up t (\<lambda>k y. uint_texels G3 ?rows ((k + 1) * t - 1) y) 1 h (uint_texels G1 ?wg)"
    using names(1) by (simp add: u3 u2)
  have E: "uint_texels G3 ?wg =
      sat_down t 0 (unit_texels G2 (image_unit G2 SAT_WGSUMS_IMAGE_BINDING)) 1 h (uint_texels G2 ?wg)"
    by (simp add: u3)
  have r4: "uint_texels G4 ?rows x y = (\<Sum>x'\<le>x. ?input x' y)" if "x < sw div t * t" "y < h" for x y
  proof -
    have "sat_down t 1 (uint_texels G3 ?wg) (sw div t) h (uint_texels G3 ?rows) x y =
        (\<Sum>x'\<le>x. ?input x' y)"
      using tile(2) size(4) that
    proof (rule tiled_scan_prefix_sum)
      show "uint_texels G3 ?rows x y = sat_up t ?input (sw div t) h (uint_texels G ?rows) x y"
        for x y
        by (simp only: A)
      show "uint_texels G2 ?wg k y =
          sat_up t (\<lambda>k y. uint_texels G3 ?rows ((k + 1) * t - 1) y) 1 h (uint_texels G1 ?wg) k y"
        for k y
        by (simp only: S)
      show "uint_texels G3 ?wg k y =
          sat_down t 0 (unit_texels G2 (image_unit G2 SAT_WGSUMS_IMAGE_BINDING)) 1 h
            (uint_texels G2 ?wg) k y" for k y
        by (simp only: E)
    qed
    then show ?thesis
      by (simp add: u4 n4)
  qed
  have r5: "uint_texels G5 ?rows = uint_texels G4 ?rows"
    using names(2) by (simp add: u5)
  show "\<forall>x < sw div t * t. \<forall>y < h.
      uint_texels (gl_run P d inp calls G) ?rows x y = (\<Sum>x'\<le>x. ?input x' y)"
    unfolding run r5 using r4 by simp
  show "\<forall>x < sw div tt * tt. \<forall>y < sh div tt * tt.
      uint_texels (gl_run P d inp calls G) ?cols y x = uint_texels (gl_run P d inp calls G) ?rows x y"
    unfolding run r5 by (simp add: u5 na nb sat_transpose_cell)
  show "color_texels (gl_run P d inp calls G) = color_texels G"
    unfolding run by (simp add: c5 c4 c3 c2 c1)
qed

lemma cols_pass_device:
  assumes pass: "Paint_GPU_pass P inp s SATPass_Cols = Inr calls"
    and progs: "SummedAreaTableDownsweepSP inp \<noteq> SummedAreaTableUpsweepSP inp"
      "TransposeSummedAreaTableSP inp \<noteq> SummedAreaTableUpsweepSP inp"
      "TransposeSummedAreaTableSP inp \<noteq> SummedAreaTableDownsweepSP inp"
    and names: "mSummedColsTO s \<noteq> mSummedColsWGSumsTO s" "mSummedRowsTO s \<noteq> mSummedColsTO s"
    and ptr: "mSummedAreaTableTO s = Some SummedRowsTO"
    and tile: "SAT_WORKGROUP_SIZE_X P = int t" "0 < t"
      "TRANSPOSE_SAT_WORKGROUP_SIZE_X P = int tt" "0 < tt"
    and size: "mSummedAreaTableWidth s = int sw" "mSummedAreaTableHeight s = int sh"
      "mBackbufferWidth s = int w" "sh div t \<le> t"
  shows "\<forall>x < sh div t * t. \<forall>y < w.
           uint_texels (gl_run P d inp calls G) (mSummedColsTO s) x y =
             (\<Sum>x'\<le>x. uint_texels G (mSummedColsTO s) x' y)"
    and "\<forall>x < sh div tt * tt. \<forall>y < sw div tt * tt.
           uint_texels (gl_run P d inp calls G) (mSummedRowsTO s) y x =
             uint_texels (gl_run P d inp calls G) (mSummedColsTO s) x y"
    and "color_texels (gl_run P d inp calls G) = color_texels G"
proof -
  from pass obtain step1 step4 step5 where
    s1: "Paint_GPU_upsweep P inp s SATPass_Cols = Inr step1"
    and s4: "Paint_GPU_downsweep P inp s SATPass_Cols = Inr step4"
    and s5: "Paint_GPU_transpose P inp s SATPass_Cols = Inr step5"
    and calls: "calls = step1 @ Paint_GPU_upsweep_wgsums inp s SATPass_Cols @
        Paint_GPU_downsweep_wgsums inp s SATPass_Cols @ step4 @ step5"
    unfolding Paint_GPU_pass_def and_then_Inr_iff by auto
  define G1 where "G1 = gl_run P d inp step1 G"
  define G2 where "G2 = gl_run P d inp (Paint_GPU_upsweep_wgsums inp s SATPass_Cols) G1"
  define G3 where "G3 = gl_run P d inp (Paint_GPU_downsweep_wgsums inp s SATPass_Cols) G2"
  define G4 where "G4 = gl_run P d inp step4 G3"
  define G5 where "G5 = gl_run P d inp step5 G4"
  have run: "gl_run P d inp calls G = G5"
    by (simp add: calls gl_run_append G1_def G2_def G3_def G4_def G5_def)
  let ?rows = "mSummedColsTO s" and ?wg = "mSummedColsWGSumsTO s" and ?cols = "mSummedRowsTO s"
  let ?input = "uint_texels G (mSummedColsTO s)"
  from step1_cols [OF s1, where d = d and G = G] obtain g1 where
    g1: "div_int (mSummedAreaTableHeight s) (SAT_WORKGROUP_SIZE_X P) = Inr g1"
    and u1: "uint_texels G1 = (uint_texels G)(?rows :=
        sat_up t ?input (nat g1) w (uint_texels G ?rows))"
    and c1: "color_texels G1 = color_texels G"
    by (auto simp: G1_def tile size)
  have n1: "nat g1 = sh div t"
    using g1 tile size by (intro div_int_Inr_nat) simp_all
  have u2: "uint_texels G2 = (uint_texels G1)(?wg :=
        sat_up t (\<lambda>x y. uint_texels G1 ?rows ((x + 1) * t - 1) y) 1 w (uint_texels G1 ?wg))"
    and c2: "color_texels G2 = color_texels G1"
    using step2_cols [where P = P and d = d and inp = inp and s = s and G = G1] by (simp_all add: G2_def tile size)
  have u3: "uint_texels G3 = (uint_texels G2)(?wg :=
        sat_down t 0 (unit_texels G2 (image_unit G2 SAT_WGSUMS_IMAGE_BINDING)) 1 w
          (uint_texels G2 ?wg))"
    and c3: "color_texels G3 = color_texels G2"
    using step3_cols [OF progs(1), where P = P and d = d and s = s and G = G2] by (simp_all add: G3_def tile size)
  from step4_cols [OF s4 progs(1), where d = d and G = G3] obtain g4 where
    g4: "div_int (mSummedAreaTableHeight s) (SAT_WORKGROUP_SIZE_X P) = Inr g4"
    and u4: "uint_texels G4 = (uint_texels G3)(?rows :=
        sat_down t 1 (uint_texels G3 ?wg) (nat g4) w (uint_texels G3 ?rows))"
    and c4: "color_texels G4 = color_texels G3"
    by (auto simp: G4_def tile size)
  have n4: "nat g4 = sh div t"
    using g4 tile size by (intro div_int_Inr_nat) simp_all
  have sat: "deref_mSummedAreaTableTO s = Inr ?cols"
    using ptr by (simp add: deref_mSummedAreaTableTO_def)
  from step5_cols [OF s5 progs(2,3), where d = d and G = G4] obtain across down where
    a: "div_int (mSummedAreaTableWidth s) (TRANSPOSE_SAT_WORKGROUP_SIZE_X P) = Inr across"
    and b: "div_int (mSummedAreaTableHeight s) (TRANSPOSE_SAT_WORKGROUP_SIZE_X P) = Inr down"
    and u5: "uint_texels G5 = (uint_texels G4)(?cols :=
        sat_transpose tt (uint_texels G4 ?rows) (nat down) (nat across) (uint_texels G4 ?cols))"
    and c5: "color_texels G5 = color_texels G4"
    by (auto simp: G5_def tile size sat)
  have na: "nat across = sw div tt" and nb: "nat down = sh div tt"
    using a b tile size by (simp_all add: div_int_Inr_nat)
  have A: "uint_texels G3 ?rows = sat_up t ?input (sh div t) w (uint_texels G ?rows)"
    using names(1) by (simp add: u3 u2 u1 n1)
  have S: "uint_texels G2 ?wg =
      sat_up t (\<lambda>k y. uint_texels G3 ?rows ((k + 1) * t - 1) y) 1 w (uint_texels G1 ?wg)"
    using names(1) by (simp add: u3 u2)
  have E: "uint_texels G3 ?wg =
      sat_down t 0 (unit_texels G2 (image_unit G2 SAT_WGSUMS_IMAGE_BINDING)) 1 w (uint_texels G2 ?wg)"
    by (simp add: u3)
  have r4: "uint_texels G4 ?rows x y = (\<Sum>x'\<le>x. ?input x' y)" if "x < sh div t * t" "y < w" for x y
  proof -
    have "sat_down t 1 (uint_texels G3 ?wg) (sh div t) w (uint_texels G3 ?rows) x y =
        (\<Sum>x'\<le>x. ?input x' y)"
      using tile(2) size(4) that
    proof (rule tiled_scan_prefix_sum)
      show "uint_texels G3 ?rows x y = sat_up t ?input (sh div t) w (uint_texels G ?rows) x y"
        for x y
        by (simp only: A)
      show "uint_texels G2 ?wg k y =
          sat_up t (\<lambda>k y. uint_texels G3 ?rows ((k + 1) * t - 1) y) 1 w (uint_texels G1 ?wg) k y"
        for k y
        by (simp only: S)
      show "uint_texels G3 ?wg k y =
          sat_down t 0 (unit_texels G2 (image_unit G2 SAT_WGSUMS_IMAGE_BINDING)) 1 w
            (uint_texels G2 ?wg) k y" for k y
        by (simp only: E)
    qed
    then show ?thesis
      by (simp add: u4 n4)
  qed
  have r5: "uint_texels G5 ?rows = uint_texels G4 ?rows"
    using names(2) by (simp add: u5)
  show "\<forall>x < sh div t * t. \<forall>y < w.
      uint_texels (gl_run P d inp calls G) ?rows x y = (\<Sum>x'\<le>x. ?input x' y)"
    unfolding run r5 using r4 by simp
  show "\<forall>x < sh div tt * tt. \<forall>y < sw div tt * tt.
      uint_texels (gl_run P d inp calls G) ?cols y x = uint_texels (gl_run P d inp calls G) ?rows x y"
    unfolding run r5 by (simp add: u5 na nb sat_transpose_cell)
  show "color_texels (gl_run P d inp calls G) = color_texels G"
    unfolding run by (simp add: c5 c4 c3 c2 c1)
qed

lemma gl_run_Cons: "gl_run P d inp (c # cs) G = gl_run P d inp cs (gl_exec P d inp G c)"
  by (simp add: gl_run_def)

lemma gl_run_Nil: "gl_run P d inp [] G = G"
  by (simp add: gl_run_def)

lemma upload_rows_device:
  assumes "texture_2D G = sat"
  shows "texture_2D (gl_run P d inp
           (map (\<lambda>row. glTexSubImage2D GL_TEXTURE_2D 0 0 (int row) (int w) 1
                  GL_RGBA_INTEGER GL_UNSIGNED_INT (take w (drop (row * sw) table))) [0..<h]) G) = sat \<and>
         color_texels (gl_run P d inp
           (map (\<lambda>row. glTexSubImage2D GL_TEXTURE_2D 0 0 (int row) (int w) 1
                  GL_RGBA_INTEGER GL_UNSIGNED_INT (take w (drop (row * sw) table))) [0..<h]) G) =
           color_texels G \<and>
         uint_texels (gl_run P d inp
           (map (\<lambda>row. glTexSubImage2D GL_TEXTURE_2D 0 0 (int row) (int w) 1
                  GL_RGBA_INTEGER GL_UNSIGNED_INT (take w (drop (row * sw) table))) [0..<h]) G) =
           (uint_texels G)(sat := (\<lambda>x y. if x < w \<and> y < h then take w (drop (y * sw) table) ! x
              else uint_texels G sat x y))"
proof (induction h)
  case 0
  show ?case
    using assms by (simp add: gl_run_Nil)
next
  case (Suc h)
  let ?up = "\<lambda>row. glTexSubImage2D GL_TEXTURE_2D 0 0 (int row) (int w) 1
                  GL_RGBA_INTEGER GL_UNSIGNED_INT (take w (drop (row * sw) table))"
  define G' where "G' = gl_run P d inp (map ?up [0..<h]) G"
  have run: "gl_run P d inp (map ?up [0..<Suc h]) G = gl_exec P d inp G' (?up h)"
    by (simp add: gl_run_append gl_run_Cons gl_run_Nil G'_def)
  note IH = Suc.IH [folded G'_def]
  have ih: "texture_2D G' = sat" "color_texels G' = color_texels G"
    "uint_texels G' = (uint_texels G)(sat := (\<lambda>x y. if x < w \<and> y < h
        then take w (drop (y * sw) table) ! x else uint_texels G sat x y))"
    using IH [THEN conjunct1] IH [THEN conjunct2, THEN conjunct1]
      IH [THEN conjunct2, THEN conjunct2] .
  have "uint_texels (gl_exec P d inp G' (?up h)) =
      (uint_texels G)(sat := (\<lambda>x y. if x < w \<and> y < Suc h then take w (drop (y * sw) table) ! x
              else uint_texels G sat x y))"
    by (rule ext, rule ext, rule ext) (auto simp: gl_exec_def ih less_Suc_eq)
  moreover have "texture_2D (gl_exec P d inp G' (?up h)) = sat"
    "color_texels (gl_exec P d inp G' (?up h)) = color_texels G"
    by (simp_all add: gl_exec_def ih)
  ultimately show ?case
    unfolding run by simp
qed

subsection \<open>The table on the device, by either path\<close>

lemma div_int_nat:
  assumes "0 < b" and "int a \<le> INT_MAX"
  shows "div_int (int a) (int b) = Inr (int (a div b))"
proof -
  have "sgn (int a) * sgn (int b) * (\<bar>int a\<bar> div \<bar>int b\<bar>) = int (a div b)"
    using assms(1) by (cases "a = 0") (simp_all add: zdiv_int)
  moreover have "int (a div b) \<le> INT_MAX"
    using assms(2) div_le_dividend [of a b] by linarith
  moreover have "INT_MIN \<le> int (a div b)"
    by (simp add: INT_MIN_def)
  ultimately show ?thesis
    using assms(1) by (simp add: div_int_def checked_def)
qed

lemma gl_exec_glQueryCounter [simp]: "gl_exec P d inp G (glQueryCounter i target) = G"
  by (simp add: gl_exec_def)

lemma device_path_table:
  assumes ready: "host_ready s w h sw sh"
    and ptr: "mSummedAreaTableTO s = Some SummedRowsTO"
    and names: "mSummedRowsTO s \<noteq> mSummedRowsWGSumsTO s" "mSummedColsTO s \<noteq> mSummedRowsTO s"
      "mSummedColsTO s \<noteq> mSummedColsWGSumsTO s"
    and tile: "SAT_WORKGROUP_SIZE_X P = int t" "0 < t"
      "TRANSPOSE_SAT_WORKGROUP_SIZE_X P = int tt" "0 < tt"
    and dv: "t dvd sw" "t dvd sh" "tt dvd sw" "tt dvd sh"
    and single: "sw div t \<le> t" "sh div t \<le> t"
    and range: "int sw \<le> INT_MAX" "int sh \<le> INT_MAX"
    and progs: "distinct [0, SummedAreaTableUpsweepSP inp, SummedAreaTableDownsweepSP inp,
      TransposeSummedAreaTableSP inp]"
  shows "\<exists>rows cols.
      Paint_GPU_pass P inp s SATPass_Rows = Inr rows \<and>
      Paint_GPU_pass P inp s SATPass_Cols = Inr cols \<and>
      Paint_GPU_SAT P inp s =
        Inr ([glQueryCounter GPUTimestamps_ComputeSATStart GL_TIMESTAMP] @ rows @ cols @
             [glQueryCounter GPUTimestamps_ComputeSATEnd GL_TIMESTAMP]) \<and>
      (\<forall>row < h. \<forall>col < w.
         uint_texels (gl_run P d inp rows G) (mSummedRowsTO s) col row =
           (\<Sum>c\<le>col. d (color_texels G (mBackbufferColorTOSS s) c row)) \<and>
         uint_texels (gl_run P d inp
             ([glQueryCounter GPUTimestamps_ComputeSATStart GL_TIMESTAMP] @ rows @ cols @
              [glQueryCounter GPUTimestamps_ComputeSATEnd GL_TIMESTAMP]) G) (mSummedRowsTO s) col row =
           (\<Sum>r\<le>row. \<Sum>c\<le>col. d (color_texels G (mBackbufferColorTOSS s) c r)))"
proof -
  from ready have size: "mBackbufferWidth s = int w" "mBackbufferHeight s = int h"
    "mSummedAreaTableWidth s = int sw" "mSummedAreaTableHeight s = int sh" "w \<le> sw" "h \<le> sh"
    by (simp_all add: host_ready_def)
  have full: "sw div t * t = sw" "sh div t * t = sh" "sw div tt * tt = sw" "sh div tt * tt = sh"
    using dv by simp_all
  have d1: "div_int (mSummedAreaTableWidth s) (SAT_WORKGROUP_SIZE_X P) = Inr (int (sw div t))"
    and d2: "div_int (mSummedAreaTableHeight s) (SAT_WORKGROUP_SIZE_X P) = Inr (int (sh div t))"
    and d3: "div_int (mSummedAreaTableWidth s) (TRANSPOSE_SAT_WORKGROUP_SIZE_X P) = Inr (int (sw div tt))"
    and d4: "div_int (mSummedAreaTableHeight s) (TRANSPOSE_SAT_WORKGROUP_SIZE_X P) = Inr (int (sh div tt))"
    unfolding size tile using tile(2,4) range by (simp_all add: div_int_nat)
  from Paint_GPU_pass_succeeds [OF d1 d2 d3 d4 ptr, of inp SATPass_Rows]
  obtain rows where rows: "Paint_GPU_pass P inp s SATPass_Rows = Inr rows" ..
  from Paint_GPU_pass_succeeds [OF d1 d2 d3 d4 ptr, of inp SATPass_Cols]
  obtain cols where cols: "Paint_GPU_pass P inp s SATPass_Cols = Inr cols" ..
  let ?start = "glQueryCounter GPUTimestamps_ComputeSATStart GL_TIMESTAMP"
  let ?end = "glQueryCounter GPUTimestamps_ComputeSATEnd GL_TIMESTAMP"
  have sat: "Paint_GPU_SAT P inp s = Inr ([?start] @ rows @ cols @ [?end])"
    using progs by (simp add: Paint_GPU_SAT_def rows cols)
  from progs have p: "SummedAreaTableDownsweepSP inp \<noteq> SummedAreaTableUpsweepSP inp"
      "TransposeSummedAreaTableSP inp \<noteq> SummedAreaTableUpsweepSP inp"
      "TransposeSummedAreaTableSP inp \<noteq> SummedAreaTableDownsweepSP inp"
    by auto
  define G1 where "G1 = gl_run P d inp rows G"
  define G2 where "G2 = gl_run P d inp cols G1"
  have run: "gl_run P d inp ([?start] @ rows @ cols @ [?end]) G = G2"
    by (simp add: gl_run_append gl_run_Cons gl_run_Nil G1_def G2_def)
  note r = rows_pass_device [OF rows p names(1,2) tile size(3,4,2) single(1),
      where d = d and G = G, folded G1_def, unfolded full]
  note c = cols_pass_device [OF cols p names(3) names(2) [symmetric] ptr tile size(3,4,1) single(2),
      where d = d and G = G1, folded G2_def, unfolded full]
  have a: "uint_texels G1 (mSummedRowsTO s) col row =
      (\<Sum>c\<le>col. d (color_texels G (mBackbufferColorTOSS s) c row))" if "row < h" "col < w" for row col
    using r(1) that size(5) by simp
  have b: "uint_texels G2 (mSummedRowsTO s) col row =
      (\<Sum>r\<le>row. \<Sum>c\<le>col. d (color_texels G (mBackbufferColorTOSS s) c r))"
    if "row < h" "col < w" for row col
  proof -
    have rs: "row < sh" and cs: "col < sw"
      using that size(5,6) by simp_all
    have "uint_texels G2 (mSummedRowsTO s) col row = uint_texels G2 (mSummedColsTO s) row col"
      using c(2) rs cs by simp
    also have "\<dots> = (\<Sum>r\<le>row. uint_texels G1 (mSummedColsTO s) r col)"
      using c(1) rs that(2) by simp
    also have "\<dots> = (\<Sum>r\<le>row. uint_texels G1 (mSummedRowsTO s) col r)"
      using r(2) rs cs by (intro sum.cong refl) simp
    also have "\<dots> = (\<Sum>r\<le>row. \<Sum>c\<le>col. d (color_texels G (mBackbufferColorTOSS s) c r))"
      using that by (intro sum.cong refl a) simp_all
    finally show ?thesis .
  qed
  show ?thesis
    apply (rule exI [of _ rows], rule exI [of _ cols])
    unfolding run G1_def [symmetric]
    using rows cols sat a b by simp
qed

lemma host_path_upload:
  "uint_texels (gl_run P d inp (
               [QueryPerformanceCounter CPUTimestamps_ReadbackBackbufferStart,
                glQueryCounter GPUTimestamps_ReadbackBackbufferStart GL_TIMESTAMP,
                glBindFramebuffer GL_READ_FRAMEBUFFER fbo,
                glReadPixels 0 0 bw bh GL_RGBA GL_UNSIGNED_BYTE,
                glBindFramebuffer GL_READ_FRAMEBUFFER 0,
                glQueryCounter GPUTimestamps_ReadbackBackbufferEnd GL_TIMESTAMP,
                QueryPerformanceCounter CPUTimestamps_ReadbackBackbufferEnd,
                QueryPerformanceCounter CPUTimestamps_ComputeSATStart,
                QueryPerformanceCounter CPUTimestamps_ComputeSATEnd,
                QueryPerformanceCounter CPUTimestamps_SATUploadStart,
                glQueryCounter GPUTimestamps_SATUploadStart GL_TIMESTAMP,
                glBindTexture GL_TEXTURE_2D sat] @
               map (\<lambda>row. glTexSubImage2D GL_TEXTURE_2D 0 0 (int row) (int w) 1
                      GL_RGBA_INTEGER GL_UNSIGNED_INT (take w (drop (row * sw) table))) [0..<h] @
               [glBindTexture GL_TEXTURE_2D 0,
                glQueryCounter GPUTimestamps_SATUploadEnd GL_TIMESTAMP,
                QueryPerformanceCounter CPUTimestamps_SATUploadEnd]) G) =
         (uint_texels G)(sat := (\<lambda>x y. if x < w \<and> y < h then take w (drop (y * sw) table) ! x
              else uint_texels G sat x y))"
proof -
  let ?up = "map (\<lambda>row. glTexSubImage2D GL_TEXTURE_2D 0 0 (int row) (int w) 1
                      GL_RGBA_INTEGER GL_UNSIGNED_INT (take w (drop (row * sw) table))) [0..<h]"
  define G0 where "G0 = G\<lparr>texture_2D := sat\<rparr>"
  have t: "texture_2D G0 = sat"
    by (simp add: G0_def)
  have g: "uint_texels G0 = uint_texels G"
    by (simp add: G0_def)
  note u = upload_rows_device [OF t, of P d inp w sw table h]
  have "uint_texels (gl_run P d inp ?up G0) =
      (uint_texels G)(sat := (\<lambda>x y. if x < w \<and> y < h then take w (drop (y * sw) table) ! x
              else uint_texels G sat x y))"
    using u [THEN conjunct2, THEN conjunct2] unfolding g .
  then show ?thesis
    by (simp add: gl_run_append gl_run_Cons gl_run_Nil gl_exec_def G0_def [symmetric])
qed

lemma Resize_names:
  assumes "Resize tile heap width height (s, n) = Inr (s', n', calls)"
  shows "mSummedRowsTO s' \<noteq> mSummedRowsWGSumsTO s'" "mSummedColsTO s' \<noteq> mSummedRowsTO s'"
    "mSummedColsTO s' \<noteq> mSummedColsWGSumsTO s'"
proof -
  obtain s2 n2 ms where ms: "Resize_multisampled_FBO
      (s\<lparr>mWindowWidth := width, mWindowHeight := height,
         mBackbufferWidth := width, mBackbufferHeight := height\<rparr>, n) = (s2, n2, ms)"
    by (metis prod_cases3)
  obtain s3 n3 ss where ss: "Resize_singlesampled_FBO (s2, n2) = (s3, n3, ss)"
    by (metis prod_cases3)
  from assms ms ss obtain sat where
    "Resize_summed_area_table tile heap (s3, n3) = Inr (s', n', sat)"
    by (auto simp: Resize_def and_then_Inr_iff)
  then show "mSummedRowsTO s' \<noteq> mSummedRowsWGSumsTO s'" "mSummedColsTO s' \<noteq> mSummedRowsTO s'"
    "mSummedColsTO s' \<noteq> mSummedColsWGSumsTO s'"
    by (auto simp: Resize_summed_area_table_def and_then_Inr_iff Let_def)
qed

lemma round_up_to_workgroup_within_int:
  assumes "round_up_to_workgroup (2 ^ k) d = Inr v"
  shows "v \<le> INT_MAX"
proof -
  from assms have v: "v = (d + 2 ^ k - 1) AND - (2 ^ k)" and b: "d + 2 ^ k - 1 \<le> INT_MAX"
    by (auto simp: round_up_to_workgroup_def and_then_Inr_iff add_int_def sub_int_def
        neg_int_def checked_Inr_iff)
  have "v = ((d + 2 ^ k - 1) div 2 ^ k) * 2 ^ k"
    unfolding v by (rule and_neg_pow2)
  moreover have "(0::int) \<le> (d + 2 ^ k - 1) mod 2 ^ k"
    by simp
  then have "((d + 2 ^ k - 1) div 2 ^ k) * 2 ^ k \<le> d + 2 ^ k - 1"
    using div_mult_mod_eq [of "d + 2 ^ k - 1" "2 ^ k"] by linarith
  ultimately show ?thesis
    using b by linarith
qed

lemma Resize_device_ready:
  assumes r: "Resize (2 ^ k) heap width height (s0, n0) = Inr (s, n, calls0)"
    and w: "0 < width" and h: "0 \<le> height"
    and tt: "0 < tt" "tt dvd 2 ^ k"
  defines "sw \<equiv> nat (mSummedAreaTableWidth s)" and "sh \<equiv> nat (mSummedAreaTableHeight s)"
  shows "2 ^ k dvd sw" "2 ^ k dvd sh" "nat tt dvd sw" "nat tt dvd sh"
    "sw div 2 ^ k \<le> 2 ^ k" "sh div 2 ^ k \<le> 2 ^ k"
    "int sw \<le> INT_MAX" "int sh \<le> INT_MAX"
proof -
  from Resize_host_ready [OF r w h] have
    size: "mSummedAreaTableWidth s = int sw" "mSummedAreaTableHeight s = int sh"
    by (simp_all add: host_ready_def sw_def sh_def)
  have "int (2 ^ k) dvd int sw" "int (2 ^ k) dvd int sh"
    using Resize_padded [OF r] unfolding size by simp_all
  then show d: "2 ^ k dvd sw" "2 ^ k dvd sh"
    unfolding int_dvd_int_iff by simp_all
  have "int (nat tt) dvd int (2 ^ k)"
    using tt by simp
  then have "nat tt dvd (2::nat) ^ k"
    unfolding int_dvd_int_iff .
  then show "nat tt dvd sw" "nat tt dvd sh"
    using d by (auto elim: dvd_trans)
  from Resize_Inr(3) [OF r] obtain qw where
    qw: "div_int (int sw) (int (2 ^ k)) = Inr qw" "qw \<le> 2 ^ k"
    unfolding size using assert_single_workgroup_Inr by fastforce
  from Resize_Inr(4) [OF r] obtain qh where
    qh: "div_int (int sh) (int (2 ^ k)) = Inr qh" "qh \<le> 2 ^ k"
    unfolding size using assert_single_workgroup_Inr by fastforce
  have "nat qw = sw div 2 ^ k" "nat qh = sh div 2 ^ k"
    using qw(1) qh(1) by (simp_all add: div_int_Inr_nat)
  moreover have "nat qw \<le> 2 ^ k" "nat qh \<le> 2 ^ k"
    using qw(2) qh(2) by (simp_all add: nat_le_iff)
  ultimately show "sw div 2 ^ k \<le> 2 ^ k" "sh div 2 ^ k \<le> 2 ^ k"
    by simp_all
  show "int sw \<le> INT_MAX" "int sh \<le> INT_MAX"
    using Resize_Inr(1,2) [OF r] unfolding size [symmetric]
    by (simp_all add: round_up_to_workgroup_within_int)
qed

text \<open>
  Claim C1. After \<open>Resize\<close> to a non-empty width and any height, with a tile size that is
  a power of two, a transpose tile that divides it and three distinct programs, the device
  path and the host path both return, and for every pixel of the image the table texture
  holds the same texel after the one as after the other: after the row pass of the device
  the entry of the host's row sums, and after the whole device path the entry of the
  host's table, which is also what the host path uploads. The colour texture holds the
  pixels the host reads back, and the device decodes a pixel as the host does.
\<close>

theorem device_table_equals_host_table:
  assumes r: "Resize (2 ^ k) heap width height (s0, n0) = Inr (s, n, calls0)"
    and w: "0 < width" and h: "0 \<le> height"
    and P: "SAT_WORKGROUP_SIZE_X P = 2 ^ k" "0 < TRANSPOSE_SAT_WORKGROUP_SIZE_X P"
      "TRANSPOSE_SAT_WORKGROUP_SIZE_X P dvd 2 ^ k"
    and progs: "distinct [0, SummedAreaTableUpsweepSP inp, SummedAreaTableDownsweepSP inp,
      TransposeSummedAreaTableSP inp]"
    and image: "\<forall>row < nat height. \<forall>col < nat width.
      color_texels G (mBackbufferColorTOSS s) col row = backbuffer_pixels inp (row * nat width + col)"
    and dec: "\<forall>i < nat width * nat height. decodable (gamma_float inp) (backbuffer_pixels inp i)"
  shows "\<exists>device_rows device_table host_rows host_state host_calls.
      Paint_GPU_pass P inp s SATPass_Rows = Inr device_rows \<and>
      Paint_GPU_SAT P inp s = Inr device_table \<and>
      Paint_CPU_sum_rows (gamma_float inp)
        (s\<lparr>mCPUBackbufferReadback := map (backbuffer_pixels inp) [0..<nat width * nat height]\<rparr>) =
        Inr host_rows \<and>
      Paint_CPU_SAT inp s = Inr (host_state, host_calls) \<and>
      (\<forall>row < nat height. \<forall>col < nat width.
         uint_texels (gl_run P (decoded (gamma_float inp)) inp device_rows G) (mSummedRowsTO s) col row =
           host_rows ! (row * nat (mSummedAreaTableWidth s) + col) \<and>
         uint_texels (gl_run P (decoded (gamma_float inp)) inp device_table G) (mSummedRowsTO s) col row =
           mCPUSummedAreaTable host_state ! (row * nat (mSummedAreaTableWidth s) + col) \<and>
         uint_texels (gl_run P (decoded (gamma_float inp)) inp device_table G) (mSummedRowsTO s) col row =
           uint_texels (gl_run P (decoded (gamma_float inp)) inp host_calls G) (mSummedRowsTO s) col row)"
proof -
  let ?d = "decoded (gamma_float inp)"
  define sw sh where "sw = nat (mSummedAreaTableWidth s)" and "sh = nat (mSummedAreaTableHeight s)"
  define tt where "tt = nat (TRANSPOSE_SAT_WORKGROUP_SIZE_X P)"
  have ready: "host_ready s (nat width) (nat height) sw sh"
    unfolding sw_def sh_def using r w h by (rule Resize_host_ready)
  then have le: "nat width \<le> sw" "nat height \<le> sh"
    and len: "int (sw * sh) \<le> INT_MAX"
    by (simp_all add: host_ready_def)
  have ptr: "mSummedAreaTableTO s = Some SummedRowsTO"
    using r by (rule Resize_alias)
  then have ptr': "mSummedAreaTableTO s \<noteq> None"
    by simp
  have sat: "deref_mSummedAreaTableTO s = Inr (mSummedRowsTO s)"
    using ptr by (simp add: deref_mSummedAreaTableTO_def)
  note names = Resize_names [OF r]
  have tile: "SAT_WORKGROUP_SIZE_X P = int (2 ^ k)" "(0::nat) < 2 ^ k"
      "TRANSPOSE_SAT_WORKGROUP_SIZE_X P = int tt" "0 < tt"
    using P by (simp_all add: tt_def)
  note dev = Resize_device_ready [OF r w h P(2,3), folded sw_def sh_def tt_def]
  from device_path_table [OF ready ptr names tile dev progs, of ?d G]
  obtain device_rows cols where
    g1: "Paint_GPU_pass P inp s SATPass_Rows = Inr device_rows"
    and g2: "Paint_GPU_SAT P inp s =
        Inr ([glQueryCounter GPUTimestamps_ComputeSATStart GL_TIMESTAMP] @ device_rows @ cols @
             [glQueryCounter GPUTimestamps_ComputeSATEnd GL_TIMESTAMP])"
    and g3: "\<forall>row < nat height. \<forall>col < nat width.
         uint_texels (gl_run P ?d inp device_rows G) (mSummedRowsTO s) col row =
           (\<Sum>c\<le>col. ?d (color_texels G (mBackbufferColorTOSS s) c row)) \<and>
         uint_texels (gl_run P ?d inp
             ([glQueryCounter GPUTimestamps_ComputeSATStart GL_TIMESTAMP] @ device_rows @ cols @
              [glQueryCounter GPUTimestamps_ComputeSATEnd GL_TIMESTAMP]) G) (mSummedRowsTO s) col row =
           (\<Sum>r\<le>row. \<Sum>c\<le>col. ?d (color_texels G (mBackbufferColorTOSS s) c r))"
    by (elim exE conjE)
  define device_table where "device_table =
      [glQueryCounter GPUTimestamps_ComputeSATStart GL_TIMESTAMP] @ device_rows @ cols @
      [glQueryCounter GPUTimestamps_ComputeSATEnd GL_TIMESTAMP]"
  note g2 = g2 [folded device_table_def] and g3 = g3 [folded device_table_def]
  from host_path_Paint_CPU_SAT [OF ready ptr' dec]
  obtain host_rows table sat' where
    c1: "Paint_CPU_sum_rows (gamma_float inp)
        (s\<lparr>mCPUBackbufferReadback := map (backbuffer_pixels inp) [0..<nat width * nat height]\<rparr>) =
        Inr host_rows"
    and c2: "deref_mSummedAreaTableTO s = Inr sat'"
    and c3: "Paint_CPU_SAT inp s =
             Inr (s\<lparr>mCPUBackbufferReadback := map (backbuffer_pixels inp) [0..<nat width * nat height],
                     mCPUSummedAreaTable := table\<rparr>,
               [QueryPerformanceCounter CPUTimestamps_ReadbackBackbufferStart,
                glQueryCounter GPUTimestamps_ReadbackBackbufferStart GL_TIMESTAMP,
                glBindFramebuffer GL_READ_FRAMEBUFFER (mBackbufferFBOSS s),
                glReadPixels 0 0 (mBackbufferWidth s) (mBackbufferHeight s) GL_RGBA GL_UNSIGNED_BYTE,
                glBindFramebuffer GL_READ_FRAMEBUFFER 0,
                glQueryCounter GPUTimestamps_ReadbackBackbufferEnd GL_TIMESTAMP,
                QueryPerformanceCounter CPUTimestamps_ReadbackBackbufferEnd,
                QueryPerformanceCounter CPUTimestamps_ComputeSATStart,
                QueryPerformanceCounter CPUTimestamps_ComputeSATEnd,
                QueryPerformanceCounter CPUTimestamps_SATUploadStart,
                glQueryCounter GPUTimestamps_SATUploadStart GL_TIMESTAMP,
                glBindTexture GL_TEXTURE_2D sat'] @
               map (\<lambda>row. glTexSubImage2D GL_TEXTURE_2D 0 0 (int row) (int (nat width)) 1
                      GL_RGBA_INTEGER GL_UNSIGNED_INT (take (nat width) (drop (row * sw) table)))
                 [0..<nat height] @
               [glBindTexture GL_TEXTURE_2D 0,
                glQueryCounter GPUTimestamps_SATUploadEnd GL_TIMESTAMP,
                QueryPerformanceCounter CPUTimestamps_SATUploadEnd])"
    and c4: "length table = sw * sh"
    and c5: "\<forall>row < nat height. \<forall>col < nat width.
              host_rows ! (row * sw + col) =
                (\<Sum>c\<le>col. ?d (backbuffer_pixels inp (row * nat width + c))) \<and>
              table ! (row * sw + col) =
                (\<Sum>r\<le>row. \<Sum>c\<le>col. ?d (backbuffer_pixels inp (r * nat width + c)))"
    by (elim exE conjE)
  have sat': "sat' = mSummedRowsTO s"
    using c2 sat by simp
  define host_state where "host_state =
      s\<lparr>mCPUBackbufferReadback := map (backbuffer_pixels inp) [0..<nat width * nat height],
        mCPUSummedAreaTable := table\<rparr>"
  obtain host_calls where c3': "Paint_CPU_SAT inp s = Inr (host_state, host_calls)"
    and up: "uint_texels (gl_run P ?d inp host_calls G) =
      (uint_texels G)(mSummedRowsTO s := (\<lambda>x y. if x < nat width \<and> y < nat height
          then take (nat width) (drop (y * sw) table) ! x
          else uint_texels G (mSummedRowsTO s) x y))"
    using c3 unfolding sat' host_state_def [symmetric]
    using host_path_upload [where P = P and d = ?d and inp = inp and fbo = "mBackbufferFBOSS s"
        and bw = "mBackbufferWidth s" and bh = "mBackbufferHeight s" and sat = "mSummedRowsTO s"
        and w = "nat width" and sw = sw and table = table and h = "nat height" and G = G]
    by simp
  have tab: "mCPUSummedAreaTable host_state = table"
    by (simp add: host_state_def)
  have cell: "uint_texels (gl_run P ?d inp device_rows G) (mSummedRowsTO s) col row =
           host_rows ! (row * sw + col) \<and>
         uint_texels (gl_run P ?d inp device_table G) (mSummedRowsTO s) col row =
           table ! (row * sw + col) \<and>
         uint_texels (gl_run P ?d inp device_table G) (mSummedRowsTO s) col row =
           uint_texels (gl_run P ?d inp host_calls G) (mSummedRowsTO s) col row"
    if rc: "row < nat height" "col < nat width" for row col
  proof -
    have px: "color_texels G (mBackbufferColorTOSS s) c r' = backbuffer_pixels inp (r' * nat width + c)"
      if "r' \<le> row" "c \<le> col" for r' c
      using image that rc by simp
    have rows: "(\<Sum>c\<le>col. ?d (color_texels G (mBackbufferColorTOSS s) c row)) =
        (\<Sum>c\<le>col. ?d (backbuffer_pixels inp (row * nat width + c)))"
      by (intro sum.cong refl) (simp add: px)
    have area: "(\<Sum>r\<le>row. \<Sum>c\<le>col. ?d (color_texels G (mBackbufferColorTOSS s) c r)) =
        (\<Sum>r\<le>row. \<Sum>c\<le>col. ?d (backbuffer_pixels inp (r * nat width + c)))"
      by (intro sum.cong refl) (simp add: px)
    have "row * sw + nat width \<le> sw * sh"
    proof -
      have "row * sw + nat width \<le> row * sw + sw"
        using le(1) by simp
      also have "\<dots> = Suc row * sw"
        by simp
      also have "\<dots> \<le> sh * sw"
        using rc(1) le(2) by (intro mult_le_mono1) simp
      finally show ?thesis
        by (simp add: mult.commute)
    qed
    then have "row * sw \<le> length table"
      unfolding c4 by linarith
    then have tk: "take (nat width) (drop (row * sw) table) ! col = table ! (row * sw + col)"
      using rc(2) by (simp add: nth_drop)
    have hostcell: "uint_texels (gl_run P ?d inp host_calls G) (mSummedRowsTO s) col row =
        table ! (row * sw + col)"
      using rc by (simp add: up tk)
    from g3 [rule_format, OF rc] c5 [rule_format, OF rc] show ?thesis
      unfolding rows area hostcell by simp
  qed
  have "\<forall>row < nat height. \<forall>col < nat width.
         uint_texels (gl_run P ?d inp device_rows G) (mSummedRowsTO s) col row =
           host_rows ! (row * nat (mSummedAreaTableWidth s) + col) \<and>
         uint_texels (gl_run P ?d inp device_table G) (mSummedRowsTO s) col row =
           mCPUSummedAreaTable host_state ! (row * nat (mSummedAreaTableWidth s) + col) \<and>
         uint_texels (gl_run P ?d inp device_table G) (mSummedRowsTO s) col row =
           uint_texels (gl_run P ?d inp host_calls G) (mSummedRowsTO s) col row"
    unfolding tab sw_def [symmetric] by (intro allI impI cell)
  with g1 g2 c1 c3' show ?thesis
    by (intro exI conjI) assumption+
qed

theorem device_table_equals_host_table_witness:
  "\<exists>device_table host_state host_calls.
     Paint_GPU_SAT example_preamble example_input example_state = Inr device_table \<and>
     Paint_CPU_SAT example_input example_state = Inr (host_state, host_calls) \<and>
     uint_texels (gl_run example_preamble (decoded (gamma_float example_input)) example_input
        device_table example_device) (mSummedRowsTO example_state) 7 7 =
       mCPUSummedAreaTable host_state ! 63 \<and>
     uint_texels (gl_run example_preamble (decoded (gamma_float example_input)) example_input
        host_calls example_device) (mSummedRowsTO example_state) 7 7 =
       mCPUSummedAreaTable host_state ! 63"
proof -
  from example_state_Resize obtain n calls0 where
    "Resize 4 zero_heap 8 8 (Init 1 NewRenderer, first_names) = Inr (example_state, n, calls0)"
    by (elim exE)
  then have r: "Resize (2 ^ 2) zero_heap 8 8 (Init 1 NewRenderer, first_names) =
      Inr (example_state, n, calls0)"
    by simp
  have P: "SAT_WORKGROUP_SIZE_X example_preamble = 2 ^ 2"
      "0 < TRANSPOSE_SAT_WORKGROUP_SIZE_X example_preamble"
      "TRANSPOSE_SAT_WORKGROUP_SIZE_X example_preamble dvd 2 ^ 2"
    by (simp_all add: example_preamble_def)
  have progs: "distinct [0, SummedAreaTableUpsweepSP example_input,
      SummedAreaTableDownsweepSP example_input, TransposeSummedAreaTableSP example_input]"
    by (simp add: example_input_def)
  have image: "\<forall>row < nat 8. \<forall>col < nat 8.
      color_texels example_device (mBackbufferColorTOSS example_state) col row =
        backbuffer_pixels example_input (row * nat 8 + col)"
    by (simp add: example_device_def example_pixels_white)
  have dec: "\<forall>i < nat 8 * nat 8.
      decodable (gamma_float example_input) (backbuffer_pixels example_input i)"
    using decoded_white(1) [of "gamma_float example_input", OF example_gamma_white]
    by (simp add: example_pixels_white)
  have sw: "nat (mSummedAreaTableWidth example_state) = 8"
    by (simp add: example_state_def)
  have wh: "(0::int) < 8" "(0::int) \<le> 8"
    by simp_all
  from device_table_equals_host_table [OF r wh P progs image dec]
  obtain device_rows device_table host_rows host_state host_calls where
    a: "Paint_GPU_SAT example_preamble example_input example_state = Inr device_table"
    and b: "Paint_CPU_SAT example_input example_state = Inr (host_state, host_calls)"
    and c: "\<forall>row < nat 8. \<forall>col < nat 8.
         uint_texels (gl_run example_preamble (decoded (gamma_float example_input)) example_input
            device_rows example_device) (mSummedRowsTO example_state) col row =
           host_rows ! (row * nat (mSummedAreaTableWidth example_state) + col) \<and>
         uint_texels (gl_run example_preamble (decoded (gamma_float example_input)) example_input
            device_table example_device) (mSummedRowsTO example_state) col row =
           mCPUSummedAreaTable host_state ! (row * nat (mSummedAreaTableWidth example_state) + col) \<and>
         uint_texels (gl_run example_preamble (decoded (gamma_float example_input)) example_input
            device_table example_device) (mSummedRowsTO example_state) col row =
           uint_texels (gl_run example_preamble (decoded (gamma_float example_input)) example_input
            host_calls example_device) (mSummedRowsTO example_state) col row"
    by (elim exE conjE)
  have lt: "(7::nat) < nat 8"
    by simp
  note c7 = c [rule_format, OF lt lt]
  have t1: "uint_texels (gl_run example_preamble (decoded (gamma_float example_input)) example_input
        device_table example_device) (mSummedRowsTO example_state) 7 7 =
       mCPUSummedAreaTable host_state ! 63"
    using c7 [THEN conjunct2, THEN conjunct1] unfolding sw by simp
  have "uint_texels (gl_run example_preamble (decoded (gamma_float example_input)) example_input
        device_table example_device) (mSummedRowsTO example_state) 7 7 =
      uint_texels (gl_run example_preamble (decoded (gamma_float example_input)) example_input
        host_calls example_device) (mSummedRowsTO example_state) 7 7"
    by (rule c7 [THEN conjunct2, THEN conjunct2])
  from trans [OF this [symmetric] t1] have t2:
    "uint_texels (gl_run example_preamble (decoded (gamma_float example_input)) example_input
        host_calls example_device) (mSummedRowsTO example_state) 7 7 =
       mCPUSummedAreaTable host_state ! 63" .
  from a b t1 t2 show ?thesis
    by (intro exI conjI) assumption+
qed

end
